theory Spec2Isabelle
  imports Main "HOL-Library.Sublist" "HOL-Library.AList"
begin

text \<open>
  The browser compiler of remix-dev (\<open>createBrowserCompiler\<close>, with \<open>getExternals\<close>,
  \<open>createEsbuildConfig\<close>, \<open>writeAssetsManifest\<close>, \<open>compile\<close> and \<open>dispose\<close>) and its
  scoped-style plugin (\<open>cssModulesPlugin\<close>), as functions on an explicit state. The
  bundler, the file system, the manifest builder, the style transform and Node's own
  modules are collaborators: what they answer is a parameter, and every call made to
  them is logged.
\<close>

section \<open>JavaScript strings and arrays\<close>

text \<open>
  Strings are character lists. \<open>String.prototype.startsWith\<close> and \<open>endsWith\<close> are the
  prefix and suffix tests, and \<open>Array.prototype.join\<close> puts the separator between the
  elements.
\<close>

definition startsWith :: "string \<Rightarrow> string \<Rightarrow> bool" where
  "startsWith s p = prefix p s"

definition endsWith :: "string \<Rightarrow> string \<Rightarrow> bool" where
  "endsWith s p = suffix p s"

fun join :: "string \<Rightarrow> string list \<Rightarrow> string" where
  "join sep [] = []"
| "join sep [x] = x"
| "join sep (x # y # ys) = x @ sep @ join sep (y # ys)"

definition arrayIncludes :: "string list \<Rightarrow> string \<Rightarrow> bool" where
  "arrayIncludes xs x = (x \<in> set xs)"

section \<open>Configuration, options and the host\<close>

text \<open>A JavaScript \<open>Error\<close> carries its message.\<close>

datatype error = Error string

text \<open>
  \<open>RemixConfig\<close> and \<open>CompileOptions\<close> are declared outside the two source files; the
  records hold the fields the compiler reads. \<open>routes\<close> lists each route id with its
  file, in the order of \<open>Object.keys\<close>.
\<close>

record remixConfig =
  rootDirectory :: string
  appDirectory :: string
  entryClientFile :: string
  routes :: "(string \<times> string) list"
  assetsBuildDirectory :: string
  publicPath :: string
  tsconfigPath :: "string option"
  devServerPort :: nat

record compileOptions =
  mode :: string
  sourcemap :: bool

text \<open>
  The manifest object. Only \<open>version\<close> and \<open>url\<close> are read or written by the compiler;
  the fields contributed by the manifest builder are kept opaque in \<open>builderFields\<close>.
\<close>

record assetsManifest =
  version :: string
  url :: "string option"
  builderFields :: string

text \<open>
  The host collects what the compiler imports and only calls: the list of Node builtin
  modules, the dependency lister (here returning the keys of the dependency object),
  the functions of Node's \<open>path\<close> module, the working directory,
  \<open>String.prototype.toUpperCase\<close>, \<open>JSON.stringify\<close> on a manifest and on a name mapping,
  base64 encoding, and the fixed id of the virtual module that is the stylesheet build's
  entry.
\<close>

record host =
  nodeBuiltins :: "string list"
  getAppDependencies :: "remixConfig \<Rightarrow> string list"
  path_join :: "string \<Rightarrow> string \<Rightarrow> string"
  path_resolve :: "string \<Rightarrow> string \<Rightarrow> string"
  path_relative :: "string \<Rightarrow> string \<Rightarrow> string"
  path_dirname :: "string \<Rightarrow> string"
  path_basename :: "string \<Rightarrow> string"
  cwd :: string
  toUpperCase :: "string \<Rightarrow> string"
  JSON_stringify :: "assetsManifest \<Rightarrow> string"
  JSON_stringify_exports :: "(string \<times> string) list \<Rightarrow> string"
  base64 :: "string \<Rightarrow> string"
  cssBuildVirtualModuleId :: string

section \<open>External modules\<close>

definition fakeBuiltinsMessage :: "string list \<Rightarrow> string" where
  "fakeBuiltinsMessage fakeBuiltins =
     ''It appears you're using a module that is built in to node, but you installed it as a dependency which could cause problems. Please remove ''
     @ join '', '' fakeBuiltins @ '' before continuing.''"

definition getExternals :: "host \<Rightarrow> remixConfig \<Rightarrow> error + string list" where
  "getExternals h remixConfig =
     (let dependencies = getAppDependencies h remixConfig;
          fakeBuiltins = filter (\<lambda>m. arrayIncludes dependencies m) (nodeBuiltins h)
      in if length fakeBuiltins > 0
         then Inl (Error (fakeBuiltinsMessage fakeBuiltins))
         else Inr (filter (\<lambda>m. \<not> arrayIncludes dependencies m) (nodeBuiltins h)))"

section \<open>Bundler configuration\<close>

datatype buildTarget = App | Css

text \<open>
  The build options passed to the bundler. A flag the configuration does not mention is
  \<open>None\<close>. The fields that are the same constant for both targets (platform, format,
  loader table, bundle, log level, main fields, tree shaking, the three name patterns,
  jsx) and the opaque plugin objects are left out; of the plugin list the options given
  to the scoped-style plugin are kept, and the two \<open>define\<close> entries hold the values
  before \<open>JSON.stringify\<close>.
\<close>

record buildOptions =
  entryPoints :: "(string \<times> string) list"
  outdir :: string
  external :: "string list"
  splitting :: bool
  sourcemapOption :: bool
  tsconfig :: "string option"
  minify :: bool
  publicPathOption :: string
  defineNodeEnv :: string
  defineWsPort :: nat
  jsxDev :: bool
  cssModulesMode :: string
  cssModulesEmitCss :: bool
  metafileOption :: "bool option"
  writeOption :: "bool option"
  incrementalOption :: "bool option"

definition appEntryPoints :: "host \<Rightarrow> remixConfig \<Rightarrow> (string \<times> string) list" where
  "appEntryPoints h config =
     foldl (\<lambda>entries (id, file). AList.update id (file @ ''?browser'') entries)
       [(''entry.client'', path_resolve h (appDirectory config) (entryClientFile config))]
       (routes config)"

definition createEsbuildConfig ::
  "host \<Rightarrow> buildTarget \<Rightarrow> remixConfig \<Rightarrow> compileOptions \<Rightarrow> error + buildOptions" where
  "createEsbuildConfig h build config options =
     (let entries = (if build = Css then [(''css-bundle'', cssBuildVirtualModuleId h)]
                     else appEntryPoints h config)
      in case getExternals h config of
           Inl e \<Rightarrow> Inl e
         | Inr externals \<Rightarrow> Inr
             \<lparr> entryPoints = entries,
               outdir = assetsBuildDirectory config,
               external = externals,
               splitting = (build \<noteq> Css),
               sourcemapOption = sourcemap options,
               tsconfig = tsconfigPath config,
               minify = (mode options = ''production''),
               publicPathOption = publicPath config,
               defineNodeEnv = mode options,
               defineWsPort = devServerPort config,
               jsxDev = (mode options \<noteq> ''production''),
               cssModulesMode = mode options,
               cssModulesEmitCss = (build = Css),
               metafileOption = None,
               writeOption = None,
               incrementalOption = None \<rparr>)"

section \<open>The bundler engine and the outside world\<close>

text \<open>
  An emitted file of an in-memory build, and the result of a build or rebuild, which is
  also the incremental handle of later rebuilds.
\<close>

record outputFile =
  path :: string
  contents :: string

record buildResult =
  metafile :: "string option"
  outputFiles :: "outputFile list option"

text \<open>
  Every call the compiler makes to a collaborator is logged in the order it is issued.
  A manifest is an object on the heap: the handoff channel and the manifest writer
  receive its reference.
\<close>

datatype call =
    EsbuildBuild buildTarget buildOptions
  | Rebuild buildTarget buildResult
  | RebuildDispose buildResult
  | FsWriteFile string string
  | CreateAssetsManifest "string option" "string option"
  | ChannelWrite nat
  | WriteFileSafe string string

text \<open>
  What the collaborators answer during one \<open>compile\<close> call: the outcome of the two
  build or rebuild operations, which of two rejections reaches \<open>Promise.all\<close> first,
  and the outcome of each file write and of the manifest builder (\<open>None\<close> is a write
  that succeeded). The application target is built with an output directory and without
  \<open>write: false\<close>, so the bundler writes the files of that target itself:
  \<open>appBuildWrites\<close> lists them in the order they are written, whatever the outcome of
  the operation is. The operation runs beside the stylesheet operation and its
  continuation, and \<open>appWriteAfterCss\<close> tells for a path whether the bundler's write of
  it lands after the writes of the continuation.
\<close>

record compileEnv =
  appBuildOutcome :: "error + buildResult"
  appBuildWrites :: "(string \<times> string) list"
  appWriteAfterCss :: "string \<Rightarrow> bool"
  cssBuildOutcome :: "error + buildResult"
  cssSettlesFirst :: bool
  fsWriteFileOutcome :: "string \<Rightarrow> string \<Rightarrow> error option"
  createAssetsManifestOutcome :: "string option \<Rightarrow> string option \<Rightarrow> error + assetsManifest"
  writeFileSafeOutcome :: "string \<Rightarrow> string \<Rightarrow> error option"

text \<open>
  The two variables of the closure that \<open>createBrowserCompiler\<close> returns, with the disk,
  the heap of manifest objects and the log of calls. The disk is changed by the files
  that the bundler writes for the application target, by the writes of the stylesheet
  continuation and by the manifest writer. A reference to a manifest is its index in the
  heap, where objects are only added.
\<close>

record state =
  appCompiler :: "buildResult option"
  cssCompiler :: "buildResult option"
  disk :: "string \<rightharpoonup> string"
  heap :: "assetsManifest list"
  log :: "call list"

definition createBrowserCompiler :: "(string \<rightharpoonup> string) \<Rightarrow> state" where
  "createBrowserCompiler d =
     \<lparr> appCompiler = None, cssCompiler = None, disk = d, heap = [], log = [] \<rparr>"

section \<open>Writing the manifest\<close>

definition manifestFilename :: "host \<Rightarrow> assetsManifest \<Rightarrow> string" where
  "manifestFilename h assetsManifest =
     ''manifest-'' @ toUpperCase h (version assetsManifest) @ ''.js''"

text \<open>
  The manifest writer receives the reference of the manifest object: it assigns the
  \<open>url\<close> field of that object and then writes the file. The reference is one that
  \<open>compile\<close> has just allocated, so it is in the heap.
\<close>

definition writeAssetsManifest ::
  "host \<Rightarrow> compileEnv \<Rightarrow> remixConfig \<Rightarrow> nat \<Rightarrow> state \<Rightarrow> (error + unit) \<times> state" where
  "writeAssetsManifest h env config ref st =
     (let assetsManifest = heap st ! ref;
          filename = manifestFilename h assetsManifest;
          assetsManifest' = assetsManifest\<lparr>url := Some (publicPath config @ filename)\<rparr>;
          st1 = st\<lparr>heap := (heap st)[ref := assetsManifest']\<rparr>;
          file = path_join h (assetsBuildDirectory config) filename;
          text = ''window.__remixManifest='' @ JSON_stringify h assetsManifest' @ '';'';
          st2 = st1\<lparr>log := log st1 @ [WriteFileSafe file text]\<rparr>
      in case writeFileSafeOutcome env file text of
           Some e \<Rightarrow> (Inl e, st2)
         | None \<Rightarrow> (Inr (), st2\<lparr>disk := (disk st2)(file \<mapsto> text)\<rparr>))"

section \<open>The stylesheet build's output files\<close>

definition cssBundlePathPrefix :: "host \<Rightarrow> remixConfig \<Rightarrow> string" where
  "cssBundlePathPrefix h remixConfig =
     path_join h (assetsBuildDirectory remixConfig) ''css-bundle''"

text \<open>
  The callback mapped over the output files: it may assign \<open>cssBundlePath\<close> and may
  start a write of the file.
\<close>

definition processOutputFile ::
  "string \<Rightarrow> string option \<Rightarrow> outputFile \<Rightarrow> string option \<times> (string \<times> string) option" where
  "processOutputFile pathPrefix cssBundlePath outputFile =
     (let outputPath = path outputFile
      in if startsWith outputPath pathPrefix
         then if endsWith outputPath ''.css''
              then (Some outputPath, Some (outputPath, contents outputFile))
              else if endsWith outputPath ''.css.map''
              then (cssBundlePath, Some (outputPath, contents outputFile))
              else (cssBundlePath, None)
         else (cssBundlePath, None))"

fun processOutputFiles ::
  "string \<Rightarrow> string option \<Rightarrow> outputFile list \<Rightarrow> string option \<times> (string \<times> string) list" where
  "processOutputFiles pathPrefix cssBundlePath [] = (cssBundlePath, [])"
| "processOutputFiles pathPrefix cssBundlePath (outputFile # rest) =
     (case processOutputFile pathPrefix cssBundlePath outputFile of
        (cssBundlePath', w) \<Rightarrow>
          (case processOutputFiles pathPrefix cssBundlePath' rest of
             (cssBundlePath'', ws) \<Rightarrow>
               (cssBundlePath'', (case w of None \<Rightarrow> ws | Some x \<Rightarrow> x # ws))))"

text \<open>
  The started writes are awaited together: a write that succeeds changes the disk, and
  the first rejection is the result.
\<close>

fun fsWriteFiles ::
  "compileEnv \<Rightarrow> (string \<times> string) list \<Rightarrow> (string \<rightharpoonup> string)
     \<Rightarrow> error option \<times> (string \<rightharpoonup> string)" where
  "fsWriteFiles env [] d = (None, d)"
| "fsWriteFiles env ((p, c) # ws) d =
     (case fsWriteFileOutcome env p c of
        None \<Rightarrow> fsWriteFiles env ws (d(p \<mapsto> c))
      | Some e \<Rightarrow> (Some e, snd (fsWriteFiles env ws d)))"

text \<open>
  The continuation of the stylesheet build: every write is issued while the callback is
  mapped over the output files, and the continuation ends when all of them have.
\<close>

definition emittedFiles :: "buildResult \<Rightarrow> outputFile list" where
  "emittedFiles compiler = (case outputFiles compiler of None \<Rightarrow> [] | Some fs \<Rightarrow> fs)"

definition cssBuildThen ::
  "string \<Rightarrow> compileEnv \<Rightarrow> buildResult \<Rightarrow> state
     \<Rightarrow> (error + buildResult \<times> string option) \<times> state" where
  "cssBuildThen pathPrefix env compiler st =
     (case processOutputFiles pathPrefix None (emittedFiles compiler) of
        (cssBundlePath, ws) \<Rightarrow>
          (case fsWriteFiles env ws (disk st) of
             (r, d) \<Rightarrow>
               (let st1 = st\<lparr>log := log st @ map (\<lambda>(p, c). FsWriteFile p c) ws, disk := d\<rparr>
                in case r of
                     Some e \<Rightarrow> (Inl e, st1)
                   | None \<Rightarrow> (Inr (compiler, cssBundlePath), st1))))"

section \<open>The orchestrator\<close>

text \<open>
  The operation issued for a target: a full build when the closure holds no handle for
  it, whose configuration is computed first and may throw, and a rebuild of the held
  handle otherwise.
\<close>

definition appBuildCall :: "host \<Rightarrow> remixConfig \<Rightarrow> compileOptions \<Rightarrow> state \<Rightarrow> error + call" where
  "appBuildCall h remixConfig options st =
     (case appCompiler st of
        None \<Rightarrow>
          (case createEsbuildConfig h App remixConfig options of
             Inl e \<Rightarrow> Inl e
           | Inr c \<Rightarrow> Inr (EsbuildBuild App
               (c\<lparr>metafileOption := Some True, incrementalOption := Some True\<rparr>)))
      | Some compiler \<Rightarrow> Inr (Rebuild App compiler))"

definition cssBuildCall :: "host \<Rightarrow> remixConfig \<Rightarrow> compileOptions \<Rightarrow> state \<Rightarrow> error + call" where
  "cssBuildCall h remixConfig options st =
     (case cssCompiler st of
        None \<Rightarrow>
          (case createEsbuildConfig h Css remixConfig options of
             Inl e \<Rightarrow> Inl e
           | Inr c \<Rightarrow> Inr (EsbuildBuild Css
               (c\<lparr>metafileOption := Some True, writeOption := Some False,
                  incrementalOption := Some True\<rparr>)))
      | Some compiler \<Rightarrow> Inr (Rebuild Css compiler))"

text \<open>
  The files that the bundler writes for the application target, on the disk.
\<close>

fun bundlerWrites ::
  "(string \<times> string) list \<Rightarrow> (string \<rightharpoonup> string) \<Rightarrow> (string \<rightharpoonup> string)" where
  "bundlerWrites [] d = d"
| "bundlerWrites ((p, c) # ws) d = bundlerWrites ws (d(p \<mapsto> c))"

definition appWritesBefore :: "compileEnv \<Rightarrow> (string \<times> string) list" where
  "appWritesBefore env = filter (\<lambda>(p, c). \<not> appWriteAfterCss env p) (appBuildWrites env)"

definition appWritesAfter :: "compileEnv \<Rightarrow> (string \<times> string) list" where
  "appWritesAfter env = filter (\<lambda>(p, c). appWriteAfterCss env p) (appBuildWrites env)"

text \<open>
  \<open>Promise.all\<close> on the two operations: both results when both succeed, the rejection
  otherwise, and the one that settles first when both reject.
\<close>

definition promiseAll :: "bool \<Rightarrow> error + 'a \<Rightarrow> error + 'b \<Rightarrow> error + 'a \<times> 'b" where
  "promiseAll secondFirst a b =
     (case a of
        Inl ea \<Rightarrow> (case b of Inl eb \<Rightarrow> Inl (if secondFirst then eb else ea) | Inr y \<Rightarrow> Inl ea)
      | Inr x \<Rightarrow> (case b of Inl eb \<Rightarrow> Inl eb | Inr y \<Rightarrow> Inr (x, y)))"

text \<open>
  The end of \<open>compile\<close>, after both handles are stored: the manifest is built, its
  reference is written to the channel, and the manifest writer is called with the same
  reference.
\<close>

definition publishManifest ::
  "host \<Rightarrow> remixConfig \<Rightarrow> compileEnv \<Rightarrow> string option \<Rightarrow> string option \<Rightarrow> state
     \<Rightarrow> (error + unit) \<times> state" where
  "publishManifest h remixConfig env mf cssBundlePath st =
     (let st1 = st\<lparr>log := log st @ [CreateAssetsManifest mf cssBundlePath]\<rparr>
      in case createAssetsManifestOutcome env mf cssBundlePath of
           Inl e \<Rightarrow> (Inl e, st1)
         | Inr manifest \<Rightarrow>
             (let ref = length (heap st1);
                  st2 = st1\<lparr>heap := heap st1 @ [manifest],
                            log := log st1 @ [ChannelWrite ref]\<rparr>
              in writeAssetsManifest h env remixConfig ref st2))"

text \<open>
  The stylesheet operation with its continuation, which runs only when the operation
  succeeds. In \<open>compile\<close> both operations are issued before either is awaited; the
  continuation of the stylesheet operation does not wait for the application build,
  and its writes are made whether or not that build fails.
\<close>

definition cssBuildPromise ::
  "host \<Rightarrow> remixConfig \<Rightarrow> compileEnv \<Rightarrow> state
     \<Rightarrow> (error + buildResult \<times> string option) \<times> state" where
  "cssBuildPromise h remixConfig env st =
     (case cssBuildOutcome env of
        Inl e \<Rightarrow> (Inl e, st)
      | Inr compiler \<Rightarrow> cssBuildThen (cssBundlePathPrefix h remixConfig) env compiler st)"

text \<open>
  The two operations once both are issued, until both have settled: the calls are
  logged, the bundler writes the files of the application target, and the stylesheet
  operation runs with its continuation. The result is that of the stylesheet operation
  with its continuation.
\<close>

definition settleBuilds ::
  "host \<Rightarrow> remixConfig \<Rightarrow> compileEnv \<Rightarrow> call \<Rightarrow> call \<Rightarrow> state
     \<Rightarrow> (error + buildResult \<times> string option) \<times> state" where
  "settleBuilds h remixConfig env appCall cssCall st =
     (case cssBuildPromise h remixConfig env
             (st\<lparr>log := log st @ [appCall, cssCall],
                 disk := bundlerWrites (appWritesBefore env) (disk st)\<rparr>) of
        (cssBuildResult, st1) \<Rightarrow>
          (cssBuildResult, st1\<lparr>disk := bundlerWrites (appWritesAfter env) (disk st1)\<rparr>))"

text \<open>
  \<open>compile\<close>. The configuration of a full build is computed when the operation is
  issued, the application operation first: when the configuration of the stylesheet
  build throws, the application operation is already running.
\<close>

definition compile ::
  "host \<Rightarrow> remixConfig \<Rightarrow> compileOptions \<Rightarrow> compileEnv \<Rightarrow> state \<Rightarrow> (error + unit) \<times> state" where
  "compile h remixConfig options env st =
     (case appBuildCall h remixConfig options st of
        Inl e \<Rightarrow> (Inl e, st)
      | Inr appCall \<Rightarrow>
          (case cssBuildCall h remixConfig options st of
             Inl e \<Rightarrow> (Inl e, st\<lparr>log := log st @ [appCall],
                               disk := bundlerWrites (appBuildWrites env) (disk st)\<rparr>)
           | Inr cssCall \<Rightarrow>
               (case settleBuilds h remixConfig env appCall cssCall st of
                  (cssBuildResult, st1) \<Rightarrow>
                    (case promiseAll (cssSettlesFirst env) (appBuildOutcome env) cssBuildResult of
                       Inl e \<Rightarrow> (Inl e, st1)
                     | Inr (appBuildResult, (compiler, cssBundlePath)) \<Rightarrow>
                         publishManifest h remixConfig env (metafile appBuildResult)
                           cssBundlePath
                           (st1\<lparr>appCompiler := Some appBuildResult,
                                cssCompiler := Some compiler\<rparr>)))))"

definition dispose :: "state \<Rightarrow> state" where
  "dispose st =
     (case appCompiler st of
        None \<Rightarrow> st
      | Some compiler \<Rightarrow> st\<lparr>log := log st @ [RebuildDispose compiler]\<rparr>)"

text \<open>A sequence of \<open>compile\<close> calls on one instance, one environment per call.\<close>

fun compileAll ::
  "host \<Rightarrow> remixConfig \<Rightarrow> compileOptions \<Rightarrow> compileEnv list \<Rightarrow> state \<Rightarrow> state" where
  "compileAll h remixConfig options [] st = st"
| "compileAll h remixConfig options (env # envs) st =
     compileAll h remixConfig options envs (snd (compile h remixConfig options env st))"

section \<open>The scoped-style plugin\<close>

definition pluginName :: string where
  "pluginName = ''css-modules-plugin''"

definition namespace :: string where
  "namespace = pluginName @ ''-ns''"

definition cssModulesFilter :: "string \<Rightarrow> bool" where
  "cssModulesFilter p = endsWith p ''.module.css''"

definition compiledCssQueryString :: string where
  "compiledCssQueryString = ''?css-modules-plugin-compiled-css''"

definition compiledCssFilter :: "string \<Rightarrow> bool" where
  "compiledCssFilter p = endsWith p ''?css-modules-plugin-compiled-css''"

record pluginData =
  resolveDir :: string
  compiledCss :: string

text \<open>
  The arguments the bundler gives a hook and what a hook returns. \<open>pluginData\<close> has
  type \<open>any\<close> in the source: it is absent unless an earlier hook returned one. The
  bundler runs a hook on the paths that its filter matches; the functions below are the
  callbacks of the four hooks.
\<close>

record hookArgs =
  argsPath :: string
  argsNamespace :: string
  argsResolveDir :: string
  argsKind :: string
  argsPluginData :: "pluginData option"

datatype loader = LoaderJs | LoaderCss

record onResolveResult =
  resolvedPath :: string
  resolvedNamespace :: "string option"
  resolvedPluginData :: "pluginData option"

record onLoadResult =
  loadedContents :: string
  loadedLoader :: loader
  loadedResolveDir :: "string option"
  loadedPluginData :: "pluginData option"

text \<open>
  The result of the style transform (the compiled CSS, the source map when one was
  requested and produced, and the name mapping handed to \<open>getJSON\<close>), and what the
  collaborators of the plugin answer: the bundler's resolver, the file read, and the
  style transform given the scoped-name template, whether a source map is requested,
  the file contents and the file path.
\<close>

record postcssResult =
  css :: string
  sourceMap :: "string option"
  json :: "(string \<times> string) list"

record pluginEnv =
  buildResolve :: "string \<Rightarrow> string \<Rightarrow> string \<Rightarrow> error + string"
  readFile :: "string \<Rightarrow> error + string"
  postcssProcess :: "string \<Rightarrow> bool \<Rightarrow> string \<Rightarrow> string \<Rightarrow> error + postcssResult"

definition generateScopedName :: "string \<Rightarrow> string" where
  "generateScopedName md =
     (if md = ''production'' then ''[hash:base64:5]'' else ''[name]__[local]__[hash:base64:5]'')"

definition onResolveCssModule :: "pluginEnv \<Rightarrow> hookArgs \<Rightarrow> error + onResolveResult" where
  "onResolveCssModule penv args =
     (case buildResolve penv (argsPath args) (argsResolveDir args) (argsKind args) of
        Inl e \<Rightarrow> Inl e
      | Inr p \<Rightarrow> Inr \<lparr> resolvedPath = p, resolvedNamespace = None, resolvedPluginData = None \<rparr>)"

definition onLoadCssModule ::
  "host \<Rightarrow> pluginEnv \<Rightarrow> compileOptions \<Rightarrow> hookArgs \<Rightarrow> error + onLoadResult" where
  "onLoadCssModule h penv options args =
     (let absolutePath = argsPath args;
          dir = path_dirname h absolutePath
      in case readFile penv absolutePath of
           Inl e \<Rightarrow> Inl e
         | Inr fileContents \<Rightarrow>
             (case postcssProcess penv (generateScopedName (mode options))
                     (mode options \<noteq> ''production'') fileContents absolutePath of
                Inl e \<Rightarrow> Inl e
              | Inr r \<Rightarrow>
                  (let compiled =
                         (case sourceMap r of
                            Some m \<Rightarrow> css r @ [CHR 0x0A]
                              @ ''/*# sourceMappingURL=data:application/json;base64,''
                              @ base64 h m @ '' */''
                          | None \<Rightarrow> css r);
                       text = join [CHR 0x0A]
                         [''import '' @ [CHR 0x22] @ ''./'' @ path_basename h absolutePath
                            @ compiledCssQueryString @ [CHR 0x22] @ '';'',
                          ''export default '' @ JSON_stringify_exports h (json r) @ '';'']
                   in Inr \<lparr> loadedContents = text, loadedLoader = LoaderJs,
                            loadedResolveDir = None,
                            loadedPluginData =
                              Some \<lparr> resolveDir = dir, compiledCss = compiled \<rparr> \<rparr>)))"

definition onResolveCompiledCss :: "host \<Rightarrow> hookArgs \<Rightarrow> onResolveResult" where
  "onResolveCompiledCss h args =
     (let absolutePath = path_resolve h (argsResolveDir args) (argsPath args)
      in \<lparr> resolvedPath = path_relative h (cwd h) absolutePath,
           resolvedNamespace = Some namespace,
           resolvedPluginData = argsPluginData args \<rparr>)"

definition onLoadCompiledCss :: "hookArgs \<Rightarrow> error + onLoadResult" where
  "onLoadCompiledCss args =
     (case argsPluginData args of
        None \<Rightarrow> Inl (Error ''TypeError: Cannot destructure property 'resolveDir' of 'pluginData' as it is undefined.'')
      | Some pd \<Rightarrow>
          Inr \<lparr> loadedContents = compiledCss pd, loadedLoader = LoaderCss,
                loadedResolveDir = Some (resolveDir pd), loadedPluginData = None \<rparr>)"

section \<open>Reading the log\<close>

text \<open>The calls issued between two states, and the references written to the channel.\<close>

definition issuedCalls :: "state \<Rightarrow> state \<Rightarrow> call list" where
  "issuedCalls st st' = drop (length (log st)) (log st')"

fun channelWrites :: "call list \<Rightarrow> nat list" where
  "channelWrites [] = []"
| "channelWrites (ChannelWrite r # cs) = r # channelWrites cs"
| "channelWrites (c # cs) = channelWrites cs"

fun isFullBuild :: "call \<Rightarrow> bool" where
  "isFullBuild (EsbuildBuild t c) = True"
| "isFullBuild c = False"

fun isManifestWrite :: "call \<Rightarrow> bool" where
  "isManifestWrite (WriteFileSafe p c) = True"
| "isManifestWrite c = False"

text \<open>The manifest object that a compile call allocates, as it is in the later state.\<close>

definition newManifest :: "state \<Rightarrow> state \<Rightarrow> assetsManifest" where
  "newManifest st st' = heap st' ! length (heap st)"

section \<open>Concrete instances\<close>

text \<open>
  A configuration with one route, a host with three builtin modules and the given
  dependency names, and collaborators that all succeed: the bundler writes the entry
  script of the application target, and the stylesheet build emits the bundle, its
  source map, the script of the entry and one asset. The \<open>toUpperCase\<close> of the example
  host puts the letters \<open>a\<close> to \<open>z\<close> in upper case, which is what the function does on
  the hexadecimal digits of a version.
\<close>

definition exampleToUpperCase :: "string \<Rightarrow> string" where
  "exampleToUpperCase s =
     map (\<lambda>c. let n = (of_char c :: nat) in if 97 \<le> n \<and> n \<le> 122 then char_of (n - 32) else c) s"

definition exampleConfig :: remixConfig where
  "exampleConfig =
     \<lparr> rootDirectory = ''/app'', appDirectory = ''/app/app'',
       entryClientFile = ''entry.client.tsx'',
       routes = [(''routes/index'', ''routes/index.tsx'')],
       assetsBuildDirectory = ''/build'', publicPath = ''/pub/'',
       tsconfigPath = None, devServerPort = 8002 \<rparr>"

definition exampleHost :: "string list \<Rightarrow> host" where
  "exampleHost deps =
     \<lparr> nodeBuiltins = [''fs'', ''path'', ''http''],
       getAppDependencies = (\<lambda>c. deps),
       path_join = (\<lambda>a b. a @ ''/'' @ b),
       path_resolve = (\<lambda>a b. a @ ''/'' @ b),
       path_relative = (\<lambda>a b. drop (length a + 1) b),
       path_dirname = (\<lambda>p. rev (tl (dropWhile (\<lambda>c. c \<noteq> CHR ''/'') (rev p)))),
       path_basename = (\<lambda>p. rev (takeWhile (\<lambda>c. c \<noteq> CHR ''/'') (rev p))),
       cwd = ''/app'',
       toUpperCase = exampleToUpperCase,
       JSON_stringify = (\<lambda>m. ''{v:'' @ version m @ '',u:''
           @ (case url m of None \<Rightarrow> ''-'' | Some u \<Rightarrow> u) @ '','' @ builderFields m @ ''}''),
       JSON_stringify_exports = (\<lambda>kvs. concat (map (\<lambda>(k, v). k @ '':'' @ v @ '','') kvs)),
       base64 = (\<lambda>s. s),
       cssBuildVirtualModuleId = ''css-build'' \<rparr>"

definition exampleOptions :: compileOptions where
  "exampleOptions = \<lparr> mode = ''production'', sourcemap = False \<rparr>"

definition exampleAppResult :: buildResult where
  "exampleAppResult = \<lparr> metafile = Some ''app-meta'', outputFiles = None \<rparr>"

definition exampleCssResult :: buildResult where
  "exampleCssResult =
     \<lparr> metafile = Some ''css-meta'',
       outputFiles = Some
         [\<lparr> path = ''/build/css-bundle-X7.css'', contents = ''.a{}'' \<rparr>,
          \<lparr> path = ''/build/css-bundle-X7.css.map'', contents = ''{}'' \<rparr>,
          \<lparr> path = ''/build/css-bundle-X7.js'', contents = ''//'' \<rparr>,
          \<lparr> path = ''/build/_assets/logo-A1.svg'', contents = ''<svg/>'' \<rparr>] \<rparr>"

definition exampleManifest :: assetsManifest where
  "exampleManifest = \<lparr> version = ''a1b2c3d4'', url = None, builderFields = ''entry'' \<rparr>"

definition exampleEnv :: compileEnv where
  "exampleEnv =
     \<lparr> appBuildOutcome = Inr exampleAppResult,
       appBuildWrites = [(''/build/entry.client-E5.js'', ''//entry'')],
       appWriteAfterCss = (\<lambda>p. False),
       cssBuildOutcome = Inr exampleCssResult,
       cssSettlesFirst = False,
       fsWriteFileOutcome = (\<lambda>p c. None),
       createAssetsManifestOutcome = (\<lambda>mf cbp. Inr exampleManifest),
       writeFileSafeOutcome = (\<lambda>p c. None) \<rparr>"

text \<open>The same collaborators, with an application build that fails and writes no file.\<close>

definition exampleFailedAppEnv :: compileEnv where
  "exampleFailedAppEnv =
     exampleEnv\<lparr>appBuildOutcome := Inl (Error ''Build failed''), appBuildWrites := []\<rparr>"

text \<open>The same collaborators, with a stylesheet build that emits no file.\<close>

definition exampleNoStylesheetEnv :: compileEnv where
  "exampleNoStylesheetEnv =
     exampleEnv\<lparr>cssBuildOutcome := Inr (exampleCssResult\<lparr>outputFiles := None\<rparr>)\<rparr>"


text \<open>The same collaborators, with a source map write that is rejected.\<close>

definition exampleRejectedWriteEnv :: compileEnv where
  "exampleRejectedWriteEnv =
     exampleEnv\<lparr>fsWriteFileOutcome :=
       (\<lambda>p c. if p = ''/build/css-bundle-X7.css.map'' then Some (Error ''ENOSPC'') else None)\<rparr>"


text \<open>
  Collaborators of the scoped-style plugin for one file with the class \<open>title\<close>: the
  style transform answers with one name for the template of production mode and with
  another for any other template. The arguments are those of the load of the file, of
  the resolution of the import of its compiled payload, and of the load of that payload.
\<close>

definition examplePluginEnv :: pluginEnv where
  "examplePluginEnv =
     \<lparr> buildResolve = (\<lambda>p dir kind. Inr (dir @ ''/'' @ p)),
       readFile = (\<lambda>p. Inr ''.title{color:red}''),
       postcssProcess = (\<lambda>template wantMap text from.
         Inr \<lparr> css = ''.'' @ (if template = ''[hash:base64:5]'' then ''Xy12Z''
                             else ''styles-module__title__Xy12Z'') @ ''{color:red}'',
               sourceMap = (if wantMap then Some ''{map}'' else None),
               json = [(''title'', (if template = ''[hash:base64:5]'' then ''Xy12Z''
                                    else ''styles-module__title__Xy12Z''))] \<rparr>) \<rparr>"

definition exampleLoadArgs :: hookArgs where
  "exampleLoadArgs =
     \<lparr> argsPath = ''/app/app/styles.module.css'', argsNamespace = ''file'',
       argsResolveDir = ''/app/app'', argsKind = ''import-statement'',
       argsPluginData = None \<rparr>"

definition exampleResolveArgs :: hookArgs where
  "exampleResolveArgs =
     \<lparr> argsPath = ''./styles.module.css?css-modules-plugin-compiled-css'',
       argsNamespace = ''file'', argsResolveDir = ''/app/app'',
       argsKind = ''import-statement'',
       argsPluginData = Some \<lparr> resolveDir = ''/app/app'',
                                compiledCss = ''.Xy12Z{color:red}'' \<rparr> \<rparr>"

definition exampleCompiledLoadArgs :: hookArgs where
  "exampleCompiledLoadArgs =
     \<lparr> argsPath = ''app/styles.module.css?css-modules-plugin-compiled-css'',
       argsNamespace = ''css-modules-plugin-ns'', argsResolveDir = [],
       argsKind = [],
       argsPluginData = Some \<lparr> resolveDir = ''/app/app'',
                                compiledCss = ''.Xy12Z{color:red}'' \<rparr> \<rparr>"

section \<open>External modules: fake builtins\<close>







section \<open>The steps of a compile call\<close>

lemma processOutputFiles_append:
  "processOutputFiles pre cbp (xs @ ys) =
     (case processOutputFiles pre cbp xs of
        (c1, w1) \<Rightarrow> (case processOutputFiles pre c1 ys of (c2, w2) \<Rightarrow> (c2, w1 @ w2)))"
  by (induction xs arbitrary: cbp) (simp_all add: case_prod_beta split: option.splits)

lemma processOutputFiles_writes:
  "snd (processOutputFiles pre cbp fs) =
     map (\<lambda>f. (path f, contents f))
       (filter (\<lambda>f. startsWith (path f) pre
                  \<and> (endsWith (path f) ''.css'' \<or> endsWith (path f) ''.css.map'')) fs)"
  by (induction fs arbitrary: cbp)
     (simp_all add: processOutputFile_def Let_def case_prod_beta)

lemma processOutputFiles_path:
  "fst (processOutputFiles pre cbp fs) =
     (case rev (filter (\<lambda>f. startsWith (path f) pre \<and> endsWith (path f) ''.css'') fs) of
        [] \<Rightarrow> cbp
      | f # _ \<Rightarrow> Some (path f))"
proof (induction fs arbitrary: cbp rule: rev_induct)
  case Nil
  then show ?case by simp
next
  case (snoc f fs)
  show ?case
    by (simp add: processOutputFiles_append processOutputFile_def Let_def snoc.IH case_prod_beta)
qed

lemma fsWriteFiles_snd_Cons:
  "snd (fsWriteFiles env ((q, d) # ws) dk) =
     snd (fsWriteFiles env ws (if fsWriteFileOutcome env q d = None then dk(q \<mapsto> d) else dk))"
  by (simp split: option.splits)

lemma fsWriteFiles_disk_other:
  "p \<notin> fst ` set ws \<Longrightarrow> snd (fsWriteFiles env ws dk) p = dk p"
proof (induction ws arbitrary: dk)
  case Nil
  then show ?case by simp
next
  case (Cons w ws)
  obtain q d where w: "w = (q, d)" by (cases w)
  from Cons.prems w have "p \<noteq> q" and "p \<notin> fst ` set ws" by auto
  then show ?case
    unfolding w fsWriteFiles_snd_Cons by (simp add: Cons.IH)
qed

lemma fsWriteFiles_disk_written:
  assumes "(p, c) \<in> set ws" and "fsWriteFileOutcome env p c = None"
    and "\<forall>c'. (p, c') \<in> set ws \<longrightarrow> c' = c"
  shows "snd (fsWriteFiles env ws dk) p = Some c"
  using assms
proof (induction ws arbitrary: dk)
  case Nil
  then show ?case by simp
next
  case (Cons w ws)
  obtain q d where w: "w = (q, d)" by (cases w)
  show ?case
  proof (cases "(p, c) \<in> set ws")
    case True
    moreover from Cons.prems(3) have "\<forall>c'. (p, c') \<in> set ws \<longrightarrow> c' = c" by simp
    ultimately have "snd (fsWriteFiles env ws dk') p = Some c" for dk'
      using Cons.IH Cons.prems(2) by blast
    then show ?thesis unfolding w fsWriteFiles_snd_Cons .
  next
    case False
    with Cons.prems(1) w have eq: "q = p" "d = c" by auto
    from False Cons.prems(3) have "p \<notin> fst ` set ws" by force
    then show ?thesis
      unfolding w fsWriteFiles_snd_Cons
      by (simp add: fsWriteFiles_disk_other eq Cons.prems(2))
  qed
qed

lemma fsWriteFiles_result:
  "fst (fsWriteFiles env ws dk) = None \<longleftrightarrow>
     (\<forall>w \<in> set ws. fsWriteFileOutcome env (fst w) (snd w) = None)"
proof (induction ws arbitrary: dk)
  case Nil
  then show ?case by simp
next
  case (Cons w ws)
  obtain q d where w: "w = (q, d)" by (cases w)
  show ?case
  proof (cases "fsWriteFileOutcome env q d")
    case None
    then show ?thesis using Cons.IH w by simp
  next
    case (Some e)
    then show ?thesis using w by simp
  qed
qed

lemma cssBuildThen_eq:
  "cssBuildThen pre env c st =
     ((case fst (fsWriteFiles env (snd (processOutputFiles pre None (emittedFiles c))) (disk st)) of
         Some e \<Rightarrow> Inl e
       | None \<Rightarrow> Inr (c, fst (processOutputFiles pre None (emittedFiles c)))),
      st\<lparr>log := log st @ map (\<lambda>(p, c). FsWriteFile p c)
              (snd (processOutputFiles pre None (emittedFiles c))),
         disk := snd (fsWriteFiles env (snd (processOutputFiles pre None (emittedFiles c))) (disk st))\<rparr>)"
  by (simp add: cssBuildThen_def Let_def case_prod_beta split: option.splits)

lemma cssBuildPromise_fields:
  "appCompiler (snd (cssBuildPromise h cfg env st)) = appCompiler st"
  "cssCompiler (snd (cssBuildPromise h cfg env st)) = cssCompiler st"
  "heap (snd (cssBuildPromise h cfg env st)) = heap st"
  by (simp_all add: cssBuildPromise_def cssBuildThen_eq split: sum.splits)

lemma cssBuildPromise_log:
  "log (snd (cssBuildPromise h cfg env st)) =
     log st @ (case cssBuildOutcome env of
                 Inl e \<Rightarrow> []
               | Inr c \<Rightarrow> map (\<lambda>(p, c). FsWriteFile p c)
                   (snd (processOutputFiles (cssBundlePathPrefix h cfg) None
                      (emittedFiles c))))"
  by (simp add: cssBuildPromise_def cssBuildThen_eq split: sum.splits)

lemma cssBuildPromise_disk_other:
  assumes "\<not> (startsWith p (cssBundlePathPrefix h cfg)
              \<and> (endsWith p ''.css'' \<or> endsWith p ''.css.map''))"
  shows "disk (snd (cssBuildPromise h cfg env st)) p = disk st p"
proof (cases "cssBuildOutcome env")
  case (Inl e)
  then show ?thesis by (simp add: cssBuildPromise_def)
next
  case (Inr c)
  have "p \<notin> fst ` set (snd (processOutputFiles (cssBundlePathPrefix h cfg) None (emittedFiles c)))"
    using assms by (auto simp: processOutputFiles_writes)
  then show ?thesis
    using Inr by (simp add: cssBuildPromise_def cssBuildThen_eq fsWriteFiles_disk_other)
qed

lemma cssBuildPromise_result:
  assumes "fst (cssBuildPromise h cfg env st) = Inr (c, cbp)"
  shows "cssBuildOutcome env = Inr c
    \<and> cbp = fst (processOutputFiles (cssBundlePathPrefix h cfg) None (emittedFiles c))"
  using assms
  by (auto simp: cssBuildPromise_def cssBuildThen_eq split: sum.splits option.splits)

lemma cssBuildPromise_settled:
  assumes "cssBuildOutcome env = Inr c"
  shows "fst (cssBuildPromise h cfg env st) =
     (case fst (fsWriteFiles env
                  (snd (processOutputFiles (cssBundlePathPrefix h cfg) None (emittedFiles c)))
                  (disk st)) of
        Some e \<Rightarrow> Inl e
      | None \<Rightarrow> Inr (c, fst (processOutputFiles (cssBundlePathPrefix h cfg) None (emittedFiles c))))"
  using assms by (simp add: cssBuildPromise_def cssBuildThen_eq)

lemma bundlerWrites_other:
  "p \<notin> fst ` set ws \<Longrightarrow> bundlerWrites ws d p = d p"
proof (induction ws arbitrary: d)
  case Nil
  then show ?case by simp
next
  case (Cons w ws)
  obtain q x where w: "w = (q, x)" by (cases w)
  from Cons.prems w have n: "p \<noteq> q" and m: "p \<notin> fst ` set ws" by auto
  have "bundlerWrites (w # ws) d p = bundlerWrites ws (d(q \<mapsto> x)) p"
    by (simp add: w)
  also have "\<dots> = (d(q \<mapsto> x)) p"
    by (rule Cons.IH [OF m])
  also have "\<dots> = d p"
    using n by simp
  finally show ?case .
qed

lemma appWrites_paths:
  "p \<notin> fst ` set (appBuildWrites env) \<Longrightarrow> p \<notin> fst ` set (appWritesBefore env)"
  "p \<notin> fst ` set (appBuildWrites env) \<Longrightarrow> p \<notin> fst ` set (appWritesAfter env)"
  by (auto simp: appWritesBefore_def appWritesAfter_def)

lemma settleBuilds_eq:
  "settleBuilds h cfg env ac cc st =
     (fst (cssBuildPromise h cfg env
             (st\<lparr>log := log st @ [ac, cc],
                 disk := bundlerWrites (appWritesBefore env) (disk st)\<rparr>)),
      (snd (cssBuildPromise h cfg env
              (st\<lparr>log := log st @ [ac, cc],
                  disk := bundlerWrites (appWritesBefore env) (disk st)\<rparr>)))
        \<lparr>disk := bundlerWrites (appWritesAfter env)
           (disk (snd (cssBuildPromise h cfg env
              (st\<lparr>log := log st @ [ac, cc],
                  disk := bundlerWrites (appWritesBefore env) (disk st)\<rparr>))))\<rparr>)"
  by (simp add: settleBuilds_def case_prod_beta)

lemma settleBuilds_fields:
  "appCompiler (snd (settleBuilds h cfg env ac cc st)) = appCompiler st"
  "cssCompiler (snd (settleBuilds h cfg env ac cc st)) = cssCompiler st"
  "heap (snd (settleBuilds h cfg env ac cc st)) = heap st"
  by (simp_all add: settleBuilds_eq cssBuildPromise_fields)

lemma settleBuilds_log:
  "log (snd (settleBuilds h cfg env ac cc st)) =
     log st @ [ac, cc] @ (case cssBuildOutcome env of
                 Inl e \<Rightarrow> []
               | Inr c \<Rightarrow> map (\<lambda>(p, c). FsWriteFile p c)
                   (snd (processOutputFiles (cssBundlePathPrefix h cfg) None
                      (emittedFiles c))))"
  by (simp add: settleBuilds_eq cssBuildPromise_log)

lemma settleBuilds_result:
  assumes "fst (settleBuilds h cfg env ac cc st) = Inr (c, cbp)"
  shows "cssBuildOutcome env = Inr c
    \<and> cbp = fst (processOutputFiles (cssBundlePathPrefix h cfg) None (emittedFiles c))"
  using assms by (simp add: settleBuilds_eq cssBuildPromise_result)

lemma settleBuilds_disk_other:
  assumes "p \<notin> fst ` set (appBuildWrites env)"
    and "\<not> (startsWith p (cssBundlePathPrefix h cfg)
              \<and> (endsWith p ''.css'' \<or> endsWith p ''.css.map''))"
  shows "disk (snd (settleBuilds h cfg env ac cc st)) p = disk st p"
  using assms
  by (simp add: settleBuilds_eq bundlerWrites_other appWrites_paths cssBuildPromise_disk_other)

lemma promiseAll_Inr:
  "promiseAll b x y = Inr (u, v) \<longleftrightarrow> x = Inr u \<and> y = Inr v"
  by (auto simp: promiseAll_def split: sum.splits)

lemma promiseAll_Inl:
  "promiseAll b x y = Inl e \<Longrightarrow> x = Inl e \<or> y = Inl e"
  by (auto simp: promiseAll_def split: sum.splits if_splits)

lemma compile_cases:
  assumes "compile h cfg opts env st = (r, st')"
  obtains
    (appConfig) e where "appBuildCall h cfg opts st = Inl e" "r = Inl e" "st' = st"
  | (cssConfig) ac e where "appBuildCall h cfg opts st = Inr ac"
      "cssBuildCall h cfg opts st = Inl e" "r = Inl e"
      "st' = st\<lparr>log := log st @ [ac], disk := bundlerWrites (appBuildWrites env) (disk st)\<rparr>"
  | (fanInFailed) ac cc e where "appBuildCall h cfg opts st = Inr ac"
      "cssBuildCall h cfg opts st = Inr cc"
      "promiseAll (cssSettlesFirst env) (appBuildOutcome env)
         (fst (settleBuilds h cfg env ac cc st)) = Inl e"
      "r = Inl e" "st' = snd (settleBuilds h cfg env ac cc st)"
  | (fanInOk) ac cc a c cbp where "appBuildCall h cfg opts st = Inr ac"
      "cssBuildCall h cfg opts st = Inr cc"
      "appBuildOutcome env = Inr a"
      "fst (settleBuilds h cfg env ac cc st) = Inr (c, cbp)"
      "(r, st') = publishManifest h cfg env (metafile a) cbp
         ((snd (settleBuilds h cfg env ac cc st))
            \<lparr>appCompiler := Some a, cssCompiler := Some c\<rparr>)"
proof (cases "appBuildCall h cfg opts st")
  case (Inl e)
  with assms have "r = Inl e" "st' = st"
    by (simp_all add: compile_def)
  with Inl appConfig show ?thesis by blast
next
  case ac: (Inr ac)
  show ?thesis
  proof (cases "cssBuildCall h cfg opts st")
    case (Inl e)
    with assms ac have "r = Inl e"
      "st' = st\<lparr>log := log st @ [ac], disk := bundlerWrites (appBuildWrites env) (disk st)\<rparr>"
      by (simp_all add: compile_def)
    with ac Inl cssConfig show ?thesis by blast
  next
    case cc: (Inr cc)
    show ?thesis
    proof (cases "promiseAll (cssSettlesFirst env) (appBuildOutcome env)
         (fst (settleBuilds h cfg env ac cc st))")
      case (Inl e)
      with assms ac cc have "r = Inl e"
        "st' = snd (settleBuilds h cfg env ac cc st)"
        by (simp_all add: compile_def case_prod_beta)
      with ac cc Inl fanInFailed show ?thesis by blast
    next
      case (Inr x)
      obtain a c cbp where x: "x = (a, (c, cbp))" by (cases x) auto
      from Inr x have o: "appBuildOutcome env = Inr a"
        "fst (settleBuilds h cfg env ac cc st) = Inr (c, cbp)"
        by (simp_all add: promiseAll_Inr)
      from assms ac cc Inr x have "(r, st') = publishManifest h cfg env (metafile a) cbp
         ((snd (settleBuilds h cfg env ac cc st))
            \<lparr>appCompiler := Some a, cssCompiler := Some c\<rparr>)"
        by (simp add: compile_def case_prod_beta)
      with ac cc o fanInOk show ?thesis by blast
    qed
  qed
qed

lemma publishManifest_eq:
  "publishManifest h cfg env mf cbp st =
     (case createAssetsManifestOutcome env mf cbp of
        Inl e \<Rightarrow> (Inl e, st\<lparr>log := log st @ [CreateAssetsManifest mf cbp]\<rparr>)
      | Inr m \<Rightarrow>
          (case writeFileSafeOutcome env
                  (path_join h (assetsBuildDirectory cfg) (manifestFilename h m))
                  (''window.__remixManifest=''
                     @ JSON_stringify h (m\<lparr>url := Some (publicPath cfg @ manifestFilename h m)\<rparr>)
                     @ '';'') of
             Some e \<Rightarrow>
               (Inl e,
                st\<lparr>heap := heap st @ [m\<lparr>url := Some (publicPath cfg @ manifestFilename h m)\<rparr>],
                   log := log st @
                     [CreateAssetsManifest mf cbp, ChannelWrite (length (heap st)),
                      WriteFileSafe (path_join h (assetsBuildDirectory cfg) (manifestFilename h m))
                        (''window.__remixManifest=''
                           @ JSON_stringify h
                               (m\<lparr>url := Some (publicPath cfg @ manifestFilename h m)\<rparr>)
                           @ '';'')]\<rparr>)
           | None \<Rightarrow>
               (Inr (),
                st\<lparr>heap := heap st @ [m\<lparr>url := Some (publicPath cfg @ manifestFilename h m)\<rparr>],
                   log := log st @
                     [CreateAssetsManifest mf cbp, ChannelWrite (length (heap st)),
                      WriteFileSafe (path_join h (assetsBuildDirectory cfg) (manifestFilename h m))
                        (''window.__remixManifest=''
                           @ JSON_stringify h
                               (m\<lparr>url := Some (publicPath cfg @ manifestFilename h m)\<rparr>)
                           @ '';'')],
                   disk := (disk st)
                     (path_join h (assetsBuildDirectory cfg) (manifestFilename h m) \<mapsto>
                      ''window.__remixManifest=''
                        @ JSON_stringify h
                            (m\<lparr>url := Some (publicPath cfg @ manifestFilename h m)\<rparr>)
                        @ '';'')\<rparr>)))"
  by (simp add: publishManifest_def writeAssetsManifest_def Let_def manifestFilename_def
      split: sum.splits option.splits)

lemma issuedCalls_append: "log st' = log st @ xs \<Longrightarrow> issuedCalls st st' = xs"
  by (simp add: issuedCalls_def)

lemma issuedCalls_cssBuildThen:
  "issuedCalls st (snd (cssBuildThen pre env c st)) =
     map (\<lambda>(p, c). FsWriteFile p c) (snd (processOutputFiles pre None (emittedFiles c)))"
  by (rule issuedCalls_append) (simp add: cssBuildThen_eq)

lemma written_file_in_writes:
  assumes "f \<in> set fs" and "startsWith (path f) pre"
    and "endsWith (path f) ''.css'' \<or> endsWith (path f) ''.css.map''"
  shows "(path f, contents f) \<in> set (snd (processOutputFiles pre cbp fs))"
  using assms unfolding processOutputFiles_writes by auto

lemma writes_same_path:
  assumes "(p, x) \<in> set (snd (processOutputFiles pre cbp fs))"
  shows "\<exists>g \<in> set fs. path g = p \<and> contents g = x \<and> startsWith p pre
     \<and> (endsWith p ''.css'' \<or> endsWith p ''.css.map'')"
  using assms unfolding processOutputFiles_writes by auto

lemma cssBuildThen_file_written:
  assumes "f \<in> set (emittedFiles c)" and "startsWith (path f) pre"
    and "endsWith (path f) ''.css'' \<or> endsWith (path f) ''.css.map''"
  shows "FsWriteFile (path f) (contents f) \<in> set (issuedCalls st (snd (cssBuildThen pre env c st)))"
    and "fsWriteFileOutcome env (path f) (contents f) = None \<Longrightarrow>
         \<forall>g \<in> set (emittedFiles c). path g = path f \<longrightarrow> contents g = contents f \<Longrightarrow>
         disk (snd (cssBuildThen pre env c st)) (path f) = Some (contents f)"
proof -
  let ?ws = "snd (processOutputFiles pre None (emittedFiles c))"
  have m: "(path f, contents f) \<in> set ?ws"
    using assms by (rule written_file_in_writes)
  then have "(\<lambda>(p, c). FsWriteFile p c) (path f, contents f) \<in> (\<lambda>(p, c). FsWriteFile p c) ` set ?ws"
    by (rule imageI)
  then show "FsWriteFile (path f) (contents f) \<in> set (issuedCalls st (snd (cssBuildThen pre env c st)))"
    by (simp add: issuedCalls_cssBuildThen)
  assume ok: "fsWriteFileOutcome env (path f) (contents f) = None"
    and same: "\<forall>g \<in> set (emittedFiles c). path g = path f \<longrightarrow> contents g = contents f"
  have "\<forall>c'. (path f, c') \<in> set ?ws \<longrightarrow> c' = contents f"
    using same writes_same_path by blast
  with m ok have "snd (fsWriteFiles env ?ws (disk st)) (path f) = Some (contents f)"
    by (rule fsWriteFiles_disk_written)
  then show "disk (snd (cssBuildThen pre env c st)) (path f) = Some (contents f)"
    by (simp add: cssBuildThen_eq)
qed

lemma only_stylesheet_resolved:
  assumes "f \<in> set fs" and "startsWith (path f) pre" and "endsWith (path f) ''.css''"
    and "\<forall>g \<in> set fs. startsWith (path g) pre \<and> endsWith (path g) ''.css'' \<longrightarrow> path g = path f"
  shows "fst (processOutputFiles pre cbp fs) = Some (path f)"
proof -
  let ?cs = "filter (\<lambda>f. startsWith (path f) pre \<and> endsWith (path f) ''.css'') fs"
  from assms(1-3) have "f \<in> set ?cs" by simp
  then have "?cs \<noteq> []" by (metis empty_iff empty_set)
  then have ne: "rev ?cs \<noteq> []" by simp
  then obtain g gs where g: "rev ?cs = g # gs" by (cases "rev ?cs") auto
  then have "g \<in> set (rev ?cs)" by simp
  then have "g \<in> set fs" "startsWith (path g) pre \<and> endsWith (path g) ''.css''" by auto
  with assms(4) have "path g = path f" by blast
  with g show ?thesis by (simp add: processOutputFiles_path)
qed

lemma no_stylesheet_resolved:
  assumes "\<forall>g \<in> set fs. \<not> (startsWith (path g) pre \<and> endsWith (path g) ''.css'')"
  shows "fst (processOutputFiles pre None fs) = None"
proof -
  from assms have "filter (\<lambda>f. startsWith (path f) pre \<and> endsWith (path f) ''.css'') fs = []"
    by (simp add: filter_empty_conv)
  then show ?thesis by (simp add: processOutputFiles_path)
qed

lemma appBuildCall_shape:
  assumes "appBuildCall h cfg opts st = Inr ac"
  shows "(appCompiler st = None \<and>
           (\<exists>c. createEsbuildConfig h App cfg opts = Inr c \<and>
                ac = EsbuildBuild App (c\<lparr>metafileOption := Some True, incrementalOption := Some True\<rparr>)))
       \<or> (\<exists>hd. appCompiler st = Some hd \<and> ac = Rebuild App hd)"
  using assms by (auto simp: appBuildCall_def split: option.splits sum.splits)

lemma cssBuildCall_shape:
  assumes "cssBuildCall h cfg opts st = Inr cc"
  shows "(cssCompiler st = None \<and>
           (\<exists>c. createEsbuildConfig h Css cfg opts = Inr c \<and>
                cc = EsbuildBuild Css (c\<lparr>metafileOption := Some True, writeOption := Some False,
                                          incrementalOption := Some True\<rparr>)))
       \<or> (\<exists>hd. cssCompiler st = Some hd \<and> cc = Rebuild Css hd)"
  using assms by (auto simp: cssBuildCall_def split: option.splits sum.splits)

lemma build_calls_issued:
  assumes "getExternals h cfg = Inr ext \<or> (appCompiler st \<noteq> None \<and> cssCompiler st \<noteq> None)"
  shows "\<exists>ac bc. appBuildCall h cfg opts st = Inr ac \<and> cssBuildCall h cfg opts st = Inr bc"
  using assms
  by (auto simp: appBuildCall_def cssBuildCall_def createEsbuildConfig_def Let_def
      split: option.splits)

lemma publishManifest_log:
  "log (snd (publishManifest h cfg env mf cbp st)) =
     log st @ CreateAssetsManifest mf cbp #
       (case createAssetsManifestOutcome env mf cbp of
          Inl e \<Rightarrow> []
        | Inr m \<Rightarrow>
            [ChannelWrite (length (heap st)),
             WriteFileSafe (path_join h (assetsBuildDirectory cfg) (manifestFilename h m))
               (''window.__remixManifest=''
                  @ JSON_stringify h (m\<lparr>url := Some (publicPath cfg @ manifestFilename h m)\<rparr>)
                  @ '';'')])"
  by (simp add: publishManifest_eq split: sum.splits option.splits)

lemma publishManifest_handles:
  "appCompiler (snd (publishManifest h cfg env mf cbp st)) = appCompiler st"
  "cssCompiler (snd (publishManifest h cfg env mf cbp st)) = cssCompiler st"
  by (simp_all add: publishManifest_eq split: sum.splits option.splits)

lemma fanInFailed_issued:
  assumes "st' = snd (settleBuilds h cfg env ac cc st)"
  shows "issuedCalls st st' =
        [ac, cc] @ (case cssBuildOutcome env of
                 Inl e \<Rightarrow> []
               | Inr c \<Rightarrow> map (\<lambda>(p, c). FsWriteFile p c)
                   (snd (processOutputFiles (cssBundlePathPrefix h cfg) None (emittedFiles c))))"
  using assms by (simp add: issuedCalls_def settleBuilds_log)

lemma fanInOk_issued:
  assumes "fst (settleBuilds h cfg env ac cc st) = Inr (c, cbp)"
    and "(r, st') = publishManifest h cfg env mf cbp
         ((snd (settleBuilds h cfg env ac cc st))
            \<lparr>appCompiler := Some a, cssCompiler := Some c\<rparr>)"
  shows "issuedCalls st st' =
        [ac, cc] @ map (\<lambda>(p, c). FsWriteFile p c)
                   (snd (processOutputFiles (cssBundlePathPrefix h cfg) None (emittedFiles c)))
        @ CreateAssetsManifest mf cbp #
       (case createAssetsManifestOutcome env mf cbp of
          Inl e \<Rightarrow> []
        | Inr m \<Rightarrow>
            [ChannelWrite (length (heap st)),
             WriteFileSafe (path_join h (assetsBuildDirectory cfg) (manifestFilename h m))
               (''window.__remixManifest=''
                  @ JSON_stringify h (m\<lparr>url := Some (publicPath cfg @ manifestFilename h m)\<rparr>)
                  @ '';'')])"
proof -
  note res = settleBuilds_result [OF assms(1)]
  from assms(2) have "st' = snd (publishManifest h cfg env mf cbp
         ((snd (settleBuilds h cfg env ac cc st))
            \<lparr>appCompiler := Some a, cssCompiler := Some c\<rparr>))"
    by (metis snd_conv)
  then show ?thesis
    using res by (simp add: issuedCalls_def publishManifest_log settleBuilds_log
        settleBuilds_fields split: sum.splits)
qed

lemma compile_manifest_call:
  assumes "CreateAssetsManifest mf x \<in> set (issuedCalls st (snd (compile h cfg opts env st)))"
  shows "\<exists>a c. appBuildOutcome env = Inr a \<and> cssBuildOutcome env = Inr c \<and> mf = metafile a
     \<and> x = fst (processOutputFiles (cssBundlePathPrefix h cfg) None (emittedFiles c))"
proof -
  obtain r st' where c: "compile h cfg opts env st = (r, st')"
    by (cases "compile h cfg opts env st")
  with assms have m: "CreateAssetsManifest mf x \<in> set (issuedCalls st st')" by simp
  from c show ?thesis
  proof (cases rule: compile_cases)
    case (appConfig e)
    with m show ?thesis by (simp add: issuedCalls_def)
  next
    case (cssConfig ac e)
    from cssConfig(4) have "issuedCalls st st' = [ac]" by (simp add: issuedCalls_def)
    with m appBuildCall_shape [OF cssConfig(1)] show ?thesis by auto
  next
    case (fanInFailed ac cc e)
    from m appBuildCall_shape [OF fanInFailed(1)] cssBuildCall_shape [OF fanInFailed(2)]
    show ?thesis
      unfolding fanInFailed_issued [OF fanInFailed(5)] by (auto split: sum.splits)
  next
    case (fanInOk ac cc a c cbp)
    note res = settleBuilds_result [OF fanInOk(4)]
    from m appBuildCall_shape [OF fanInOk(1)] cssBuildCall_shape [OF fanInOk(2)] res fanInOk(3)
    show ?thesis
      unfolding fanInOk_issued [OF fanInOk(4) fanInOk(5)] by (auto split: sum.splits)
  qed
qed

lemma compile_ok_manifest_call:
  assumes "fst (compile h cfg opts env st) = Inr ()"
  shows "\<exists>a c. appBuildOutcome env = Inr a \<and> cssBuildOutcome env = Inr c
     \<and> CreateAssetsManifest (metafile a)
          (fst (processOutputFiles (cssBundlePathPrefix h cfg) None (emittedFiles c)))
          \<in> set (issuedCalls st (snd (compile h cfg opts env st)))"
proof -
  obtain r st' where c: "compile h cfg opts env st = (r, st')"
    by (cases "compile h cfg opts env st")
  with assms have r: "r = Inr ()" by simp
  from c show ?thesis
  proof (cases rule: compile_cases)
    case (fanInOk ac cc a c cbp)
    note res = settleBuilds_result [OF fanInOk(4)]
    have "CreateAssetsManifest (metafile a) cbp \<in> set (issuedCalls st st')"
      unfolding fanInOk_issued [OF fanInOk(4) fanInOk(5)] by simp
    with res fanInOk(3) c show ?thesis by auto
  qed (use r in simp_all)
qed

text \<open>The calls of a compile call that has issued its two operations.\<close>

lemma compile_issued_shape:
  assumes "appBuildCall h cfg opts st = Inr ac" and "cssBuildCall h cfg opts st = Inr cc"
  shows "\<exists>rest. issuedCalls st (snd (compile h cfg opts env st)) =
       [ac, cc] @ (case cssBuildOutcome env of
                     Inl e \<Rightarrow> []
                   | Inr c \<Rightarrow> map (\<lambda>(p, c). FsWriteFile p c)
                       (snd (processOutputFiles (cssBundlePathPrefix h cfg) None
                          (emittedFiles c)))) @ rest
     \<and> (\<forall>p x. FsWriteFile p x \<notin> set rest) \<and> filter isFullBuild rest = []"
proof -
  let ?r = "fst (compile h cfg opts env st)"
  let ?st' = "snd (compile h cfg opts env st)"
  let ?W = "case cssBuildOutcome env of
              Inl e \<Rightarrow> []
            | Inr c \<Rightarrow> map (\<lambda>(p, c). FsWriteFile p c)
                (snd (processOutputFiles (cssBundlePathPrefix h cfg) None (emittedFiles c)))"
  have c: "compile h cfg opts env st = (?r, ?st')" by simp
  from c show ?thesis
  proof (cases rule: compile_cases)
    case (appConfig e)
    with assms show ?thesis by simp
  next
    case (cssConfig ac' e)
    with assms show ?thesis by simp
  next
    case (fanInFailed ac' cc' e)
    with assms have eq: "ac' = ac" "cc' = cc" by simp_all
    from fanInFailed_issued [OF fanInFailed(5)] eq
    have "issuedCalls st ?st' = [ac, cc] @ ?W @ []" by simp
    then show ?thesis by (intro exI [of _ "[]"]) simp
  next
    case (fanInOk ac' cc' a c' cbp)
    with assms have eq: "ac' = ac" "cc' = cc" by simp_all
    note res = settleBuilds_result [OF fanInOk(4)]
    let ?rest = "CreateAssetsManifest (metafile a) cbp #
       (case createAssetsManifestOutcome env (metafile a) cbp of
          Inl e \<Rightarrow> []
        | Inr m \<Rightarrow>
            [ChannelWrite (length (heap st)),
             WriteFileSafe (path_join h (assetsBuildDirectory cfg) (manifestFilename h m))
               (''window.__remixManifest=''
                  @ JSON_stringify h (m\<lparr>url := Some (publicPath cfg @ manifestFilename h m)\<rparr>)
                  @ '';'')])"
    from fanInOk_issued [OF fanInOk(4) fanInOk(5)] eq res
    have "issuedCalls st ?st' = [ac, cc] @ ?W @ ?rest" by simp
    moreover have "\<forall>p x. FsWriteFile p x \<notin> set ?rest"
      by (simp split: sum.splits)
    moreover have "filter isFullBuild ?rest = []"
      by (simp split: sum.splits)
    ultimately show ?thesis by blast
  qed
qed

lemma build_call_not_fsWrite:
  assumes "appBuildCall h cfg opts st = Inr ac" and "cssBuildCall h cfg opts st = Inr cc"
  shows "FsWriteFile p x \<noteq> ac" and "FsWriteFile p x \<noteq> cc"
  using appBuildCall_shape [OF assms(1)] cssBuildCall_shape [OF assms(2)] by auto

lemma compile_fsWrite_iff:
  assumes "appBuildCall h cfg opts st = Inr ac" and "cssBuildCall h cfg opts st = Inr cc"
  shows "FsWriteFile p x \<in> set (issuedCalls st (snd (compile h cfg opts env st))) \<longleftrightarrow>
     (\<exists>c. cssBuildOutcome env = Inr c
        \<and> (p, x) \<in> set (snd (processOutputFiles (cssBundlePathPrefix h cfg) None (emittedFiles c))))"
proof -
  from compile_issued_shape [OF assms, of env] obtain rest where
    i: "issuedCalls st (snd (compile h cfg opts env st)) =
       [ac, cc] @ (case cssBuildOutcome env of
                     Inl e \<Rightarrow> []
                   | Inr c \<Rightarrow> map (\<lambda>(p, c). FsWriteFile p c)
                       (snd (processOutputFiles (cssBundlePathPrefix h cfg) None
                          (emittedFiles c)))) @ rest"
    and n: "\<forall>p x. FsWriteFile p x \<notin> set rest"
    by blast
  note b = build_call_not_fsWrite [OF assms, of p x]
  show ?thesis
  proof (cases "cssBuildOutcome env")
    case (Inl e)
    with i n b show ?thesis by auto
  next
    case (Inr c)
    have "FsWriteFile p x \<in> (\<lambda>(p, c). FsWriteFile p c) ` set ws \<longleftrightarrow> (p, x) \<in> set ws" for ws
      by auto
    with i n b Inr show ?thesis by simp
  qed
qed

lemma compile_fsWrite_only:
  assumes "FsWriteFile p x \<in> set (issuedCalls st (snd (compile h cfg opts env st)))"
  shows "\<exists>c. cssBuildOutcome env = Inr c
        \<and> (p, x) \<in> set (snd (processOutputFiles (cssBundlePathPrefix h cfg) None (emittedFiles c)))"
proof -
  let ?r = "fst (compile h cfg opts env st)"
  let ?st' = "snd (compile h cfg opts env st)"
  have c: "compile h cfg opts env st = (?r, ?st')" by simp
  from c show ?thesis
  proof (cases rule: compile_cases)
    case (appConfig e)
    have "issuedCalls st ?st' = []"
      unfolding appConfig(3) by (simp add: issuedCalls_def)
    with assms show ?thesis by simp
  next
    case (cssConfig ac e)
    have "issuedCalls st ?st' = [ac]"
      unfolding cssConfig(4) by (simp add: issuedCalls_def)
    with assms appBuildCall_shape [OF cssConfig(1)] show ?thesis by auto
  next
    case (fanInFailed ac cc e)
    from assms show ?thesis
      unfolding compile_fsWrite_iff [OF fanInFailed(1,2)] .
  next
    case (fanInOk ac cc a c cbp)
    from assms show ?thesis
      unfolding compile_fsWrite_iff [OF fanInOk(1,2)] .
  qed
qed

lemma settleBuilds_disk_written:
  assumes "cssBuildOutcome env = Inr c"
    and "f \<in> set (emittedFiles c)" and "startsWith (path f) (cssBundlePathPrefix h cfg)"
    and "endsWith (path f) ''.css'' \<or> endsWith (path f) ''.css.map''"
    and "fsWriteFileOutcome env (path f) (contents f) = None"
    and "\<forall>g \<in> set (emittedFiles c). path g = path f \<longrightarrow> contents g = contents f"
    and "path f \<notin> fst ` set (appBuildWrites env)"
  shows "disk (snd (settleBuilds h cfg env ac cc st)) (path f) = Some (contents f)"
proof -
  let ?st0 = "st\<lparr>log := log st @ [ac, cc],
                 disk := bundlerWrites (appWritesBefore env) (disk st)\<rparr>"
  have "disk (snd (cssBuildThen (cssBundlePathPrefix h cfg) env c ?st0)) (path f)
      = Some (contents f)"
    by (rule cssBuildThen_file_written(2) [OF assms(2-6)])
  then have "disk (snd (cssBuildPromise h cfg env ?st0)) (path f) = Some (contents f)"
    by (simp add: cssBuildPromise_def assms(1))
  then show ?thesis
    by (simp add: settleBuilds_eq bundlerWrites_other appWrites_paths(2) [OF assms(7)])
qed

lemma compile_disk_written:
  assumes ac: "appBuildCall h cfg opts st = Inr ac" and cc: "cssBuildCall h cfg opts st = Inr cc"
    and c: "cssBuildOutcome env = Inr c"
    and f: "f \<in> set (emittedFiles c)" and s1: "startsWith (path f) (cssBundlePathPrefix h cfg)"
    and s3: "endsWith (path f) ''.css'' \<or> endsWith (path f) ''.css.map''"
    and ok: "fsWriteFileOutcome env (path f) (contents f) = None"
    and same: "\<forall>g \<in> set (emittedFiles c). path g = path f \<longrightarrow> contents g = contents f"
    and nb: "path f \<notin> fst ` set (appBuildWrites env)"
    and nm: "\<forall>x. WriteFileSafe (path f) x
               \<notin> set (issuedCalls st (snd (compile h cfg opts env st)))"
  shows "disk (snd (compile h cfg opts env st)) (path f) = Some (contents f)"
proof -
  let ?r = "fst (compile h cfg opts env st)"
  let ?st' = "snd (compile h cfg opts env st)"
  have sb: "disk (snd (settleBuilds h cfg env ac' cc' st)) (path f) = Some (contents f)"
    for ac' cc'
    by (rule settleBuilds_disk_written [OF c f s1 s3 ok same nb])
  have cmp: "compile h cfg opts env st = (?r, ?st')" by simp
  from cmp show ?thesis
  proof (cases rule: compile_cases)
    case (appConfig e)
    with ac show ?thesis by simp
  next
    case (cssConfig ac' e)
    with cc show ?thesis by simp
  next
    case (fanInFailed ac' cc' e)
    show ?thesis
      unfolding fanInFailed(5) by (rule sb)
  next
    case (fanInOk ac' cc' a c' cbp)
    let ?st3 = "(snd (settleBuilds h cfg env ac' cc' st))
            \<lparr>appCompiler := Some a, cssCompiler := Some c'\<rparr>"
    from fanInOk(5) have st': "?st' = snd (publishManifest h cfg env (metafile a) cbp ?st3)"
      by (metis snd_conv)
    have d3: "disk ?st3 (path f) = Some (contents f)"
      by (simp add: sb)
    show ?thesis
    proof (cases "createAssetsManifestOutcome env (metafile a) cbp")
      case (Inl e)
      then have "disk ?st' = disk ?st3"
        by (simp add: st' publishManifest_eq)
      with d3 show ?thesis by simp
    next
      case (Inr m)
      let ?file = "path_join h (assetsBuildDirectory cfg) (manifestFilename h m)"
      let ?text = "''window.__remixManifest=''
                  @ JSON_stringify h (m\<lparr>url := Some (publicPath cfg @ manifestFilename h m)\<rparr>)
                  @ '';''"
      have "WriteFileSafe ?file ?text \<in> set (issuedCalls st ?st')"
        unfolding fanInOk_issued [OF fanInOk(4) fanInOk(5)] by (simp add: Inr)
      with nm have ne: "?file \<noteq> path f" by auto
      have "disk ?st' (path f) = disk ?st3 (path f)"
        using ne by (simp add: st' publishManifest_eq Inr split: option.splits)
      with d3 show ?thesis by simp
    qed
  qed
qed

lemma manifest_call_bundle_path:
  assumes "cssBuildOutcome env = Inr c"
    and "CreateAssetsManifest mf x \<in> set (issuedCalls st (snd (compile h cfg opts env st)))"
  shows "x = (case rev (filter (\<lambda>f. startsWith (path f) (cssBundlePathPrefix h cfg)
                                   \<and> endsWith (path f) ''.css'') (emittedFiles c)) of
                [] \<Rightarrow> None
              | f # _ \<Rightarrow> Some (path f))"
proof -
  from compile_manifest_call [OF assms(2)] assms(1)
  have "x = fst (processOutputFiles (cssBundlePathPrefix h cfg) None (emittedFiles c))"
    by auto
  then show ?thesis by (simp add: processOutputFiles_path)
qed

lemma example_getExternals:
  "getExternals (exampleHost [''react'']) exampleConfig = Inr [''fs'', ''path'', ''http'']"
  by (simp add: getExternals_def arrayIncludes_def exampleHost_def Let_def)

lemmas example_defs = exampleEnv_def exampleCssResult_def exampleAppResult_def exampleHost_def
  exampleConfig_def exampleOptions_def exampleManifest_def exampleNoStylesheetEnv_def
  exampleFailedAppEnv_def

lemma endsWith_rev: "endsWith s p \<longleftrightarrow> prefix (rev p) (rev s)"
  by (simp add: endsWith_def suffix_to_prefix)

lemma fsWriteFiles_all_ok:
  "(\<And>p c. fsWriteFileOutcome env p c = None) \<Longrightarrow> fst (fsWriteFiles env ws d) = None"
  by (simp add: fsWriteFiles_result)

lemma example_compile_no_stylesheet:
  "fst (compile (exampleHost [''react'']) exampleConfig exampleOptions exampleNoStylesheetEnv
          (createBrowserCompiler Map.empty)) = Inr ()"
  by (simp add: compile_def appBuildCall_def cssBuildCall_def createEsbuildConfig_def
      getExternals_def arrayIncludes_def settleBuilds_def appWritesBefore_def appWritesAfter_def
      cssBuildPromise_def cssBuildThen_eq emittedFiles_def
      promiseAll_def publishManifest_eq createBrowserCompiler_def example_defs Let_def)


section \<open>The output files of the stylesheet build\<close>

lemma stylesheet_action:
  "startsWith (path f) pre \<Longrightarrow> endsWith (path f) ''.css'' \<Longrightarrow>
     processOutputFile pre cbp f = (Some (path f), Some (path f, contents f))"
  by (simp add: processOutputFile_def Let_def)

lemma discarded_action:
  "\<not> endsWith (path f) ''.css'' \<Longrightarrow> \<not> endsWith (path f) ''.css.map'' \<Longrightarrow>
     processOutputFile pre cbp f = (cbp, None)"
  by (simp add: processOutputFile_def Let_def)

lemma outside_prefix_action:
  "\<not> startsWith (path f) pre \<Longrightarrow> processOutputFile pre cbp f = (cbp, None)"
  by (simp add: processOutputFile_def Let_def)

lemma processOutputFiles_skip:
  assumes "processOutputFile pre (fst (processOutputFiles pre cbp xs)) f
     = (fst (processOutputFiles pre cbp xs), None)"
  shows "processOutputFiles pre cbp (xs @ f # ys) = processOutputFiles pre cbp (xs @ ys)"
  using assms by (simp add: processOutputFiles_append case_prod_beta)


text \<open>
  Claim C10. An emitted file under the prefix whose path ends neither in \<open>.css\<close> nor
  in \<open>.css.map\<close> is discarded as a file outside the prefix is: the callback starts
  no write and leaves the bundle path as it was, so that the writes, the bundle path,
  the state after the continuation and its outcome are those of the output files
  without this file.
\<close>

theorem other_files_under_prefix_discarded:
  "(startsWith (path f) pre \<and> \<not> endsWith (path f) ''.css'' \<and> \<not> endsWith (path f) ''.css.map''
      \<longrightarrow> processOutputFile pre cbp f = (cbp, None)
        \<and> processOutputFiles pre cbp (xs @ f # ys) = processOutputFiles pre cbp (xs @ ys)
        \<and> snd (cssBuildThen pre env (c\<lparr>outputFiles := Some (xs @ f # ys)\<rparr>) st)
            = snd (cssBuildThen pre env (c\<lparr>outputFiles := Some (xs @ ys)\<rparr>) st)
        \<and> map_sum id snd (fst (cssBuildThen pre env (c\<lparr>outputFiles := Some (xs @ f # ys)\<rparr>) st))
            = map_sum id snd (fst (cssBuildThen pre env (c\<lparr>outputFiles := Some (xs @ ys)\<rparr>) st)))
   \<and> (\<not> startsWith (path g) pre
      \<longrightarrow> processOutputFile pre cbp g = (cbp, None)
        \<and> processOutputFiles pre cbp (xs @ g # ys) = processOutputFiles pre cbp (xs @ ys))"
proof (intro conjI impI)
  assume a: "startsWith (path f) pre \<and> \<not> endsWith (path f) ''.css''
      \<and> \<not> endsWith (path f) ''.css.map''"
  then have d: "processOutputFile pre b f = (b, None)" for b
    by (simp add: discarded_action)
  from d show "processOutputFile pre cbp f = (cbp, None)" .
  from d show eq: "processOutputFiles pre b (xs @ f # ys) = processOutputFiles pre b (xs @ ys)" for b
    by (rule processOutputFiles_skip)
  show "snd (cssBuildThen pre env (c\<lparr>outputFiles := Some (xs @ f # ys)\<rparr>) st)
            = snd (cssBuildThen pre env (c\<lparr>outputFiles := Some (xs @ ys)\<rparr>) st)"
    by (simp add: cssBuildThen_eq emittedFiles_def eq)
  show "map_sum id snd (fst (cssBuildThen pre env (c\<lparr>outputFiles := Some (xs @ f # ys)\<rparr>) st))
            = map_sum id snd (fst (cssBuildThen pre env (c\<lparr>outputFiles := Some (xs @ ys)\<rparr>) st))"
    by (simp add: cssBuildThen_eq emittedFiles_def eq split: option.splits)
next
  assume "\<not> startsWith (path g) pre"
  then have d: "processOutputFile pre b g = (b, None)" for b
    by (rule outside_prefix_action)
  from d show "processOutputFile pre cbp g = (cbp, None)" .
  from d show "processOutputFiles pre cbp (xs @ g # ys) = processOutputFiles pre cbp (xs @ ys)"
    by (rule processOutputFiles_skip)
qed

theorem other_files_under_prefix_discarded_witness:
  "startsWith ''/build/css-bundle-X7.js'' ''/build/css-bundle''
   \<and> processOutputFile ''/build/css-bundle'' (Some ''/build/css-bundle-X7.css'')
        \<lparr> path = ''/build/css-bundle-X7.js'', contents = ''//'' \<rparr>
      = (Some ''/build/css-bundle-X7.css'', None)
   \<and> processOutputFiles ''/build/css-bundle'' None
        [\<lparr> path = ''/build/css-bundle-X7.css'', contents = ''.a{}'' \<rparr>,
         \<lparr> path = ''/build/css-bundle-X7.js'', contents = ''//'' \<rparr>]
      = (Some ''/build/css-bundle-X7.css'', [(''/build/css-bundle-X7.css'', ''.a{}'')])
   \<and> log (snd (cssBuildThen ''/build/css-bundle'' exampleEnv
        (exampleCssResult\<lparr>outputFiles := Some
          [\<lparr> path = ''/build/css-bundle-X7.css'', contents = ''.a{}'' \<rparr>,
           \<lparr> path = ''/build/css-bundle-X7.js'', contents = ''//'' \<rparr>]\<rparr>)
        (createBrowserCompiler Map.empty)))
      = [FsWriteFile ''/build/css-bundle-X7.css'' ''.a{}'']
   \<and> processOutputFile ''/build/css-bundle'' None
        \<lparr> path = ''/build/_assets/logo-A1.svg'', contents = ''<svg/>'' \<rparr> = (None, None)"
proof -
  let ?pre = "''/build/css-bundle''"
  let ?f1 = "\<lparr> path = ''/build/css-bundle-X7.css'', contents = ''.a{}'' \<rparr>"
  let ?f3 = "\<lparr> path = ''/build/css-bundle-X7.js'', contents = ''//'' \<rparr>"
  let ?f4 = "\<lparr> path = ''/build/_assets/logo-A1.svg'', contents = ''<svg/>'' \<rparr>"
  have h3: "startsWith (path ?f3) ?pre \<and> \<not> endsWith (path ?f3) ''.css''
      \<and> \<not> endsWith (path ?f3) ''.css.map''"
    by (simp add: startsWith_def endsWith_rev)
  have h4: "\<not> startsWith (path ?f4) ?pre"
    by (simp add: startsWith_def)
  have s1: "startsWith (path ?f1) ?pre" "endsWith (path ?f1) ''.css''"
    by (simp_all add: startsWith_def endsWith_rev)
  have base: "processOutputFiles ?pre None [?f1]
      = (Some ''/build/css-bundle-X7.css'', [(''/build/css-bundle-X7.css'', ''.a{}'')])"
    using stylesheet_action [OF s1, of None] by simp
  have lg: "log (snd (cssBuildThen ?pre exampleEnv
        (exampleCssResult\<lparr>outputFiles := Some [?f1]\<rparr>) (createBrowserCompiler Map.empty)))
      = [FsWriteFile ''/build/css-bundle-X7.css'' ''.a{}'']"
    using base by (simp add: cssBuildThen_eq emittedFiles_def createBrowserCompiler_def)
  note T = other_files_under_prefix_discarded
    [where f = ?f3 and pre = ?pre and xs = "[?f1]" and ys = "[]" and env = exampleEnv
       and c = exampleCssResult and st = "createBrowserCompiler Map.empty" and g = ?f4]
  from T [where cbp = "Some ''/build/css-bundle-X7.css''"] h3
  have a1: "processOutputFile ?pre (Some ''/build/css-bundle-X7.css'') ?f3
      = (Some ''/build/css-bundle-X7.css'', None)"
    by blast
  from T [where cbp = None] h3
  have "processOutputFiles ?pre None ([?f1] @ ?f3 # []) = processOutputFiles ?pre None ([?f1] @ [])"
    by blast
  with base have a2: "processOutputFiles ?pre None [?f1, ?f3]
      = (Some ''/build/css-bundle-X7.css'', [(''/build/css-bundle-X7.css'', ''.a{}'')])"
    by simp
  from T [where cbp = None] h3
  have "snd (cssBuildThen ?pre exampleEnv (exampleCssResult\<lparr>outputFiles := Some ([?f1] @ ?f3 # [])\<rparr>)
          (createBrowserCompiler Map.empty))
      = snd (cssBuildThen ?pre exampleEnv (exampleCssResult\<lparr>outputFiles := Some ([?f1] @ [])\<rparr>)
          (createBrowserCompiler Map.empty))"
    by blast
  with lg have a3: "log (snd (cssBuildThen ?pre exampleEnv
        (exampleCssResult\<lparr>outputFiles := Some [?f1, ?f3]\<rparr>) (createBrowserCompiler Map.empty)))
      = [FsWriteFile ''/build/css-bundle-X7.css'' ''.a{}'']"
    by simp
  from T [where cbp = None] h4
  have a4: "processOutputFile ?pre None ?f4 = (None, None)"
    by blast
  from h3 a1 a2 a3 a4 show ?thesis by simp
qed

section \<open>A compile call that succeeds\<close>

lemma toUpperCase_example: "exampleToUpperCase ''a1b2c3d4'' = ''A1B2C3D4''"
  by code_simp

lemma example_compile_fst:
  "fst (compile (exampleHost [''react'']) exampleConfig exampleOptions exampleEnv
          (createBrowserCompiler Map.empty)) = Inr ()"
proof -
  have "fst (fsWriteFiles exampleEnv ws d) = None" for ws d
    by (rule fsWriteFiles_all_ok) (simp add: exampleEnv_def)
  then show ?thesis
    by (simp add: compile_def appBuildCall_def cssBuildCall_def createEsbuildConfig_def
      getExternals_def arrayIncludes_def settleBuilds_def appWritesBefore_def appWritesAfter_def
      cssBuildPromise_def cssBuildThen_eq
      promiseAll_def publishManifest_eq createBrowserCompiler_def example_defs Let_def)
qed

lemma example_compile_heap:
  "heap (snd (compile (exampleHost [''react'']) exampleConfig exampleOptions exampleEnv
          (createBrowserCompiler Map.empty)))
     = [exampleManifest\<lparr>url := Some ''/pub/manifest-A1B2C3D4.js''\<rparr>]"
proof -
  have "fst (fsWriteFiles exampleEnv ws d) = None" for ws d
    by (rule fsWriteFiles_all_ok) (simp add: exampleEnv_def)
  then show ?thesis
    by (simp add: compile_def appBuildCall_def cssBuildCall_def createEsbuildConfig_def
      getExternals_def arrayIncludes_def settleBuilds_def appWritesBefore_def appWritesAfter_def
      cssBuildPromise_def cssBuildThen_eq
      promiseAll_def publishManifest_eq createBrowserCompiler_def example_defs Let_def
      manifestFilename_def toUpperCase_example)
qed

lemma channelWrites_append: "channelWrites (xs @ ys) = channelWrites xs @ channelWrites ys"
  by (induction xs rule: channelWrites.induct) simp_all

lemma channelWrites_fsWrites: "channelWrites (map (\<lambda>(p, c). FsWriteFile p c) ws) = []"
  by (induction ws) (simp_all add: case_prod_beta)

lemma manifestWrites_fsWrites: "filter isManifestWrite (map (\<lambda>(p, c). FsWriteFile p c) ws) = []"
  by (induction ws) (simp_all add: case_prod_beta)

lemma appBuildCall_kind:
  assumes "appBuildCall h cfg opts st = Inr ac"
  shows "channelWrites [ac] = []" and "\<not> isManifestWrite ac"
  using appBuildCall_shape [OF assms] by auto

lemma cssBuildCall_kind:
  assumes "cssBuildCall h cfg opts st = Inr cc"
  shows "channelWrites [cc] = []" and "\<not> isManifestWrite cc"
  using cssBuildCall_shape [OF assms] by auto

text \<open>What a compile call that succeeds has done.\<close>

lemma compile_ok_state:
  assumes "fst (compile h cfg opts env st) = Inr ()"
  obtains ac cc a c m where
    "appBuildCall h cfg opts st = Inr ac" and "cssBuildCall h cfg opts st = Inr cc"
    and "appBuildOutcome env = Inr a" and "cssBuildOutcome env = Inr c"
    and "createAssetsManifestOutcome env (metafile a)
          (fst (processOutputFiles (cssBundlePathPrefix h cfg) None (emittedFiles c))) = Inr m"
    and "heap (snd (compile h cfg opts env st)) =
          heap st @ [m\<lparr>url := Some (publicPath cfg @ manifestFilename h m)\<rparr>]"
    and "issuedCalls st (snd (compile h cfg opts env st)) =
          [ac, cc] @ map (\<lambda>(p, c). FsWriteFile p c)
                   (snd (processOutputFiles (cssBundlePathPrefix h cfg) None (emittedFiles c)))
          @ [CreateAssetsManifest (metafile a)
               (fst (processOutputFiles (cssBundlePathPrefix h cfg) None (emittedFiles c))),
             ChannelWrite (length (heap st)),
             WriteFileSafe (path_join h (assetsBuildDirectory cfg) (manifestFilename h m))
               (''window.__remixManifest=''
                  @ JSON_stringify h (m\<lparr>url := Some (publicPath cfg @ manifestFilename h m)\<rparr>)
                  @ '';'')]"
    and "disk (snd (compile h cfg opts env st))
           (path_join h (assetsBuildDirectory cfg) (manifestFilename h m)) =
         Some (''window.__remixManifest=''
                  @ JSON_stringify h (m\<lparr>url := Some (publicPath cfg @ manifestFilename h m)\<rparr>)
                  @ '';'')"
    and "appCompiler (snd (compile h cfg opts env st)) = Some a"
    and "cssCompiler (snd (compile h cfg opts env st)) = Some c"
proof -
  obtain r st' where c: "compile h cfg opts env st = (r, st')"
    by (cases "compile h cfg opts env st")
  with assms have r: "r = Inr ()" by simp
  from c show ?thesis
  proof (cases rule: compile_cases)
    case (fanInOk ac cc a c cbp)
    note res = settleBuilds_result [OF fanInOk(4)]
    let ?st3 = "(snd (settleBuilds h cfg env ac cc st))
            \<lparr>appCompiler := Some a, cssCompiler := Some c\<rparr>"
    from fanInOk(5) r have pm: "publishManifest h cfg env (metafile a) cbp ?st3 = (Inr (), st')"
      by simp
    then obtain m where m: "createAssetsManifestOutcome env (metafile a) cbp = Inr m"
      by (cases "createAssetsManifestOutcome env (metafile a) cbp")
         (simp_all add: publishManifest_eq)
    let ?m = "m\<lparr>url := Some (publicPath cfg @ manifestFilename h m)\<rparr>"
    let ?file = "path_join h (assetsBuildDirectory cfg) (manifestFilename h m)"
    let ?text = "''window.__remixManifest='' @ JSON_stringify h ?m @ '';''"
    from pm m have w: "writeFileSafeOutcome env ?file ?text = None"
      by (cases "writeFileSafeOutcome env ?file ?text") (simp_all add: publishManifest_eq)
    from pm m w have st': "st' = ?st3\<lparr>heap := heap ?st3 @ [?m],
        log := log ?st3 @ [CreateAssetsManifest (metafile a) cbp, ChannelWrite (length (heap ?st3)),
                           WriteFileSafe ?file ?text],
        disk := (disk ?st3)(?file \<mapsto> ?text)\<rparr>"
      by (simp add: publishManifest_eq)
    have 1: "heap st' = heap st @ [?m]"
      by (simp add: st' settleBuilds_fields)
    have 2: "issuedCalls st st' =
          [ac, cc] @ map (\<lambda>(p, c). FsWriteFile p c)
                   (snd (processOutputFiles (cssBundlePathPrefix h cfg) None (emittedFiles c)))
          @ [CreateAssetsManifest (metafile a) cbp, ChannelWrite (length (heap st)),
             WriteFileSafe ?file ?text]"
      using res by (simp add: st' issuedCalls_def settleBuilds_fields settleBuilds_log)
    have 3: "disk st' ?file = Some ?text"
      by (simp add: st')
    have 4: "appCompiler st' = Some a" "cssCompiler st' = Some c"
      by (simp_all add: st')
    from that [OF fanInOk(1) fanInOk(2) fanInOk(3) conjunct1 [OF res]] m 1 2 3 4 res c
    show ?thesis by simp
  qed (use r in simp_all)
qed

text \<open>
  Claim C5. When \<open>compile\<close> succeeds, the manifest that the builder returned is on the
  heap with its \<open>url\<close> set to the public path followed by the file name
  \<open>manifest-\<close>, the version in upper case, \<open>.js\<close>; exactly one call of the manifest
  file writer is issued, for the file of that name joined to the assets build directory
  and with the text \<open>window.__remixManifest=\<close>, the serialized manifest with that
  \<open>url\<close>, and \<open>;\<close>; and the disk holds this text at this path.
\<close>

theorem manifest_persisted:
  "fst (compile h cfg opts env st) = Inr () \<longrightarrow>
     (\<exists>a cbp m. appBuildOutcome env = Inr a
        \<and> createAssetsManifestOutcome env (metafile a) cbp = Inr m
        \<and> CreateAssetsManifest (metafile a) cbp
            \<in> set (issuedCalls st (snd (compile h cfg opts env st)))
        \<and> newManifest st (snd (compile h cfg opts env st)) =
            m\<lparr>url := Some (publicPath cfg @ ''manifest-'' @ toUpperCase h (version m) @ ''.js'')\<rparr>)
     \<and> url (newManifest st (snd (compile h cfg opts env st))) =
         Some (publicPath cfg @ ''manifest-''
           @ toUpperCase h (version (newManifest st (snd (compile h cfg opts env st)))) @ ''.js'')
     \<and> filter isManifestWrite (issuedCalls st (snd (compile h cfg opts env st))) =
         [WriteFileSafe
            (path_join h (assetsBuildDirectory cfg)
               (''manifest-''
                  @ toUpperCase h (version (newManifest st (snd (compile h cfg opts env st))))
                  @ ''.js''))
            (''window.__remixManifest=''
               @ JSON_stringify h (newManifest st (snd (compile h cfg opts env st))) @ '';'')]
     \<and> disk (snd (compile h cfg opts env st))
           (path_join h (assetsBuildDirectory cfg)
              (''manifest-''
                 @ toUpperCase h (version (newManifest st (snd (compile h cfg opts env st))))
                 @ ''.js'')) =
         Some (''window.__remixManifest=''
                 @ JSON_stringify h (newManifest st (snd (compile h cfg opts env st))) @ '';'')"
proof
  assume ok: "fst (compile h cfg opts env st) = Inr ()"
  let ?st' = "snd (compile h cfg opts env st)"
  from ok obtain ac cc a c m where
    ac: "appBuildCall h cfg opts st = Inr ac" and cc: "cssBuildCall h cfg opts st = Inr cc"
    and a: "appBuildOutcome env = Inr a"
    and m: "createAssetsManifestOutcome env (metafile a)
          (fst (processOutputFiles (cssBundlePathPrefix h cfg) None (emittedFiles c))) = Inr m"
    and hp: "heap ?st' = heap st @ [m\<lparr>url := Some (publicPath cfg @ manifestFilename h m)\<rparr>]"
    and calls: "issuedCalls st ?st' =
          [ac, cc] @ map (\<lambda>(p, c). FsWriteFile p c)
                   (snd (processOutputFiles (cssBundlePathPrefix h cfg) None (emittedFiles c)))
          @ [CreateAssetsManifest (metafile a)
               (fst (processOutputFiles (cssBundlePathPrefix h cfg) None (emittedFiles c))),
             ChannelWrite (length (heap st)),
             WriteFileSafe (path_join h (assetsBuildDirectory cfg) (manifestFilename h m))
               (''window.__remixManifest=''
                  @ JSON_stringify h (m\<lparr>url := Some (publicPath cfg @ manifestFilename h m)\<rparr>)
                  @ '';'')]"
    and dk: "disk ?st' (path_join h (assetsBuildDirectory cfg) (manifestFilename h m)) =
         Some (''window.__remixManifest=''
                  @ JSON_stringify h (m\<lparr>url := Some (publicPath cfg @ manifestFilename h m)\<rparr>)
                  @ '';'')"
    by (rule compile_ok_state)
  have nm: "newManifest st ?st' = m\<lparr>url := Some (publicPath cfg @ manifestFilename h m)\<rparr>"
    by (simp add: newManifest_def hp)
  have fn: "''manifest-'' @ toUpperCase h (version (newManifest st ?st')) @ ''.js'' = manifestFilename h m"
    by (simp add: nm manifestFilename_def)
  have 1: "\<exists>a cbp m. appBuildOutcome env = Inr a
        \<and> createAssetsManifestOutcome env (metafile a) cbp = Inr m
        \<and> CreateAssetsManifest (metafile a) cbp \<in> set (issuedCalls st ?st')
        \<and> newManifest st ?st' =
            m\<lparr>url := Some (publicPath cfg @ ''manifest-'' @ toUpperCase h (version m) @ ''.js'')\<rparr>"
  proof (intro exI conjI)
    show "appBuildOutcome env = Inr a" by (rule a)
    show "createAssetsManifestOutcome env (metafile a)
          (fst (processOutputFiles (cssBundlePathPrefix h cfg) None (emittedFiles c))) = Inr m"
      by (rule m)
    show "CreateAssetsManifest (metafile a)
          (fst (processOutputFiles (cssBundlePathPrefix h cfg) None (emittedFiles c)))
        \<in> set (issuedCalls st ?st')"
      by (simp add: calls)
    show "newManifest st ?st' =
            m\<lparr>url := Some (publicPath cfg @ ''manifest-'' @ toUpperCase h (version m) @ ''.js'')\<rparr>"
      by (simp add: nm manifestFilename_def)
  qed
  have 2: "url (newManifest st ?st') =
         Some (publicPath cfg @ ''manifest-''
           @ toUpperCase h (version (newManifest st ?st')) @ ''.js'')"
    unfolding fn by (simp add: nm)
  have 3: "filter isManifestWrite (issuedCalls st ?st') =
         [WriteFileSafe
            (path_join h (assetsBuildDirectory cfg)
               (''manifest-'' @ toUpperCase h (version (newManifest st ?st')) @ ''.js''))
            (''window.__remixManifest='' @ JSON_stringify h (newManifest st ?st') @ '';'')]"
    unfolding fn
    by (simp add: calls nm manifestWrites_fsWrites appBuildCall_kind(2) [OF ac]
        cssBuildCall_kind(2) [OF cc])
  have 4: "disk ?st'
           (path_join h (assetsBuildDirectory cfg)
              (''manifest-'' @ toUpperCase h (version (newManifest st ?st')) @ ''.js'')) =
         Some (''window.__remixManifest='' @ JSON_stringify h (newManifest st ?st') @ '';'')"
    unfolding fn by (simp add: dk nm)
  from 1 2 3 4 show "(\<exists>a cbp m. appBuildOutcome env = Inr a
        \<and> createAssetsManifestOutcome env (metafile a) cbp = Inr m
        \<and> CreateAssetsManifest (metafile a) cbp \<in> set (issuedCalls st ?st')
        \<and> newManifest st ?st' =
            m\<lparr>url := Some (publicPath cfg @ ''manifest-'' @ toUpperCase h (version m) @ ''.js'')\<rparr>)
     \<and> url (newManifest st ?st') =
         Some (publicPath cfg @ ''manifest-''
           @ toUpperCase h (version (newManifest st ?st')) @ ''.js'')
     \<and> filter isManifestWrite (issuedCalls st ?st') =
         [WriteFileSafe
            (path_join h (assetsBuildDirectory cfg)
               (''manifest-'' @ toUpperCase h (version (newManifest st ?st')) @ ''.js''))
            (''window.__remixManifest='' @ JSON_stringify h (newManifest st ?st') @ '';'')]
     \<and> disk ?st'
           (path_join h (assetsBuildDirectory cfg)
              (''manifest-'' @ toUpperCase h (version (newManifest st ?st')) @ ''.js'')) =
         Some (''window.__remixManifest='' @ JSON_stringify h (newManifest st ?st') @ '';'')"
    by blast
qed

theorem manifest_persisted_witness:
  "fst (compile (exampleHost [''react'']) exampleConfig exampleOptions exampleEnv
          (createBrowserCompiler Map.empty)) = Inr ()
   \<and> url (newManifest (createBrowserCompiler Map.empty)
        (snd (compile (exampleHost [''react'']) exampleConfig exampleOptions exampleEnv
          (createBrowserCompiler Map.empty)))) = Some ''/pub/manifest-A1B2C3D4.js''
   \<and> filter isManifestWrite (issuedCalls (createBrowserCompiler Map.empty)
        (snd (compile (exampleHost [''react'']) exampleConfig exampleOptions exampleEnv
          (createBrowserCompiler Map.empty)))) =
       [WriteFileSafe ''/build/manifest-A1B2C3D4.js''
          ''window.__remixManifest={v:a1b2c3d4,u:/pub/manifest-A1B2C3D4.js,entry};'']
   \<and> disk (snd (compile (exampleHost [''react'']) exampleConfig exampleOptions exampleEnv
          (createBrowserCompiler Map.empty))) ''/build/manifest-A1B2C3D4.js'' =
       Some ''window.__remixManifest={v:a1b2c3d4,u:/pub/manifest-A1B2C3D4.js,entry};''"
proof -
  let ?H = "exampleHost [''react'']"
  let ?S = "createBrowserCompiler Map.empty"
  let ?S' = "snd (compile ?H exampleConfig exampleOptions exampleEnv ?S)"
  note ok = example_compile_fst
  have h0: "length (heap ?S) = 0"
    by (simp add: createBrowserCompiler_def)
  have nm: "newManifest ?S ?S' = exampleManifest\<lparr>url := Some ''/pub/manifest-A1B2C3D4.js''\<rparr>"
    by (simp add: newManifest_def h0 example_compile_heap)
  have v: "toUpperCase ?H (version (newManifest ?S ?S')) = ''A1B2C3D4''"
    unfolding nm by (simp add: exampleManifest_def exampleHost_def toUpperCase_example)
  have pj: "path_join ?H (assetsBuildDirectory exampleConfig) ''manifest-A1B2C3D4.js''
      = ''/build/manifest-A1B2C3D4.js''"
    by (simp add: exampleHost_def exampleConfig_def)
  have js: "JSON_stringify ?H (newManifest ?S ?S') = ''{v:a1b2c3d4,u:/pub/manifest-A1B2C3D4.js,entry}''"
    unfolding nm by (simp add: exampleHost_def exampleManifest_def)
  have pp: "publicPath exampleConfig = ''/pub/''"
    by (simp add: exampleConfig_def)
  from manifest_persisted [of ?H exampleConfig exampleOptions exampleEnv ?S] ok
  have t: "url (newManifest ?S ?S') =
         Some (publicPath exampleConfig @ ''manifest-''
           @ toUpperCase ?H (version (newManifest ?S ?S')) @ ''.js'')"
    "filter isManifestWrite (issuedCalls ?S ?S') =
         [WriteFileSafe
            (path_join ?H (assetsBuildDirectory exampleConfig)
               (''manifest-'' @ toUpperCase ?H (version (newManifest ?S ?S')) @ ''.js''))
            (''window.__remixManifest='' @ JSON_stringify ?H (newManifest ?S ?S') @ '';'')]"
    "disk ?S'
           (path_join ?H (assetsBuildDirectory exampleConfig)
              (''manifest-'' @ toUpperCase ?H (version (newManifest ?S ?S')) @ ''.js'')) =
         Some (''window.__remixManifest='' @ JSON_stringify ?H (newManifest ?S ?S') @ '';'')"
    by blast+
  from t(1) have 1: "url (newManifest ?S ?S') = Some ''/pub/manifest-A1B2C3D4.js''"
    unfolding v pp by simp
  from t(2) have 2: "filter isManifestWrite (issuedCalls ?S ?S') =
       [WriteFileSafe ''/build/manifest-A1B2C3D4.js''
          ''window.__remixManifest={v:a1b2c3d4,u:/pub/manifest-A1B2C3D4.js,entry};'']"
    unfolding v js using pj by simp
  from t(3) have 3: "disk ?S' ''/build/manifest-A1B2C3D4.js'' =
       Some ''window.__remixManifest={v:a1b2c3d4,u:/pub/manifest-A1B2C3D4.js,entry};''"
    unfolding v js using pj by simp
  from ok 1 2 3 show ?thesis by blast
qed

text \<open>
  Claim C9. When \<open>compile\<close> succeeds, exactly one value is written to the channel: the
  reference of the manifest object allocated by this call. The channel receives the
  reference before the manifest writer assigns the \<open>url\<close> of that object, in the same
  synchronous run; when \<open>compile\<close> returns, the object the channel refers to has the
  \<open>url\<close> made of the public path and the manifest file name, and it is this object
  whose serialization is written to the manifest file.
\<close>

theorem manifest_published_once:
  "fst (compile h cfg opts env st) = Inr () \<longrightarrow>
     channelWrites (issuedCalls st (snd (compile h cfg opts env st))) = [length (heap st)]
     \<and> heap (snd (compile h cfg opts env st)) =
         heap st @ [newManifest st (snd (compile h cfg opts env st))]
     \<and> url (newManifest st (snd (compile h cfg opts env st))) =
         Some (publicPath cfg @ ''manifest-''
           @ toUpperCase h (version (newManifest st (snd (compile h cfg opts env st)))) @ ''.js'')
     \<and> filter isManifestWrite (issuedCalls st (snd (compile h cfg opts env st))) =
         [WriteFileSafe
            (path_join h (assetsBuildDirectory cfg)
               (''manifest-''
                  @ toUpperCase h (version (newManifest st (snd (compile h cfg opts env st))))
                  @ ''.js''))
            (''window.__remixManifest=''
               @ JSON_stringify h (newManifest st (snd (compile h cfg opts env st))) @ '';'')]"
proof
  assume ok: "fst (compile h cfg opts env st) = Inr ()"
  let ?st' = "snd (compile h cfg opts env st)"
  from ok obtain ac cc a c m where
    ac: "appBuildCall h cfg opts st = Inr ac" and cc: "cssBuildCall h cfg opts st = Inr cc"
    and a: "appBuildOutcome env = Inr a" and c: "cssBuildOutcome env = Inr c"
    and m: "createAssetsManifestOutcome env (metafile a)
          (fst (processOutputFiles (cssBundlePathPrefix h cfg) None (emittedFiles c))) = Inr m"
    and hp: "heap ?st' = heap st @ [m\<lparr>url := Some (publicPath cfg @ manifestFilename h m)\<rparr>]"
    and calls: "issuedCalls st ?st' =
          [ac, cc] @ map (\<lambda>(p, c). FsWriteFile p c)
                   (snd (processOutputFiles (cssBundlePathPrefix h cfg) None (emittedFiles c)))
          @ [CreateAssetsManifest (metafile a)
               (fst (processOutputFiles (cssBundlePathPrefix h cfg) None (emittedFiles c))),
             ChannelWrite (length (heap st)),
             WriteFileSafe (path_join h (assetsBuildDirectory cfg) (manifestFilename h m))
               (''window.__remixManifest=''
                  @ JSON_stringify h (m\<lparr>url := Some (publicPath cfg @ manifestFilename h m)\<rparr>)
                  @ '';'')]"
    by (rule compile_ok_state)
  have nm: "newManifest st ?st' = m\<lparr>url := Some (publicPath cfg @ manifestFilename h m)\<rparr>"
    by (simp add: newManifest_def hp)
  have fn: "''manifest-'' @ toUpperCase h (version (newManifest st ?st')) @ ''.js'' = manifestFilename h m"
    by (simp add: nm manifestFilename_def)
  let ?ws = "map (\<lambda>(p, c). FsWriteFile p c)
                   (snd (processOutputFiles (cssBundlePathPrefix h cfg) None (emittedFiles c)))"
  let ?ms = "[CreateAssetsManifest (metafile a)
               (fst (processOutputFiles (cssBundlePathPrefix h cfg) None (emittedFiles c))),
             ChannelWrite (length (heap st)),
             WriteFileSafe (path_join h (assetsBuildDirectory cfg) (manifestFilename h m))
               (''window.__remixManifest=''
                  @ JSON_stringify h (m\<lparr>url := Some (publicPath cfg @ manifestFilename h m)\<rparr>)
                  @ '';'')]"
  have "channelWrites (issuedCalls st ?st') = channelWrites ([ac] @ [cc] @ ?ws @ ?ms)"
    by (simp add: calls)
  also have "\<dots> = channelWrites [ac] @ channelWrites [cc] @ channelWrites ?ws @ channelWrites ?ms"
    by (simp only: channelWrites_append)
  also have "\<dots> = [length (heap st)]"
    by (simp add: appBuildCall_kind(1) [OF ac] cssBuildCall_kind(1) [OF cc]
        channelWrites_fsWrites)
  finally have 1: "channelWrites (issuedCalls st ?st') = [length (heap st)]" .
  have 2: "heap ?st' = heap st @ [newManifest st ?st']"
    by (simp add: nm hp)
  have 3: "url (newManifest st ?st') =
         Some (publicPath cfg @ ''manifest-''
           @ toUpperCase h (version (newManifest st ?st')) @ ''.js'')"
    unfolding fn by (simp add: nm)
  have 4: "filter isManifestWrite (issuedCalls st ?st') =
         [WriteFileSafe
            (path_join h (assetsBuildDirectory cfg)
               (''manifest-'' @ toUpperCase h (version (newManifest st ?st')) @ ''.js''))
            (''window.__remixManifest='' @ JSON_stringify h (newManifest st ?st') @ '';'')]"
    unfolding fn
    by (simp add: calls nm manifestWrites_fsWrites appBuildCall_kind(2) [OF ac]
        cssBuildCall_kind(2) [OF cc])
  from 1 2 3 4 show "channelWrites (issuedCalls st ?st') = [length (heap st)]
     \<and> heap ?st' = heap st @ [newManifest st ?st']
     \<and> url (newManifest st ?st') =
         Some (publicPath cfg @ ''manifest-''
           @ toUpperCase h (version (newManifest st ?st')) @ ''.js'')
     \<and> filter isManifestWrite (issuedCalls st ?st') =
         [WriteFileSafe
            (path_join h (assetsBuildDirectory cfg)
               (''manifest-'' @ toUpperCase h (version (newManifest st ?st')) @ ''.js''))
            (''window.__remixManifest='' @ JSON_stringify h (newManifest st ?st') @ '';'')]"
    by blast
qed

theorem manifest_published_once_witness:
  "fst (compile (exampleHost [''react'']) exampleConfig exampleOptions exampleEnv
          (createBrowserCompiler Map.empty)) = Inr ()
   \<and> channelWrites (issuedCalls (createBrowserCompiler Map.empty)
        (snd (compile (exampleHost [''react'']) exampleConfig exampleOptions exampleEnv
          (createBrowserCompiler Map.empty)))) = [0]
   \<and> heap (snd (compile (exampleHost [''react'']) exampleConfig exampleOptions exampleEnv
          (createBrowserCompiler Map.empty))) =
       [\<lparr>version = ''a1b2c3d4'', url = Some ''/pub/manifest-A1B2C3D4.js'',
         builderFields = ''entry''\<rparr>]"
proof -
  let ?H = "exampleHost [''react'']"
  let ?S = "createBrowserCompiler Map.empty"
  let ?S' = "snd (compile ?H exampleConfig exampleOptions exampleEnv ?S)"
  note ok = example_compile_fst
  have h0: "heap ?S = []"
    by (simp add: createBrowserCompiler_def)
  from manifest_published_once [of ?H exampleConfig exampleOptions exampleEnv ?S] ok
  have t: "channelWrites (issuedCalls ?S ?S') = [length (heap ?S)]"
    "heap ?S' = heap ?S @ [newManifest ?S ?S']"
    "url (newManifest ?S ?S') =
         Some (publicPath exampleConfig @ ''manifest-''
           @ toUpperCase ?H (version (newManifest ?S ?S')) @ ''.js'')"
    by blast+
  from t(1) have 1: "channelWrites (issuedCalls ?S ?S') = [0]"
    unfolding h0 by simp
  have "newManifest ?S ?S' = exampleManifest\<lparr>url := Some ''/pub/manifest-A1B2C3D4.js''\<rparr>"
    by (simp add: newManifest_def h0 example_compile_heap)
  with t(2) have 2: "heap ?S' =
       [\<lparr>version = ''a1b2c3d4'', url = Some ''/pub/manifest-A1B2C3D4.js'',
         builderFields = ''entry''\<rparr>]"
    unfolding h0 by (simp add: exampleManifest_def)
  from ok 1 2 show ?thesis by blast
qed

section \<open>A compile call whose build fails\<close>

lemma appBuildCall_error:
  "appBuildCall h cfg opts st = Inl e \<Longrightarrow> getExternals h cfg = Inl e"
  by (auto simp: appBuildCall_def createEsbuildConfig_def Let_def split: option.splits sum.splits)

lemma cssBuildCall_error:
  "cssBuildCall h cfg opts st = Inl e \<Longrightarrow> getExternals h cfg = Inl e"
  by (auto simp: cssBuildCall_def createEsbuildConfig_def Let_def split: option.splits sum.splits)

lemma fsWriteFiles_error:
  "fst (fsWriteFiles env ws d) = Some e \<Longrightarrow>
     \<exists>w \<in> set ws. fsWriteFileOutcome env (fst w) (snd w) = Some e"
proof (induction ws arbitrary: d)
  case Nil
  then show ?case by simp
next
  case (Cons w ws)
  obtain q x where w: "w = (q, x)" by (cases w)
  show ?case
  proof (cases "fsWriteFileOutcome env q x")
    case None
    with Cons.prems w have "fst (fsWriteFiles env ws (d(q \<mapsto> x))) = Some e" by simp
    from Cons.IH [OF this] show ?thesis by auto
  next
    case (Some e')
    with Cons.prems w have "e' = e" by simp
    with Some w show ?thesis by auto
  qed
qed

lemma cssBuildPromise_error:
  assumes "fst (cssBuildPromise h cfg env st) = Inl e"
  shows "cssBuildOutcome env = Inl e \<or> (\<exists>p x. fsWriteFileOutcome env p x = Some e)"
proof (cases "cssBuildOutcome env")
  case (Inl e')
  with assms show ?thesis by (simp add: cssBuildPromise_def)
next
  case (Inr c)
  with assms have "fst (fsWriteFiles env
      (snd (processOutputFiles (cssBundlePathPrefix h cfg) None (emittedFiles c))) (disk st)) = Some e"
    by (simp add: cssBuildPromise_def cssBuildThen_eq split: option.splits)
  from fsWriteFiles_error [OF this] show ?thesis by blast
qed

lemma cssBuildPromise_failed_build:
  "cssBuildOutcome env = Inl e \<Longrightarrow> cssBuildPromise h cfg env st = (Inl e, st)"
  by (simp add: cssBuildPromise_def)

lemma settleBuilds_error:
  assumes "fst (settleBuilds h cfg env ac cc st) = Inl e"
  shows "cssBuildOutcome env = Inl e \<or> (\<exists>p x. fsWriteFileOutcome env p x = Some e)"
proof -
  from assms have "fst (cssBuildPromise h cfg env
      (st\<lparr>log := log st @ [ac, cc],
          disk := bundlerWrites (appWritesBefore env) (disk st)\<rparr>)) = Inl e"
    by (simp add: settleBuilds_eq)
  then show ?thesis by (rule cssBuildPromise_error)
qed

lemma settleBuilds_failed_build_disk:
  assumes "cssBuildOutcome env = Inl e" and "p \<notin> fst ` set (appBuildWrites env)"
  shows "disk (snd (settleBuilds h cfg env ac cc st)) p = disk st p"
  using assms
  by (simp add: settleBuilds_eq cssBuildPromise_failed_build bundlerWrites_other appWrites_paths)


lemma build_calls_kind:
  assumes "appBuildCall h cfg opts st = Inr ac" and "cssBuildCall h cfg opts st = Inr cc"
  shows "channelWrites ([ac, cc] @ map (\<lambda>(p, c). FsWriteFile p c) ws) = []"
    and "filter isManifestWrite ([ac, cc] @ map (\<lambda>(p, c). FsWriteFile p c) ws) = []"
proof -
  have "channelWrites ([ac] @ [cc] @ map (\<lambda>(p, c). FsWriteFile p c) ws) = []"
    by (simp only: channelWrites_append)
       (simp add: appBuildCall_kind(1) [OF assms(1)] cssBuildCall_kind(1) [OF assms(2)]
          channelWrites_fsWrites)
  then show "channelWrites ([ac, cc] @ map (\<lambda>(p, c). FsWriteFile p c) ws) = []" by simp
  show "filter isManifestWrite ([ac, cc] @ map (\<lambda>(p, c). FsWriteFile p c) ws) = []"
    by (simp add: appBuildCall_kind(2) [OF assms(1)] cssBuildCall_kind(2) [OF assms(2)]
        manifestWrites_fsWrites)
qed

text \<open>What a compile call has done when one of the two operations failed.\<close>

lemma compile_build_failed:
  assumes "\<not> (\<exists>a c. appBuildOutcome env = Inr a \<and> cssBuildOutcome env = Inr c)"
  shows "(\<exists>e. fst (compile h cfg opts env st) = Inl e
       \<and> (getExternals h cfg = Inl e \<or> appBuildOutcome env = Inl e \<or> cssBuildOutcome env = Inl e
            \<or> (\<exists>p x. fsWriteFileOutcome env p x = Some e)))
    \<and> channelWrites (issuedCalls st (snd (compile h cfg opts env st))) = []
    \<and> filter isManifestWrite (issuedCalls st (snd (compile h cfg opts env st))) = []
    \<and> heap (snd (compile h cfg opts env st)) = heap st
    \<and> appCompiler (snd (compile h cfg opts env st)) = appCompiler st
    \<and> cssCompiler (snd (compile h cfg opts env st)) = cssCompiler st
    \<and> (p \<notin> fst ` set (appBuildWrites env)
         \<and> \<not> (startsWith p (cssBundlePathPrefix h cfg)
              \<and> (endsWith p ''.css'' \<or> endsWith p ''.css.map'')) \<longrightarrow>
           disk (snd (compile h cfg opts env st)) p = disk st p)
    \<and> (cssBuildOutcome env = Inl ec \<longrightarrow>
           (q \<notin> fst ` set (appBuildWrites env) \<longrightarrow>
              disk (snd (compile h cfg opts env st)) q = disk st q)
           \<and> FsWriteFile q x \<notin> set (issuedCalls st (snd (compile h cfg opts env st))))"
proof -
  let ?r = "fst (compile h cfg opts env st)"
  let ?st' = "snd (compile h cfg opts env st)"
  have c: "compile h cfg opts env st = (?r, ?st')" by simp
  from c show ?thesis
  proof (cases rule: compile_cases)
    case (appConfig e)
    have "issuedCalls st ?st' = []"
      unfolding appConfig(3) by (simp add: issuedCalls_def)
    moreover have "getExternals h cfg = Inl e"
      by (rule appBuildCall_error [OF appConfig(1)])
    ultimately show ?thesis
      using appConfig(2) unfolding appConfig(3) by simp
  next
    case (cssConfig ac e)
    have i: "issuedCalls st ?st' = [ac]"
      unfolding cssConfig(4) by (simp add: issuedCalls_def)
    from appBuildCall_shape [OF cssConfig(1)] have n: "FsWriteFile q x \<noteq> ac" by auto
    have g: "getExternals h cfg = Inl e"
      by (rule cssBuildCall_error [OF cssConfig(2)])
    have k: "channelWrites [ac] = []" "filter isManifestWrite [ac] = []"
      by (simp_all add: appBuildCall_kind [OF cssConfig(1)])
    have d: "r \<notin> fst ` set (appBuildWrites env) \<Longrightarrow> disk ?st' r = disk st r" for r
      unfolding cssConfig(4) by (simp add: bundlerWrites_other)
    have 1: "\<exists>e. ?r = Inl e
       \<and> (getExternals h cfg = Inl e \<or> appBuildOutcome env = Inl e \<or> cssBuildOutcome env = Inl e
            \<or> (\<exists>p x. fsWriteFileOutcome env p x = Some e))"
      using cssConfig(3) g by blast
    have 2: "channelWrites (issuedCalls st ?st') = []"
      unfolding i by (rule k)
    have 3: "filter isManifestWrite (issuedCalls st ?st') = []"
      unfolding i by (rule k)
    have 4: "heap ?st' = heap st" "appCompiler ?st' = appCompiler st"
      "cssCompiler ?st' = cssCompiler st"
      unfolding cssConfig(4) by simp_all
    have 7: "p \<notin> fst ` set (appBuildWrites env)
         \<and> \<not> (startsWith p (cssBundlePathPrefix h cfg)
              \<and> (endsWith p ''.css'' \<or> endsWith p ''.css.map'')) \<longrightarrow> disk ?st' p = disk st p"
      using d by blast
    have 8: "cssBuildOutcome env = Inl ec \<longrightarrow>
           (q \<notin> fst ` set (appBuildWrites env) \<longrightarrow> disk ?st' q = disk st q)
           \<and> FsWriteFile q x \<notin> set (issuedCalls st ?st')"
      unfolding i using d n by simp
    show ?thesis
      by (intro conjI) (rule 1 2 3 4 7 8)+
  next
    case (fanInFailed ac cc e)
    note i = fanInFailed_issued [OF fanInFailed(5)]
    obtain ws where iw: "issuedCalls st ?st' = [ac, cc] @ map (\<lambda>(p, c). FsWriteFile p c) ws"
      and w0: "\<And>ec. cssBuildOutcome env = Inl ec \<Longrightarrow> ws = []"
    proof (cases "cssBuildOutcome env")
      case (Inl e')
      with i have "issuedCalls st ?st' = [ac, cc] @ map (\<lambda>(p, c). FsWriteFile p c) []" by simp
      with that show ?thesis by blast
    next
      case (Inr c')
      with i have "issuedCalls st ?st' = [ac, cc] @ map (\<lambda>(p, c). FsWriteFile p c)
          (snd (processOutputFiles (cssBundlePathPrefix h cfg) None (emittedFiles c')))" by simp
      with that Inr show ?thesis by simp
    qed
    from promiseAll_Inl [OF fanInFailed(3)] settleBuilds_error
    have e: "appBuildOutcome env = Inl e \<or> cssBuildOutcome env = Inl e
            \<or> (\<exists>p x. fsWriteFileOutcome env p x = Some e)"
      by blast
    have 1: "\<exists>e. ?r = Inl e
       \<and> (getExternals h cfg = Inl e \<or> appBuildOutcome env = Inl e \<or> cssBuildOutcome env = Inl e
            \<or> (\<exists>p x. fsWriteFileOutcome env p x = Some e))"
      using fanInFailed(4) e by blast
    have 2: "channelWrites (issuedCalls st ?st') = []"
      unfolding iw by (rule build_calls_kind(1) [OF fanInFailed(1,2)])
    have 3: "filter isManifestWrite (issuedCalls st ?st') = []"
      unfolding iw by (rule build_calls_kind(2) [OF fanInFailed(1,2)])
    have 4: "heap ?st' = heap st"
      unfolding fanInFailed(5) by (simp add: settleBuilds_fields)
    have 5: "appCompiler ?st' = appCompiler st"
      unfolding fanInFailed(5) by (simp add: settleBuilds_fields)
    have 6: "cssCompiler ?st' = cssCompiler st"
      unfolding fanInFailed(5) by (simp add: settleBuilds_fields)
    have 7: "p \<notin> fst ` set (appBuildWrites env)
         \<and> \<not> (startsWith p (cssBundlePathPrefix h cfg)
              \<and> (endsWith p ''.css'' \<or> endsWith p ''.css.map'')) \<longrightarrow> disk ?st' p = disk st p"
      unfolding fanInFailed(5) using settleBuilds_disk_other by blast
    have 8: "cssBuildOutcome env = Inl ec \<longrightarrow>
           (q \<notin> fst ` set (appBuildWrites env) \<longrightarrow> disk ?st' q = disk st q)
           \<and> FsWriteFile q x \<notin> set (issuedCalls st ?st')"
    proof
      assume ec: "cssBuildOutcome env = Inl ec"
      from appBuildCall_shape [OF fanInFailed(1)] cssBuildCall_shape [OF fanInFailed(2)]
      have n: "FsWriteFile q x \<noteq> ac" "FsWriteFile q x \<noteq> cc" by auto
      have "q \<notin> fst ` set (appBuildWrites env) \<longrightarrow> disk ?st' q = disk st q"
        unfolding fanInFailed(5) using settleBuilds_failed_build_disk [OF ec] by blast
      moreover have "FsWriteFile q x \<notin> set (issuedCalls st ?st')"
        unfolding iw w0 [OF ec] using n by simp
      ultimately show "(q \<notin> fst ` set (appBuildWrites env) \<longrightarrow> disk ?st' q = disk st q)
           \<and> FsWriteFile q x \<notin> set (issuedCalls st ?st')" ..
    qed
    show ?thesis
      by (intro conjI) (rule 1 2 3 4 5 6 7 8)+
  next
    case (fanInOk ac cc a c cbp)
    from settleBuilds_result [OF fanInOk(4)] fanInOk(3) assms show ?thesis by blast
  qed
qed

lemma manifest_write_last:
  assumes "WriteFileSafe p x \<in> set (issuedCalls st (snd (compile h cfg opts env st)))"
  shows "\<exists>a c m bs. appBuildOutcome env = Inr a \<and> cssBuildOutcome env = Inr c
     \<and> createAssetsManifestOutcome env (metafile a)
          (fst (processOutputFiles (cssBundlePathPrefix h cfg) None (emittedFiles c))) = Inr m
     \<and> issuedCalls st (snd (compile h cfg opts env st)) =
          bs @ [CreateAssetsManifest (metafile a)
                  (fst (processOutputFiles (cssBundlePathPrefix h cfg) None (emittedFiles c))),
                ChannelWrite (length (heap st)), WriteFileSafe p x]"
proof -
  let ?r = "fst (compile h cfg opts env st)"
  let ?st' = "snd (compile h cfg opts env st)"
  have c: "compile h cfg opts env st = (?r, ?st')" by simp
  from c show ?thesis
  proof (cases rule: compile_cases)
    case (appConfig e)
    have "issuedCalls st ?st' = []"
      unfolding appConfig(3) by (simp add: issuedCalls_def)
    with assms show ?thesis by simp
  next
    case (cssConfig ac e)
    have "issuedCalls st ?st' = [ac]"
      unfolding cssConfig(4) by (simp add: issuedCalls_def)
    with assms appBuildCall_kind(2) [OF cssConfig(1)] show ?thesis by auto
  next
    case (fanInFailed ac cc e)
    have "isManifestWrite (WriteFileSafe p x)" by simp
    with assms have "\<exists>y \<in> set (issuedCalls st ?st'). isManifestWrite y" by blast
    then have "filter isManifestWrite (issuedCalls st ?st') \<noteq> []"
      by (simp add: filter_empty_conv)
    moreover have "filter isManifestWrite (issuedCalls st ?st') = []"
      unfolding fanInFailed_issued [OF fanInFailed(5)]
      using build_calls_kind(2) [OF fanInFailed(1,2)]
        build_calls_kind(2) [OF fanInFailed(1,2), of "[]"]
      by (cases "cssBuildOutcome env") simp_all
    ultimately show ?thesis by simp
  next
    case (fanInOk ac cc a c cbp)
    note res = settleBuilds_result [OF fanInOk(4)]
    note i = fanInOk_issued [OF fanInOk(4) fanInOk(5)]
    let ?ws = "map (\<lambda>(p, c). FsWriteFile p c)
                   (snd (processOutputFiles (cssBundlePathPrefix h cfg) None (emittedFiles c)))"
    have nb: "WriteFileSafe p x \<notin> set ([ac, cc] @ ?ws)"
      using appBuildCall_kind(2) [OF fanInOk(1)] cssBuildCall_kind(2) [OF fanInOk(2)]
      by auto
    show ?thesis
    proof (cases "createAssetsManifestOutcome env (metafile a) cbp")
      case (Inl e)
      with i have "issuedCalls st ?st' = ([ac, cc] @ ?ws) @ [CreateAssetsManifest (metafile a) cbp]"
        by simp
      with assms nb show ?thesis by simp
    next
      case (Inr m)
      let ?file = "path_join h (assetsBuildDirectory cfg) (manifestFilename h m)"
      let ?text = "''window.__remixManifest=''
                  @ JSON_stringify h (m\<lparr>url := Some (publicPath cfg @ manifestFilename h m)\<rparr>)
                  @ '';''"
      from Inr i have j: "issuedCalls st ?st' = ([ac, cc] @ ?ws)
          @ [CreateAssetsManifest (metafile a) cbp, ChannelWrite (length (heap st)),
             WriteFileSafe ?file ?text]"
        by simp
      with assms nb have "WriteFileSafe p x = WriteFileSafe ?file ?text" by simp
      with j have "issuedCalls st ?st' = ([ac, cc] @ ?ws)
          @ [CreateAssetsManifest (metafile a) cbp, ChannelWrite (length (heap st)),
             WriteFileSafe p x]"
        by simp
      with Inr res fanInOk(3) show ?thesis by blast
    qed
  qed
qed


lemma example_compile_manifest_calls:
  "drop 4 (issuedCalls (createBrowserCompiler Map.empty)
      (snd (compile (exampleHost [''react'']) exampleConfig exampleOptions exampleEnv
          (createBrowserCompiler Map.empty)))) =
     [CreateAssetsManifest (Some ''app-meta'') (Some ''/build/css-bundle-X7.css''),
      ChannelWrite 0,
      WriteFileSafe ''/build/manifest-A1B2C3D4.js''
        ''window.__remixManifest={v:a1b2c3d4,u:/pub/manifest-A1B2C3D4.js,entry};'']"
proof -
  have "fst (fsWriteFiles exampleEnv ws d) = None" for ws d
    by (rule fsWriteFiles_all_ok) (simp add: exampleEnv_def)
  then show ?thesis
    by (simp add: compile_def appBuildCall_def cssBuildCall_def createEsbuildConfig_def
      getExternals_def arrayIncludes_def settleBuilds_def appWritesBefore_def appWritesAfter_def
      cssBuildPromise_def cssBuildThen_eq emittedFiles_def
      processOutputFile_def startsWith_def endsWith_rev cssBundlePathPrefix_def
      promiseAll_def publishManifest_eq createBrowserCompiler_def example_defs Let_def
      manifestFilename_def toUpperCase_example issuedCalls_def)
qed


lemma stylesheet_file_write_issued:
  assumes "getExternals h cfg = Inr ext \<or> (appCompiler st \<noteq> None \<and> cssCompiler st \<noteq> None)"
    and "cssBuildOutcome env = Inr c"
    and "f \<in> set (emittedFiles c)" and "startsWith (path f) (cssBundlePathPrefix h cfg)"
    and "endsWith (path f) ''.css'' \<or> endsWith (path f) ''.css.map''"
  shows "FsWriteFile (path f) (contents f)
     \<in> set (issuedCalls st (snd (compile h cfg opts env st)))"
proof -
  from build_calls_issued [OF assms(1)] obtain ac bc where
    b: "appBuildCall h cfg opts st = Inr ac" "cssBuildCall h cfg opts st = Inr bc"
    by blast
  have "(path f, contents f)
      \<in> set (snd (processOutputFiles (cssBundlePathPrefix h cfg) None (emittedFiles c)))"
    using assms(3-5) by (rule written_file_in_writes)
  with assms(2) show ?thesis
    unfolding compile_fsWrite_iff [OF b] by blast
qed





section \<open>The stylesheet files written by a compile call\<close>

lemma example_manifest_write_path:
  assumes "WriteFileSafe p x \<in> set (issuedCalls (createBrowserCompiler Map.empty)
      (snd (compile (exampleHost [''react'']) exampleConfig exampleOptions exampleEnv
          (createBrowserCompiler Map.empty))))"
  shows "p = ''/build/manifest-A1B2C3D4.js''"
proof -
  let ?i = "issuedCalls (createBrowserCompiler Map.empty)
      (snd (compile (exampleHost [''react'']) exampleConfig exampleOptions exampleEnv
          (createBrowserCompiler Map.empty)))"
  from manifest_write_last [OF assms] obtain bs y z where i: "?i = bs @ [y, z, WriteFileSafe p x]"
    by blast
  then have l: "last ?i = WriteFileSafe p x" by simp
  have "drop 4 ?i \<noteq> []"
    by (simp only: example_compile_manifest_calls) simp
  then have "last (drop 4 ?i) = last ?i"
    by (simp add: last_drop)
  with l show ?thesis
    by (simp only: example_compile_manifest_calls) simp
qed

lemma bundle_path_unique:
  assumes "f \<in> set (fs :: outputFile list)" and "startsWith (path f) pre \<and> endsWith (path f) ''.css''"
    and "\<forall>g \<in> set fs. startsWith (path g) pre \<and> endsWith (path g) ''.css'' \<longrightarrow> path g = path f"
  shows "(case rev (filter (\<lambda>f. startsWith (path f) pre \<and> endsWith (path f) ''.css'') fs) of
            [] \<Rightarrow> None
          | f # _ \<Rightarrow> Some (path f)) = Some (path f)"
proof -
  from assms(2) have s: "startsWith (path f) pre" "endsWith (path f) ''.css''" by blast+
  from only_stylesheet_resolved [OF assms(1) s assms(3), of None]
  show ?thesis by (simp add: processOutputFiles_path)
qed

lemma bundle_path_none:
  assumes "\<forall>g \<in> set (fs :: outputFile list). \<not> (startsWith (path g) pre \<and> endsWith (path g) ''.css'')"
  shows "(case rev (filter (\<lambda>f. startsWith (path f) pre \<and> endsWith (path f) ''.css'') fs) of
            [] \<Rightarrow> None
          | f # _ \<Rightarrow> Some (path f)) = None"
  using no_stylesheet_resolved [OF assms] by (simp add: processOutputFiles_path)

text \<open>
  Claim C2. Let \<open>compile\<close> issue its two operations (the configuration does not throw,
  or both handles are stored) and let the stylesheet operation succeed with the result
  \<open>c\<close>. For every emitted file of \<open>c\<close> under the stylesheet bundle prefix whose path
  ends in \<open>.css\<close> or in \<open>.css.map\<close>, \<open>compile\<close> issues the write of its contents to
  its path; the disk holds these contents at this path when \<open>compile\<close> returns,
  provided that the write succeeds, that no other emitted file with this path has
  other contents, and that neither the bundler nor the manifest writer writes this
  path. The bundle path that the manifest builder receives, in every call of it that
  \<open>compile\<close> issues, is the path of the last emitted file under the prefix ending in
  \<open>.css\<close>: it is the path of the stylesheet file when the build emits one such path,
  and it is undefined when the build emits none; a \<open>compile\<close> that succeeds calls the
  manifest builder. Every file write that a \<open>compile\<close> call issues, whatever the
  outcome of its operations, is the write of the contents of an emitted file of the
  stylesheet result whose path is under the prefix and ends in \<open>.css\<close> or \<open>.css.map\<close>:
  no emitted file under another prefix is written.
\<close>

theorem stylesheet_output_files_processed:
  "((getExternals h cfg = Inr ext \<or> (appCompiler st \<noteq> None \<and> cssCompiler st \<noteq> None))
      \<and> cssBuildOutcome env = Inr c \<longrightarrow>
      (\<forall>f \<in> set (emittedFiles c).
         startsWith (path f) (cssBundlePathPrefix h cfg)
         \<and> (endsWith (path f) ''.css'' \<or> endsWith (path f) ''.css.map'') \<longrightarrow>
           FsWriteFile (path f) (contents f)
             \<in> set (issuedCalls st (snd (compile h cfg opts env st)))
           \<and> (fsWriteFileOutcome env (path f) (contents f) = None
               \<and> (\<forall>g \<in> set (emittedFiles c). path g = path f \<longrightarrow> contents g = contents f)
               \<and> path f \<notin> fst ` set (appBuildWrites env)
               \<and> (\<forall>x. WriteFileSafe (path f) x
                       \<notin> set (issuedCalls st (snd (compile h cfg opts env st))))
              \<longrightarrow> disk (snd (compile h cfg opts env st)) (path f) = Some (contents f)))
      \<and> (\<forall>mf x. CreateAssetsManifest mf x
                   \<in> set (issuedCalls st (snd (compile h cfg opts env st))) \<longrightarrow>
            x = (case rev (filter (\<lambda>f. startsWith (path f) (cssBundlePathPrefix h cfg)
                                       \<and> endsWith (path f) ''.css'') (emittedFiles c)) of
                   [] \<Rightarrow> None
                 | f # _ \<Rightarrow> Some (path f)))
      \<and> (\<forall>f \<in> set (emittedFiles c).
            (startsWith (path f) (cssBundlePathPrefix h cfg) \<and> endsWith (path f) ''.css'')
            \<and> (\<forall>g \<in> set (emittedFiles c).
                  startsWith (path g) (cssBundlePathPrefix h cfg) \<and> endsWith (path g) ''.css''
                  \<longrightarrow> path g = path f)
            \<longrightarrow> (\<forall>mf x. CreateAssetsManifest mf x
                           \<in> set (issuedCalls st (snd (compile h cfg opts env st)))
                    \<longrightarrow> x = Some (path f)))
      \<and> ((\<forall>g \<in> set (emittedFiles c).
             \<not> (startsWith (path g) (cssBundlePathPrefix h cfg) \<and> endsWith (path g) ''.css''))
          \<longrightarrow> (\<forall>mf x. CreateAssetsManifest mf x
                         \<in> set (issuedCalls st (snd (compile h cfg opts env st)))
                  \<longrightarrow> x = None))
      \<and> (fst (compile h cfg opts env st) = Inr () \<longrightarrow>
            (\<exists>mf x. CreateAssetsManifest mf x
                      \<in> set (issuedCalls st (snd (compile h cfg opts env st))))))
   \<and> (\<forall>p x. FsWriteFile p x \<in> set (issuedCalls st (snd (compile h cfg opts env st))) \<longrightarrow>
         (\<exists>c f. cssBuildOutcome env = Inr c \<and> f \<in> set (emittedFiles c)
            \<and> path f = p \<and> contents f = x
            \<and> startsWith p (cssBundlePathPrefix h cfg)
            \<and> (endsWith p ''.css'' \<or> endsWith p ''.css.map'')))"
proof (intro conjI impI ballI allI)
  fix f
  assume A: "(getExternals h cfg = Inr ext \<or> (appCompiler st \<noteq> None \<and> cssCompiler st \<noteq> None))
      \<and> cssBuildOutcome env = Inr c"
    and f: "f \<in> set (emittedFiles c)"
    and s: "startsWith (path f) (cssBundlePathPrefix h cfg)
         \<and> (endsWith (path f) ''.css'' \<or> endsWith (path f) ''.css.map'')"
  from A have g: "getExternals h cfg = Inr ext \<or> (appCompiler st \<noteq> None \<and> cssCompiler st \<noteq> None)"
    and c: "cssBuildOutcome env = Inr c"
    by blast+
  from s have s1: "startsWith (path f) (cssBundlePathPrefix h cfg)"
    and s3: "endsWith (path f) ''.css'' \<or> endsWith (path f) ''.css.map''"
    by blast+
  show "FsWriteFile (path f) (contents f)
      \<in> set (issuedCalls st (snd (compile h cfg opts env st)))"
    by (rule stylesheet_file_write_issued [OF g c f s1 s3])
  assume D: "fsWriteFileOutcome env (path f) (contents f) = None
       \<and> (\<forall>g \<in> set (emittedFiles c). path g = path f \<longrightarrow> contents g = contents f)
       \<and> path f \<notin> fst ` set (appBuildWrites env)
       \<and> (\<forall>x. WriteFileSafe (path f) x
               \<notin> set (issuedCalls st (snd (compile h cfg opts env st))))"
  from build_calls_issued [OF g] obtain ac bc where
    b: "appBuildCall h cfg opts st = Inr ac" "cssBuildCall h cfg opts st = Inr bc"
    by blast
  from D have d: "fsWriteFileOutcome env (path f) (contents f) = None"
    "\<forall>g \<in> set (emittedFiles c). path g = path f \<longrightarrow> contents g = contents f"
    "path f \<notin> fst ` set (appBuildWrites env)"
    "\<forall>x. WriteFileSafe (path f) x \<notin> set (issuedCalls st (snd (compile h cfg opts env st)))"
    by blast+
  show "disk (snd (compile h cfg opts env st)) (path f) = Some (contents f)"
    by (rule compile_disk_written [OF b c f s1 s3 d])
next
  fix mf x
  assume A: "(getExternals h cfg = Inr ext \<or> (appCompiler st \<noteq> None \<and> cssCompiler st \<noteq> None))
      \<and> cssBuildOutcome env = Inr c"
    and m: "CreateAssetsManifest mf x \<in> set (issuedCalls st (snd (compile h cfg opts env st)))"
  show "x = (case rev (filter (\<lambda>f. startsWith (path f) (cssBundlePathPrefix h cfg)
                                       \<and> endsWith (path f) ''.css'') (emittedFiles c)) of
                   [] \<Rightarrow> None
                 | f # _ \<Rightarrow> Some (path f))"
    by (rule manifest_call_bundle_path [OF conjunct2 [OF A] m])
next
  fix f mf x
  assume A: "(getExternals h cfg = Inr ext \<or> (appCompiler st \<noteq> None \<and> cssCompiler st \<noteq> None))
      \<and> cssBuildOutcome env = Inr c"
    and f: "f \<in> set (emittedFiles c)"
    and s: "(startsWith (path f) (cssBundlePathPrefix h cfg) \<and> endsWith (path f) ''.css'')
            \<and> (\<forall>g \<in> set (emittedFiles c).
                  startsWith (path g) (cssBundlePathPrefix h cfg) \<and> endsWith (path g) ''.css''
                  \<longrightarrow> path g = path f)"
    and m: "CreateAssetsManifest mf x \<in> set (issuedCalls st (snd (compile h cfg opts env st)))"
  from manifest_call_bundle_path [OF conjunct2 [OF A] m]
    bundle_path_unique [OF f conjunct1 [OF s] conjunct2 [OF s]]
  show "x = Some (path f)" by simp
next
  fix mf x
  assume A: "(getExternals h cfg = Inr ext \<or> (appCompiler st \<noteq> None \<and> cssCompiler st \<noteq> None))
      \<and> cssBuildOutcome env = Inr c"
    and n: "\<forall>g \<in> set (emittedFiles c).
             \<not> (startsWith (path g) (cssBundlePathPrefix h cfg) \<and> endsWith (path g) ''.css'')"
    and m: "CreateAssetsManifest mf x \<in> set (issuedCalls st (snd (compile h cfg opts env st)))"
  from manifest_call_bundle_path [OF conjunct2 [OF A] m] bundle_path_none [OF n]
  show "x = None" by simp
next
  assume "fst (compile h cfg opts env st) = Inr ()"
  from compile_ok_manifest_call [OF this]
  show "\<exists>mf x. CreateAssetsManifest mf x
                      \<in> set (issuedCalls st (snd (compile h cfg opts env st)))"
    by blast
next
  fix p x
  assume "FsWriteFile p x \<in> set (issuedCalls st (snd (compile h cfg opts env st)))"
  from compile_fsWrite_only [OF this] obtain c where
    c: "cssBuildOutcome env = Inr c"
    and w: "(p, x) \<in> set (snd (processOutputFiles (cssBundlePathPrefix h cfg) None
        (emittedFiles c)))"
    by blast
  from writes_same_path [OF w] obtain f where "f \<in> set (emittedFiles c)"
    "path f = p" "contents f = x" "startsWith p (cssBundlePathPrefix h cfg)"
    "endsWith p ''.css'' \<or> endsWith p ''.css.map''"
    by blast
  with c show "\<exists>c f. cssBuildOutcome env = Inr c \<and> f \<in> set (emittedFiles c)
            \<and> path f = p \<and> contents f = x
            \<and> startsWith p (cssBundlePathPrefix h cfg)
            \<and> (endsWith p ''.css'' \<or> endsWith p ''.css.map'')"
    by blast
qed

theorem stylesheet_output_files_processed_witness:
  "FsWriteFile ''/build/css-bundle-X7.css'' ''.a{}''
      \<in> set (issuedCalls (createBrowserCompiler Map.empty)
          (snd (compile (exampleHost [''react'']) exampleConfig exampleOptions exampleEnv
             (createBrowserCompiler Map.empty))))
   \<and> disk (snd (compile (exampleHost [''react'']) exampleConfig exampleOptions exampleEnv
             (createBrowserCompiler Map.empty))) ''/build/css-bundle-X7.css'' = Some ''.a{}''
   \<and> FsWriteFile ''/build/css-bundle-X7.css.map'' ''{}''
      \<in> set (issuedCalls (createBrowserCompiler Map.empty)
          (snd (compile (exampleHost [''react'']) exampleConfig exampleOptions exampleEnv
             (createBrowserCompiler Map.empty))))
   \<and> disk (snd (compile (exampleHost [''react'']) exampleConfig exampleOptions exampleEnv
             (createBrowserCompiler Map.empty))) ''/build/css-bundle-X7.css.map'' = Some ''{}''
   \<and> fst (compile (exampleHost [''react'']) exampleConfig exampleOptions exampleEnv
          (createBrowserCompiler Map.empty)) = Inr ()
   \<and> (\<exists>mf. CreateAssetsManifest mf (Some ''/build/css-bundle-X7.css'')
         \<in> set (issuedCalls (createBrowserCompiler Map.empty)
             (snd (compile (exampleHost [''react'']) exampleConfig exampleOptions exampleEnv
                (createBrowserCompiler Map.empty)))))
   \<and> FsWriteFile ''/build/_assets/logo-A1.svg'' ''<svg/>''
      \<notin> set (issuedCalls (createBrowserCompiler Map.empty)
          (snd (compile (exampleHost [''react'']) exampleConfig exampleOptions exampleEnv
             (createBrowserCompiler Map.empty))))
   \<and> fst (compile (exampleHost [''react'']) exampleConfig exampleOptions exampleNoStylesheetEnv
          (createBrowserCompiler Map.empty)) = Inr ()
   \<and> (\<exists>mf. CreateAssetsManifest mf None
         \<in> set (issuedCalls (createBrowserCompiler Map.empty)
             (snd (compile (exampleHost [''react'']) exampleConfig exampleOptions
                exampleNoStylesheetEnv (createBrowserCompiler Map.empty)))))"
proof -
  let ?H = "exampleHost [''react'']"
  let ?S = "createBrowserCompiler Map.empty"
  let ?S' = "snd (compile ?H exampleConfig exampleOptions exampleEnv ?S)"
  let ?N' = "snd (compile ?H exampleConfig exampleOptions exampleNoStylesheetEnv ?S)"
  let ?pre = "cssBundlePathPrefix ?H exampleConfig"
  let ?f1 = "\<lparr> path = ''/build/css-bundle-X7.css'', contents = ''.a{}'' \<rparr>"
  let ?f2 = "\<lparr> path = ''/build/css-bundle-X7.css.map'', contents = ''{}'' \<rparr>"
  note T = stylesheet_output_files_processed
    [where h = ?H and cfg = exampleConfig and opts = exampleOptions and env = exampleEnv
       and st = ?S and ext = "[''fs'', ''path'', ''http'']" and c = exampleCssResult]
  note U = stylesheet_output_files_processed
    [where h = ?H and cfg = exampleConfig and opts = exampleOptions
       and env = exampleNoStylesheetEnv and st = ?S and ext = "[''fs'', ''path'', ''http'']"
       and c = "exampleCssResult\<lparr>outputFiles := None\<rparr>"]
  have pre: "?pre = ''/build/css-bundle''"
    by (simp add: cssBundlePathPrefix_def exampleHost_def exampleConfig_def)
  have A: "(getExternals ?H exampleConfig = Inr [''fs'', ''path'', ''http'']
        \<or> (appCompiler ?S \<noteq> None \<and> cssCompiler ?S \<noteq> None))
      \<and> cssBuildOutcome exampleEnv = Inr exampleCssResult"
    by (simp add: example_getExternals exampleEnv_def)
  have B: "(getExternals ?H exampleConfig = Inr [''fs'', ''path'', ''http'']
        \<or> (appCompiler ?S \<noteq> None \<and> cssCompiler ?S \<noteq> None))
      \<and> cssBuildOutcome exampleNoStylesheetEnv = Inr (exampleCssResult\<lparr>outputFiles := None\<rparr>)"
    by (simp add: example_getExternals exampleNoStylesheetEnv_def)
  have files: "emittedFiles exampleCssResult =
      [?f1, ?f2, \<lparr> path = ''/build/css-bundle-X7.js'', contents = ''//'' \<rparr>,
       \<lparr> path = ''/build/_assets/logo-A1.svg'', contents = ''<svg/>'' \<rparr>]"
    by (simp add: emittedFiles_def exampleCssResult_def)
  have m1: "?f1 \<in> set (emittedFiles exampleCssResult)"
    and m2: "?f2 \<in> set (emittedFiles exampleCssResult)"
    by (simp_all add: files)
  have p1: "startsWith (path ?f1) ?pre
      \<and> (endsWith (path ?f1) ''.css'' \<or> endsWith (path ?f1) ''.css.map'')"
    and p2: "startsWith (path ?f2) ?pre
      \<and> (endsWith (path ?f2) ''.css'' \<or> endsWith (path ?f2) ''.css.map'')"
    unfolding pre by (simp_all add: startsWith_def endsWith_rev)
  have nw: "\<forall>x. WriteFileSafe (path ?f1) x \<notin> set (issuedCalls ?S ?S')"
    "\<forall>x. WriteFileSafe (path ?f2) x \<notin> set (issuedCalls ?S ?S')"
    using example_manifest_write_path by fastforce+
  have w1: "fsWriteFileOutcome exampleEnv (path ?f1) (contents ?f1) = None
      \<and> (\<forall>g \<in> set (emittedFiles exampleCssResult). path g = path ?f1 \<longrightarrow> contents g = contents ?f1)
      \<and> path ?f1 \<notin> fst ` set (appBuildWrites exampleEnv)
      \<and> (\<forall>x. WriteFileSafe (path ?f1) x \<notin> set (issuedCalls ?S ?S'))"
    and w2: "fsWriteFileOutcome exampleEnv (path ?f2) (contents ?f2) = None
      \<and> (\<forall>g \<in> set (emittedFiles exampleCssResult). path g = path ?f2 \<longrightarrow> contents g = contents ?f2)
      \<and> path ?f2 \<notin> fst ` set (appBuildWrites exampleEnv)
      \<and> (\<forall>x. WriteFileSafe (path ?f2) x \<notin> set (issuedCalls ?S ?S'))"
    using nw by (simp_all add: files exampleEnv_def)
  have o1: "(startsWith (path ?f1) ?pre \<and> endsWith (path ?f1) ''.css'')
      \<and> (\<forall>g \<in> set (emittedFiles exampleCssResult).
            startsWith (path g) ?pre \<and> endsWith (path g) ''.css'' \<longrightarrow> path g = path ?f1)"
    unfolding pre by (simp add: files startsWith_def endsWith_rev)
  have n: "\<not> startsWith ''/build/_assets/logo-A1.svg'' ?pre"
    unfolding pre by (simp add: startsWith_def)
  have e: "\<forall>g \<in> set (emittedFiles (exampleCssResult\<lparr>outputFiles := None\<rparr>)).
      \<not> (startsWith (path g) ?pre \<and> endsWith (path g) ''.css'')"
    by (simp add: emittedFiles_def)
  note ok = example_compile_fst
  note okn = example_compile_no_stylesheet
  from T A m1 p1 have a1: "FsWriteFile (path ?f1) (contents ?f1) \<in> set (issuedCalls ?S ?S')"
    by blast
  from T A m1 p1 w1 have a2: "disk ?S' (path ?f1) = Some (contents ?f1)"
    by blast
  from T A m2 p2 have a3: "FsWriteFile (path ?f2) (contents ?f2) \<in> set (issuedCalls ?S ?S')"
    by blast
  from T A m2 p2 w2 have a4: "disk ?S' (path ?f2) = Some (contents ?f2)"
    by blast
  from T A ok obtain mf x where mx: "CreateAssetsManifest mf x \<in> set (issuedCalls ?S ?S')"
    by blast
  from T A m1 o1 mx have "x = Some (path ?f1)"
    by blast
  with mx have a5: "\<exists>mf. CreateAssetsManifest mf (Some ''/build/css-bundle-X7.css'')
      \<in> set (issuedCalls ?S ?S')"
    by auto
  have a6: "FsWriteFile ''/build/_assets/logo-A1.svg'' ''<svg/>'' \<notin> set (issuedCalls ?S ?S')"
  proof
    assume "FsWriteFile ''/build/_assets/logo-A1.svg'' ''<svg/>'' \<in> set (issuedCalls ?S ?S')"
    with T have "startsWith ''/build/_assets/logo-A1.svg'' ?pre"
      by blast
    with n show False ..
  qed
  from U B okn obtain mf' x' where mx': "CreateAssetsManifest mf' x' \<in> set (issuedCalls ?S ?N')"
    by blast
  from U B e mx' have "x' = None"
    by blast
  with mx' have a7: "\<exists>mf. CreateAssetsManifest mf None \<in> set (issuedCalls ?S ?N')"
    by auto
  from a1 a2 a3 a4 ok a5 a6 okn a7 show ?thesis by simp
qed

section \<open>The incremental handles\<close>

lemma fullBuilds_fsWrites: "filter isFullBuild (map (\<lambda>(p, c). FsWriteFile p c) ws) = []"
  by (induction ws) (simp_all add: case_prod_beta)

lemma compile_first_calls:
  assumes "appBuildCall h cfg opts st = Inr ac" and "cssBuildCall h cfg opts st = Inr cc"
  shows "\<exists>rest. issuedCalls st (snd (compile h cfg opts env st)) = [ac, cc] @ rest
     \<and> filter isFullBuild rest = []"
proof -
  let ?r = "fst (compile h cfg opts env st)"
  let ?st' = "snd (compile h cfg opts env st)"
  have c: "compile h cfg opts env st = (?r, ?st')" by simp
  from c show ?thesis
  proof (cases rule: compile_cases)
    case (appConfig e)
    with assms show ?thesis by simp
  next
    case (cssConfig ac' e)
    with assms show ?thesis by simp
  next
    case (fanInFailed ac' cc' e)
    with assms have eq: "ac' = ac" "cc' = cc" by simp_all
    note i = fanInFailed_issued [OF fanInFailed(5)]
    show ?thesis
    proof (cases "cssBuildOutcome env")
      case (Inl e')
      with i eq have "issuedCalls st ?st' = [ac, cc] @ []" by simp
      then show ?thesis by (intro exI [of _ "[]"]) simp
    next
      case (Inr c')
      let ?ws = "map (\<lambda>(p, c). FsWriteFile p c)
          (snd (processOutputFiles (cssBundlePathPrefix h cfg) None (emittedFiles c')))"
      from Inr i eq have "issuedCalls st ?st' = [ac, cc] @ ?ws" by simp
      then show ?thesis
        by (intro exI [of _ ?ws]) (simp add: fullBuilds_fsWrites)
    qed
  next
    case (fanInOk ac' cc' a c cbp)
    with assms have eq: "ac' = ac" "cc' = cc" by simp_all
    note i = fanInOk_issued [OF fanInOk(4) fanInOk(5)]
    let ?rest = "map (\<lambda>(p, c). FsWriteFile p c)
                   (snd (processOutputFiles (cssBundlePathPrefix h cfg) None (emittedFiles c)))
        @ CreateAssetsManifest (metafile a) cbp #
       (case createAssetsManifestOutcome env (metafile a) cbp of
          Inl e \<Rightarrow> []
        | Inr m \<Rightarrow>
            [ChannelWrite (length (heap st)),
             WriteFileSafe (path_join h (assetsBuildDirectory cfg) (manifestFilename h m))
               (''window.__remixManifest=''
                  @ JSON_stringify h (m\<lparr>url := Some (publicPath cfg @ manifestFilename h m)\<rparr>)
                  @ '';'')])"
    from i eq have "issuedCalls st ?st' = [ac, cc] @ ?rest" by simp
    moreover have "filter isFullBuild ?rest = []"
      by (simp add: fullBuilds_fsWrites split: sum.splits)
    ultimately show ?thesis by blast
  qed
qed

lemma appBuildCall_full:
  assumes "appCompiler st = None" and "createEsbuildConfig h App cfg opts = Inr ca"
  shows "appBuildCall h cfg opts st =
     Inr (EsbuildBuild App (ca\<lparr>metafileOption := Some True, incrementalOption := Some True\<rparr>))"
  using assms by (simp add: appBuildCall_def)

lemma cssBuildCall_full:
  assumes "cssCompiler st = None" and "createEsbuildConfig h Css cfg opts = Inr cc"
  shows "cssBuildCall h cfg opts st =
     Inr (EsbuildBuild Css (cc\<lparr>metafileOption := Some True, writeOption := Some False,
                               incrementalOption := Some True\<rparr>))"
  using assms by (simp add: cssBuildCall_def)

lemma appBuildCall_rebuild:
  "appCompiler st = Some ha \<Longrightarrow> appBuildCall h cfg opts st = Inr (Rebuild App ha)"
  by (simp add: appBuildCall_def)

lemma cssBuildCall_rebuild:
  "cssCompiler st = Some hc \<Longrightarrow> cssBuildCall h cfg opts st = Inr (Rebuild Css hc)"
  by (simp add: cssBuildCall_def)

lemma stylesheet_writes_result:
  "fst (fsWriteFiles env (snd (processOutputFiles pre cbp fs)) dk) = None \<longleftrightarrow>
     (\<forall>f \<in> set fs. startsWith (path f) pre
          \<and> (endsWith (path f) ''.css'' \<or> endsWith (path f) ''.css.map'')
        \<longrightarrow> fsWriteFileOutcome env (path f) (contents f) = None)"
  unfolding fsWriteFiles_result processOutputFiles_writes by auto

lemma settleBuilds_settled:
  assumes "cssBuildOutcome env = Inr c"
  shows "(\<forall>f \<in> set (emittedFiles c). startsWith (path f) (cssBundlePathPrefix h cfg)
            \<and> (endsWith (path f) ''.css'' \<or> endsWith (path f) ''.css.map'')
          \<longrightarrow> fsWriteFileOutcome env (path f) (contents f) = None)
       \<Longrightarrow> fst (settleBuilds h cfg env ac cc st) =
             Inr (c, fst (processOutputFiles (cssBundlePathPrefix h cfg) None (emittedFiles c)))"
    and "(\<exists>f \<in> set (emittedFiles c). startsWith (path f) (cssBundlePathPrefix h cfg)
            \<and> (endsWith (path f) ''.css'' \<or> endsWith (path f) ''.css.map'')
            \<and> fsWriteFileOutcome env (path f) (contents f) \<noteq> None)
       \<Longrightarrow> isl (fst (settleBuilds h cfg env ac cc st))"
proof -
  let ?st0 = "st\<lparr>log := log st @ [ac, cc],
                 disk := bundlerWrites (appWritesBefore env) (disk st)\<rparr>"
  let ?w = "fst (fsWriteFiles env
      (snd (processOutputFiles (cssBundlePathPrefix h cfg) None (emittedFiles c))) (disk ?st0))"
  have s: "fst (settleBuilds h cfg env ac cc st) =
     (case ?w of
        Some e \<Rightarrow> Inl e
      | None \<Rightarrow> Inr (c, fst (processOutputFiles (cssBundlePathPrefix h cfg) None (emittedFiles c))))"
    by (simp add: settleBuilds_eq cssBuildPromise_settled [OF assms])
  {
    assume "\<forall>f \<in> set (emittedFiles c). startsWith (path f) (cssBundlePathPrefix h cfg)
            \<and> (endsWith (path f) ''.css'' \<or> endsWith (path f) ''.css.map'')
          \<longrightarrow> fsWriteFileOutcome env (path f) (contents f) = None"
    then have "?w = None"
      by (simp only: stylesheet_writes_result)
    then show "fst (settleBuilds h cfg env ac cc st) =
             Inr (c, fst (processOutputFiles (cssBundlePathPrefix h cfg) None (emittedFiles c)))"
      by (simp add: s)
  }
  {
    assume "\<exists>f \<in> set (emittedFiles c). startsWith (path f) (cssBundlePathPrefix h cfg)
            \<and> (endsWith (path f) ''.css'' \<or> endsWith (path f) ''.css.map'')
            \<and> fsWriteFileOutcome env (path f) (contents f) \<noteq> None"
    then have "?w \<noteq> None"
      by (simp only: stylesheet_writes_result) auto
    then obtain e where "?w = Some e" by blast
    then show "isl (fst (settleBuilds h cfg env ac cc st))"
      by (simp add: s)
  }
qed

lemma compile_handles_replaced:
  assumes "appBuildCall h cfg opts st = Inr ac" and "cssBuildCall h cfg opts st = Inr cc"
    and "appBuildOutcome env = Inr a" and "cssBuildOutcome env = Inr c"
    and "\<forall>f \<in> set (emittedFiles c). startsWith (path f) (cssBundlePathPrefix h cfg)
            \<and> (endsWith (path f) ''.css'' \<or> endsWith (path f) ''.css.map'')
          \<longrightarrow> fsWriteFileOutcome env (path f) (contents f) = None"
  shows "appCompiler (snd (compile h cfg opts env st)) = Some a
     \<and> cssCompiler (snd (compile h cfg opts env st)) = Some c"
proof -
  let ?r = "fst (compile h cfg opts env st)"
  let ?st' = "snd (compile h cfg opts env st)"
  have c: "compile h cfg opts env st = (?r, ?st')" by simp
  note ok = settleBuilds_settled(1) [OF assms(4) assms(5)]
  from c show ?thesis
  proof (cases rule: compile_cases)
    case (appConfig e)
    with assms show ?thesis by simp
  next
    case (cssConfig ac' e)
    with assms show ?thesis by simp
  next
    case (fanInFailed ac' cc' e)
    from fanInFailed(3) show ?thesis
      by (simp add: ok assms(3) promiseAll_def)
  next
    case (fanInOk ac' cc' a' c' cbp)
    from fanInOk(3) assms(3) have a: "a' = a" by simp
    from settleBuilds_result [OF fanInOk(4)] assms(4) have c': "c' = c" by simp
    from fanInOk(5) have "?st' = snd (publishManifest h cfg env (metafile a') cbp
         ((snd (settleBuilds h cfg env ac' cc' st))
            \<lparr>appCompiler := Some a', cssCompiler := Some c'\<rparr>))"
      by (metis snd_conv)
    then show ?thesis
      by (simp add: publishManifest_handles a c')
  qed
qed

lemma build_call_config:
  "appBuildCall h cfg opts st = Inr ac \<Longrightarrow> appCompiler st \<noteq> None \<or> \<not> isl (getExternals h cfg)"
  "cssBuildCall h cfg opts st = Inr cc \<Longrightarrow> cssCompiler st \<noteq> None \<or> \<not> isl (getExternals h cfg)"
  by (auto simp: appBuildCall_def cssBuildCall_def createEsbuildConfig_def Let_def
      split: option.splits sum.splits)

lemma compile_handles_kept:
  assumes "isl (appBuildOutcome env) \<or> isl (cssBuildOutcome env)
     \<or> (cssBuildOutcome env = Inr c
         \<and> (\<exists>f \<in> set (emittedFiles c). startsWith (path f) (cssBundlePathPrefix h cfg)
              \<and> (endsWith (path f) ''.css'' \<or> endsWith (path f) ''.css.map'')
              \<and> fsWriteFileOutcome env (path f) (contents f) \<noteq> None))
     \<or> (isl (getExternals h cfg) \<and> (appCompiler st = None \<or> cssCompiler st = None))"
  shows "appCompiler (snd (compile h cfg opts env st)) = appCompiler st
     \<and> cssCompiler (snd (compile h cfg opts env st)) = cssCompiler st"
proof -
  let ?r = "fst (compile h cfg opts env st)"
  let ?st' = "snd (compile h cfg opts env st)"
  have c: "compile h cfg opts env st = (?r, ?st')" by simp
  from c show ?thesis
  proof (cases rule: compile_cases)
    case (appConfig e)
    then show ?thesis by simp
  next
    case (cssConfig ac' e)
    show ?thesis
      unfolding cssConfig(4) by simp
  next
    case (fanInFailed ac' cc' e)
    show ?thesis
      unfolding fanInFailed(5) by (simp add: settleBuilds_fields)
  next
    case (fanInOk ac' cc' a' c' cbp)
    note res = settleBuilds_result [OF fanInOk(4)]
    have 1: "\<not> isl (appBuildOutcome env)" "\<not> isl (cssBuildOutcome env)"
      using fanInOk(3) res by simp_all
    have 2: "\<not> (cssBuildOutcome env = Inr c
         \<and> (\<exists>f \<in> set (emittedFiles c). startsWith (path f) (cssBundlePathPrefix h cfg)
              \<and> (endsWith (path f) ''.css'' \<or> endsWith (path f) ''.css.map'')
              \<and> fsWriteFileOutcome env (path f) (contents f) \<noteq> None))"
    proof
      assume a: "cssBuildOutcome env = Inr c
         \<and> (\<exists>f \<in> set (emittedFiles c). startsWith (path f) (cssBundlePathPrefix h cfg)
              \<and> (endsWith (path f) ''.css'' \<or> endsWith (path f) ''.css.map'')
              \<and> fsWriteFileOutcome env (path f) (contents f) \<noteq> None)"
      from settleBuilds_settled(2) [OF conjunct1 [OF a] conjunct2 [OF a]]
      have "isl (fst (settleBuilds h cfg env ac' cc' st))" .
      with fanInOk(4) show False by simp
    qed
    have 3: "\<not> (isl (getExternals h cfg) \<and> (appCompiler st = None \<or> cssCompiler st = None))"
      using build_call_config(1) [OF fanInOk(1)] build_call_config(2) [OF fanInOk(2)] by blast
    from assms 1 2 3 show ?thesis by blast
  qed
qed

lemma compile_handles_stay:
  "appCompiler st \<noteq> None \<Longrightarrow> appCompiler (snd (compile h cfg opts env st)) \<noteq> None"
  "cssCompiler st \<noteq> None \<Longrightarrow> cssCompiler (snd (compile h cfg opts env st)) \<noteq> None"
proof -
  let ?r = "fst (compile h cfg opts env st)"
  let ?st' = "snd (compile h cfg opts env st)"
  have c: "compile h cfg opts env st = (?r, ?st')" by simp
  have "(appCompiler ?st' = appCompiler st \<and> cssCompiler ?st' = cssCompiler st)
      \<or> (appCompiler ?st' \<noteq> None \<and> cssCompiler ?st' \<noteq> None)"
    using c
  proof (cases rule: compile_cases)
    case (appConfig e)
    then show ?thesis by simp
  next
    case (cssConfig ac' e)
    show ?thesis
      unfolding cssConfig(4) by simp
  next
    case (fanInFailed ac' cc' e)
    show ?thesis
      unfolding fanInFailed(5) by (simp add: settleBuilds_fields)
  next
    case (fanInOk ac' cc' a' c' cbp)
    from fanInOk(5) have "?st' = snd (publishManifest h cfg env (metafile a') cbp
         ((snd (settleBuilds h cfg env ac' cc' st))
            \<lparr>appCompiler := Some a', cssCompiler := Some c'\<rparr>))"
      by (metis snd_conv)
    then show ?thesis
      by (simp add: publishManifest_handles)
  qed
  then show "appCompiler st \<noteq> None \<Longrightarrow> appCompiler ?st' \<noteq> None"
    and "cssCompiler st \<noteq> None \<Longrightarrow> cssCompiler ?st' \<noteq> None"
    by auto
qed

lemma compile_log_prefix:
  "\<exists>xs. log (snd (compile h cfg opts env st)) = log st @ xs"
proof -
  let ?r = "fst (compile h cfg opts env st)"
  let ?st' = "snd (compile h cfg opts env st)"
  have c: "compile h cfg opts env st = (?r, ?st')" by simp
  from c show ?thesis
  proof (cases rule: compile_cases)
    case (appConfig e)
    then show ?thesis by simp
  next
    case (cssConfig ac' e)
    show ?thesis
      unfolding cssConfig(4) by simp
  next
    case (fanInFailed ac' cc' e)
    show ?thesis
      unfolding fanInFailed(5) settleBuilds_log by blast
  next
    case (fanInOk ac' cc' a' c' cbp)
    from fanInOk(5) have "?st' = snd (publishManifest h cfg env (metafile a') cbp
         ((snd (settleBuilds h cfg env ac' cc' st))
            \<lparr>appCompiler := Some a', cssCompiler := Some c'\<rparr>))"
      by (metis snd_conv)
    then obtain ys where
      "log ?st' = log (snd (settleBuilds h cfg env ac' cc' st)) @ ys"
      by (simp add: publishManifest_log)
    moreover obtain xs where "log (snd (settleBuilds h cfg env ac' cc' st)) = log st @ xs"
      unfolding settleBuilds_log by blast
    ultimately have "log ?st' = log st @ (xs @ ys)" by simp
    then show ?thesis by blast
  qed
qed

lemma issuedCalls_trans:
  "log st1 = log st @ xs \<Longrightarrow> log st2 = log st1 @ ys \<Longrightarrow>
     issuedCalls st st2 = issuedCalls st st1 @ issuedCalls st1 st2"
  by (simp add: issuedCalls_def)

lemma compileAll_log_prefix:
  "\<exists>xs. log (compileAll h cfg opts envs st) = log st @ xs"
proof (induction envs arbitrary: st)
  case Nil
  then show ?case by simp
next
  case (Cons env envs)
  from compile_log_prefix [of h cfg opts env st] obtain xs where
    "log (snd (compile h cfg opts env st)) = log st @ xs" by blast
  moreover from Cons.IH [of "snd (compile h cfg opts env st)"] obtain ys where
    "log (compileAll h cfg opts envs (snd (compile h cfg opts env st)))
       = log (snd (compile h cfg opts env st)) @ ys" by blast
  ultimately show ?case by simp
qed

lemma compileAll_rebuilds:
  assumes "appCompiler st \<noteq> None" and "cssCompiler st \<noteq> None"
  shows "filter isFullBuild (issuedCalls st (compileAll h cfg opts envs st)) = []
     \<and> appCompiler (compileAll h cfg opts envs st) \<noteq> None
     \<and> cssCompiler (compileAll h cfg opts envs st) \<noteq> None"
  using assms
proof (induction envs arbitrary: st)
  case Nil
  then show ?case by (simp add: issuedCalls_def)
next
  case (Cons env envs)
  let ?st1 = "snd (compile h cfg opts env st)"
  from Cons.prems obtain ha hc where hs: "appCompiler st = Some ha" "cssCompiler st = Some hc"
    by auto
  from compile_first_calls [OF appBuildCall_rebuild [OF hs(1)] cssBuildCall_rebuild [OF hs(2)]]
  obtain rest where "issuedCalls st ?st1 = [Rebuild App ha, Rebuild Css hc] @ rest"
    and "filter isFullBuild rest = []"
    by blast
  then have 1: "filter isFullBuild (issuedCalls st ?st1) = []" by simp
  note h1 = compile_handles_stay(1) [OF Cons.prems(1), of h cfg opts env]
    compile_handles_stay(2) [OF Cons.prems(2), of h cfg opts env]
  note ih = Cons.IH [OF h1]
  from compile_log_prefix [of h cfg opts env st] obtain xs where
    xs: "log ?st1 = log st @ xs" by blast
  from compileAll_log_prefix [of h cfg opts envs ?st1] obtain ys where
    ys: "log (compileAll h cfg opts envs ?st1) = log ?st1 @ ys" by blast
  have "issuedCalls st (compileAll h cfg opts envs ?st1)
      = issuedCalls st ?st1 @ issuedCalls ?st1 (compileAll h cfg opts envs ?st1)"
    by (rule issuedCalls_trans [OF xs ys])
  with 1 ih show ?case by simp
qed

lemma compile_handles_both:
  assumes "appCompiler st = None \<longleftrightarrow> cssCompiler st = None"
  shows "appCompiler (snd (compile h cfg opts env st)) = None
     \<longleftrightarrow> cssCompiler (snd (compile h cfg opts env st)) = None"
proof -
  let ?r = "fst (compile h cfg opts env st)"
  let ?st' = "snd (compile h cfg opts env st)"
  have c: "compile h cfg opts env st = (?r, ?st')" by simp
  from c show ?thesis
  proof (cases rule: compile_cases)
    case (appConfig e)
    with assms show ?thesis by simp
  next
    case (cssConfig ac' e)
    have "appCompiler ?st' = appCompiler st" "cssCompiler ?st' = cssCompiler st"
      unfolding cssConfig(4) by simp_all
    with assms show ?thesis by simp
  next
    case (fanInFailed ac' cc' e)
    have "appCompiler ?st' = appCompiler st" "cssCompiler ?st' = cssCompiler st"
      unfolding fanInFailed(5) by (simp_all add: settleBuilds_fields)
    with assms show ?thesis by simp
  next
    case (fanInOk ac' cc' a' c' cbp)
    from fanInOk(5) have "?st' = snd (publishManifest h cfg env (metafile a') cbp
         ((snd (settleBuilds h cfg env ac' cc' st))
            \<lparr>appCompiler := Some a', cssCompiler := Some c'\<rparr>))"
      by (metis snd_conv)
    then have "appCompiler ?st' = Some a'" "cssCompiler ?st' = Some c'"
      by (simp_all add: publishManifest_handles)
    then show ?thesis by simp
  qed
qed

lemma compileAll_handles_both:
  assumes "appCompiler st = None \<longleftrightarrow> cssCompiler st = None"
  shows "appCompiler (compileAll h cfg opts envs st) = None
     \<longleftrightarrow> cssCompiler (compileAll h cfg opts envs st) = None"
  using assms
proof (induction envs arbitrary: st)
  case Nil
  then show ?case by simp
next
  case (Cons env envs)
  from compile_handles_both [OF Cons.prems]
  have "appCompiler (snd (compile h cfg opts env st)) = None
     \<longleftrightarrow> cssCompiler (snd (compile h cfg opts env st)) = None" .
  from Cons.IH [OF this] show ?case by simp
qed


lemma example_configs:
  "\<exists>ca. createEsbuildConfig (exampleHost [''react'']) App exampleConfig exampleOptions = Inr ca"
  "\<exists>cc. createEsbuildConfig (exampleHost [''react'']) Css exampleConfig exampleOptions = Inr cc"
  by (simp_all add: createEsbuildConfig_def example_getExternals Let_def)

lemma example_failed_first_compile:
  "fst (compile (exampleHost [''react'']) exampleConfig exampleOptions exampleFailedAppEnv
          (createBrowserCompiler d)) = Inl (Error ''Build failed'')"
  by (simp add: compile_def appBuildCall_def cssBuildCall_def createEsbuildConfig_def
      example_getExternals settleBuilds_def appWritesBefore_def appWritesAfter_def
      cssBuildPromise_def cssBuildThen_eq
      promiseAll_def createBrowserCompiler_def exampleFailedAppEnv_def exampleEnv_def
      Let_def split: option.splits)

lemma first_two_full_builds:
  "xs = [EsbuildBuild t a, EsbuildBuild u b] @ rest \<Longrightarrow> map isFullBuild (take 2 xs) = [True, True]"
  by simp


text \<open>
  Claim C4, as the code has it. A \<open>compile\<close> call on a state without handles, as the
  first call is, issues a full build for each target, with the computed configuration
  and \<open>metafile\<close> and \<open>incremental\<close> requested (and \<open>write\<close> off for the stylesheet
  target), and no other full build. A call on a state with both handles issues the
  rebuild of each stored handle and no full build, and so does every call of any
  sequence of calls made from such a state, after which both handles are still stored.
  The stored handles are replaced by the two new results when the two operations are
  issued and succeed and every write of a stylesheet file succeeds; they stay as they
  were when an operation fails, when the write of a stylesheet file is rejected, and
  when the configuration of a full build throws. So a call that follows only failed
  calls issues full builds again (the counterexample below). The state has one handle
  variable per target, a new compiler holds none, and after any sequence of calls it
  holds a handle for both targets or for neither.
\<close>

theorem full_build_without_handle_rebuild_with_handle:
  "(appCompiler st = None \<and> cssCompiler st = None
      \<and> createEsbuildConfig h App cfg opts = Inr ca
      \<and> createEsbuildConfig h Css cfg opts = Inr cc
    \<longrightarrow> (\<exists>rest. issuedCalls st (snd (compile h cfg opts env st)) =
            [EsbuildBuild App (ca\<lparr>metafileOption := Some True, incrementalOption := Some True\<rparr>),
             EsbuildBuild Css (cc\<lparr>metafileOption := Some True, writeOption := Some False,
                                    incrementalOption := Some True\<rparr>)] @ rest
          \<and> filter isFullBuild rest = []))
   \<and> (appCompiler st = Some ha \<and> cssCompiler st = Some hc
    \<longrightarrow> (\<exists>rest. issuedCalls st (snd (compile h cfg opts env st)) =
            [Rebuild App ha, Rebuild Css hc] @ rest
          \<and> filter isFullBuild rest = [])
       \<and> filter isFullBuild (issuedCalls st (compileAll h cfg opts envs st)) = []
       \<and> appCompiler (compileAll h cfg opts envs st) \<noteq> None
       \<and> cssCompiler (compileAll h cfg opts envs st) \<noteq> None)
   \<and> ((getExternals h cfg = Inr ext \<or> (appCompiler st \<noteq> None \<and> cssCompiler st \<noteq> None))
      \<and> appBuildOutcome env = Inr a \<and> cssBuildOutcome env = Inr c
      \<and> (\<forall>f \<in> set (emittedFiles c).
            startsWith (path f) (cssBundlePathPrefix h cfg)
            \<and> (endsWith (path f) ''.css'' \<or> endsWith (path f) ''.css.map'')
            \<longrightarrow> fsWriteFileOutcome env (path f) (contents f) = None)
    \<longrightarrow> appCompiler (snd (compile h cfg opts env st)) = Some a
      \<and> cssCompiler (snd (compile h cfg opts env st)) = Some c)
   \<and> (isl (appBuildOutcome env) \<or> isl (cssBuildOutcome env)
       \<or> (cssBuildOutcome env = Inr c
           \<and> (\<exists>f \<in> set (emittedFiles c).
                 startsWith (path f) (cssBundlePathPrefix h cfg)
                 \<and> (endsWith (path f) ''.css'' \<or> endsWith (path f) ''.css.map'')
                 \<and> fsWriteFileOutcome env (path f) (contents f) \<noteq> None))
       \<or> (isl (getExternals h cfg) \<and> (appCompiler st = None \<or> cssCompiler st = None))
    \<longrightarrow> appCompiler (snd (compile h cfg opts env st)) = appCompiler st
      \<and> cssCompiler (snd (compile h cfg opts env st)) = cssCompiler st)
   \<and> appCompiler (createBrowserCompiler d) = None
   \<and> cssCompiler (createBrowserCompiler d) = None
   \<and> ((appCompiler (compileAll h cfg opts envs (createBrowserCompiler d)) = None)
        = (cssCompiler (compileAll h cfg opts envs (createBrowserCompiler d)) = None))"
proof (intro conjI impI)
  assume "appCompiler st = None \<and> cssCompiler st = None
      \<and> createEsbuildConfig h App cfg opts = Inr ca
      \<and> createEsbuildConfig h Css cfg opts = Inr cc"
  then have "appBuildCall h cfg opts st =
      Inr (EsbuildBuild App (ca\<lparr>metafileOption := Some True, incrementalOption := Some True\<rparr>))"
    and "cssBuildCall h cfg opts st =
      Inr (EsbuildBuild Css (cc\<lparr>metafileOption := Some True, writeOption := Some False,
                               incrementalOption := Some True\<rparr>))"
    by (simp_all add: appBuildCall_full cssBuildCall_full)
  then show "\<exists>rest. issuedCalls st (snd (compile h cfg opts env st)) =
            [EsbuildBuild App (ca\<lparr>metafileOption := Some True, incrementalOption := Some True\<rparr>),
             EsbuildBuild Css (cc\<lparr>metafileOption := Some True, writeOption := Some False,
                                    incrementalOption := Some True\<rparr>)] @ rest
          \<and> filter isFullBuild rest = []"
    by (rule compile_first_calls)
next
  assume hs: "appCompiler st = Some ha \<and> cssCompiler st = Some hc"
  then have "appBuildCall h cfg opts st = Inr (Rebuild App ha)"
    and "cssBuildCall h cfg opts st = Inr (Rebuild Css hc)"
    by (simp_all add: appBuildCall_rebuild cssBuildCall_rebuild)
  then show "\<exists>rest. issuedCalls st (snd (compile h cfg opts env st)) =
            [Rebuild App ha, Rebuild Css hc] @ rest
          \<and> filter isFullBuild rest = []"
    by (rule compile_first_calls)
  from hs have ne: "appCompiler st \<noteq> None" "cssCompiler st \<noteq> None"
    by simp_all
  note R = compileAll_rebuilds [OF ne, of h cfg opts envs]
  from R show "filter isFullBuild (issuedCalls st (compileAll h cfg opts envs st)) = []"
    by blast
  from R show "appCompiler (compileAll h cfg opts envs st) \<noteq> None"
    by blast
  from R show "cssCompiler (compileAll h cfg opts envs st) \<noteq> None"
    by blast
next
  assume a: "(getExternals h cfg = Inr ext \<or> (appCompiler st \<noteq> None \<and> cssCompiler st \<noteq> None))
      \<and> appBuildOutcome env = Inr a \<and> cssBuildOutcome env = Inr c
      \<and> (\<forall>f \<in> set (emittedFiles c).
            startsWith (path f) (cssBundlePathPrefix h cfg)
            \<and> (endsWith (path f) ''.css'' \<or> endsWith (path f) ''.css.map'')
            \<longrightarrow> fsWriteFileOutcome env (path f) (contents f) = None)"
  then obtain ac bc where b: "appBuildCall h cfg opts st = Inr ac"
    "cssBuildCall h cfg opts st = Inr bc"
    using build_calls_issued by blast
  from a have o: "appBuildOutcome env = Inr a" "cssBuildOutcome env = Inr c"
    and w: "\<forall>f \<in> set (emittedFiles c).
            startsWith (path f) (cssBundlePathPrefix h cfg)
            \<and> (endsWith (path f) ''.css'' \<or> endsWith (path f) ''.css.map'')
            \<longrightarrow> fsWriteFileOutcome env (path f) (contents f) = None"
    by blast+
  note r = compile_handles_replaced [OF b o w]
  from r show "appCompiler (snd (compile h cfg opts env st)) = Some a" ..
  from r show "cssCompiler (snd (compile h cfg opts env st)) = Some c" ..
next
  assume a: "isl (appBuildOutcome env) \<or> isl (cssBuildOutcome env)
       \<or> (cssBuildOutcome env = Inr c
           \<and> (\<exists>f \<in> set (emittedFiles c).
                 startsWith (path f) (cssBundlePathPrefix h cfg)
                 \<and> (endsWith (path f) ''.css'' \<or> endsWith (path f) ''.css.map'')
                 \<and> fsWriteFileOutcome env (path f) (contents f) \<noteq> None))
       \<or> (isl (getExternals h cfg) \<and> (appCompiler st = None \<or> cssCompiler st = None))"
  note k = compile_handles_kept [OF a, of opts]
  from k show "appCompiler (snd (compile h cfg opts env st)) = appCompiler st" ..
  from k show "cssCompiler (snd (compile h cfg opts env st)) = cssCompiler st" ..
next
  show "appCompiler (createBrowserCompiler d) = None"
    and "cssCompiler (createBrowserCompiler d) = None"
    by (simp_all add: createBrowserCompiler_def)
  show "(appCompiler (compileAll h cfg opts envs (createBrowserCompiler d)) = None)
        = (cssCompiler (compileAll h cfg opts envs (createBrowserCompiler d)) = None)"
    by (rule compileAll_handles_both) (simp add: createBrowserCompiler_def)
qed

theorem full_build_without_handle_rebuild_with_handle_witness:
  "map isFullBuild (take 2 (issuedCalls (createBrowserCompiler Map.empty)
      (snd (compile (exampleHost [''react'']) exampleConfig exampleOptions exampleEnv
         (createBrowserCompiler Map.empty))))) = [True, True]
   \<and> appCompiler (snd (compile (exampleHost [''react'']) exampleConfig exampleOptions exampleEnv
         (createBrowserCompiler Map.empty))) = Some exampleAppResult
   \<and> cssCompiler (snd (compile (exampleHost [''react'']) exampleConfig exampleOptions exampleEnv
         (createBrowserCompiler Map.empty))) = Some exampleCssResult
   \<and> take 2 (issuedCalls
        (snd (compile (exampleHost [''react'']) exampleConfig exampleOptions exampleEnv
           (createBrowserCompiler Map.empty)))
        (snd (compile (exampleHost [''react'']) exampleConfig exampleOptions exampleEnv
           (snd (compile (exampleHost [''react'']) exampleConfig exampleOptions exampleEnv
              (createBrowserCompiler Map.empty))))))
       = [Rebuild App exampleAppResult, Rebuild Css exampleCssResult]
   \<and> filter isFullBuild (issuedCalls
        (snd (compile (exampleHost [''react'']) exampleConfig exampleOptions exampleEnv
           (createBrowserCompiler Map.empty)))
        (compileAll (exampleHost [''react'']) exampleConfig exampleOptions
           [exampleFailedAppEnv, exampleRejectedWriteEnv, exampleEnv]
           (snd (compile (exampleHost [''react'']) exampleConfig exampleOptions exampleEnv
              (createBrowserCompiler Map.empty))))) = []
   \<and> appCompiler
        (snd (compile (exampleHost [''react'']) exampleConfig exampleOptions exampleFailedAppEnv
           (snd (compile (exampleHost [''react'']) exampleConfig exampleOptions exampleEnv
              (createBrowserCompiler Map.empty))))) = Some exampleAppResult
   \<and> cssCompiler
        (snd (compile (exampleHost [''react'']) exampleConfig exampleOptions exampleFailedAppEnv
           (snd (compile (exampleHost [''react'']) exampleConfig exampleOptions exampleEnv
              (createBrowserCompiler Map.empty))))) = Some exampleCssResult
   \<and> appCompiler
        (snd (compile (exampleHost [''react'']) exampleConfig exampleOptions
           exampleRejectedWriteEnv (createBrowserCompiler Map.empty))) = None
   \<and> cssCompiler
        (snd (compile (exampleHost [''react'']) exampleConfig exampleOptions
           exampleRejectedWriteEnv (createBrowserCompiler Map.empty))) = None"
proof -
  let ?H = "exampleHost [''react'']"
  let ?S = "createBrowserCompiler Map.empty"
  let ?S1 = "snd (compile ?H exampleConfig exampleOptions exampleEnv ?S)"
  let ?S2 = "snd (compile ?H exampleConfig exampleOptions exampleEnv ?S1)"
  let ?SF = "snd (compile ?H exampleConfig exampleOptions exampleFailedAppEnv ?S1)"
  let ?SW = "snd (compile ?H exampleConfig exampleOptions exampleRejectedWriteEnv ?S)"
  let ?f2 = "\<lparr> path = ''/build/css-bundle-X7.css.map'', contents = ''{}'' \<rparr>"
  from example_configs obtain ca cc where
    ca: "createEsbuildConfig ?H App exampleConfig exampleOptions = Inr ca"
    and cc: "createEsbuildConfig ?H Css exampleConfig exampleOptions = Inr cc"
    by blast
  have i: "appCompiler ?S = None \<and> cssCompiler ?S = None"
    by (simp add: createBrowserCompiler_def)
  have e: "appBuildOutcome exampleEnv = Inr exampleAppResult
      \<and> cssBuildOutcome exampleEnv = Inr exampleCssResult
      \<and> (\<forall>f \<in> set (emittedFiles exampleCssResult).
            startsWith (path f) (cssBundlePathPrefix ?H exampleConfig)
            \<and> (endsWith (path f) ''.css'' \<or> endsWith (path f) ''.css.map'')
            \<longrightarrow> fsWriteFileOutcome exampleEnv (path f) (contents f) = None)"
    by (simp add: exampleEnv_def)
  have f: "isl (appBuildOutcome exampleFailedAppEnv)"
    by (simp add: exampleFailedAppEnv_def)
  have w: "cssBuildOutcome exampleRejectedWriteEnv = Inr exampleCssResult
      \<and> (\<exists>f \<in> set (emittedFiles exampleCssResult).
            startsWith (path f) (cssBundlePathPrefix ?H exampleConfig)
            \<and> (endsWith (path f) ''.css'' \<or> endsWith (path f) ''.css.map'')
            \<and> fsWriteFileOutcome exampleRejectedWriteEnv (path f) (contents f) \<noteq> None)"
  proof
    show "cssBuildOutcome exampleRejectedWriteEnv = Inr exampleCssResult"
      by (simp add: exampleRejectedWriteEnv_def exampleEnv_def)
    have "?f2 \<in> set (emittedFiles exampleCssResult)"
      by (simp add: emittedFiles_def exampleCssResult_def)
    moreover have "startsWith (path ?f2) (cssBundlePathPrefix ?H exampleConfig)
        \<and> (endsWith (path ?f2) ''.css'' \<or> endsWith (path ?f2) ''.css.map'')
        \<and> fsWriteFileOutcome exampleRejectedWriteEnv (path ?f2) (contents ?f2) \<noteq> None"
      by (simp add: startsWith_def endsWith_rev cssBundlePathPrefix_def exampleHost_def
          exampleConfig_def exampleRejectedWriteEnv_def)
    ultimately show "\<exists>f \<in> set (emittedFiles exampleCssResult).
            startsWith (path f) (cssBundlePathPrefix ?H exampleConfig)
            \<and> (endsWith (path f) ''.css'' \<or> endsWith (path f) ''.css.map'')
            \<and> fsWriteFileOutcome exampleRejectedWriteEnv (path f) (contents f) \<noteq> None"
      by (rule rev_bexI)
  qed
  note g = example_getExternals
  from full_build_without_handle_rebuild_with_handle
    [where st = ?S and h = ?H and cfg = exampleConfig and opts = exampleOptions
       and env = exampleEnv and ca = ca and cc = cc] i ca cc
  obtain rest where "issuedCalls ?S ?S1 =
      [EsbuildBuild App (ca\<lparr>metafileOption := Some True, incrementalOption := Some True\<rparr>),
       EsbuildBuild Css (cc\<lparr>metafileOption := Some True, writeOption := Some False,
                              incrementalOption := Some True\<rparr>)] @ rest"
    by blast
  then have 1: "map isFullBuild (take 2 (issuedCalls ?S ?S1)) = [True, True]"
    by (rule first_two_full_builds)
  from full_build_without_handle_rebuild_with_handle
    [where st = ?S and h = ?H and cfg = exampleConfig and opts = exampleOptions
       and env = exampleEnv and ext = "[''fs'', ''path'', ''http'']"
       and a = exampleAppResult and c = exampleCssResult] g e
  have 2: "appCompiler ?S1 = Some exampleAppResult" and 3: "cssCompiler ?S1 = Some exampleCssResult"
    by blast+
  note T = full_build_without_handle_rebuild_with_handle
    [where st = ?S1 and h = ?H and cfg = exampleConfig and opts = exampleOptions
       and env = exampleEnv and ha = exampleAppResult and hc = exampleCssResult
       and envs = "[exampleFailedAppEnv, exampleRejectedWriteEnv, exampleEnv]"]
  from T 2 3 obtain rest' where r: "issuedCalls ?S1 ?S2 =
      [Rebuild App exampleAppResult, Rebuild Css exampleCssResult] @ rest'"
    by blast
  from r have 4: "take 2 (issuedCalls ?S1 ?S2)
      = [Rebuild App exampleAppResult, Rebuild Css exampleCssResult]"
    by simp
  from T 2 3 have 5: "filter isFullBuild (issuedCalls ?S1
      (compileAll ?H exampleConfig exampleOptions
         [exampleFailedAppEnv, exampleRejectedWriteEnv, exampleEnv] ?S1)) = []"
    by blast
  from full_build_without_handle_rebuild_with_handle
    [where st = ?S1 and h = ?H and cfg = exampleConfig and opts = exampleOptions
       and env = exampleFailedAppEnv] f
  have "appCompiler ?SF = appCompiler ?S1" and "cssCompiler ?SF = cssCompiler ?S1"
    by blast+
  with 2 3 have 6: "appCompiler ?SF = Some exampleAppResult"
    and 7: "cssCompiler ?SF = Some exampleCssResult"
    by simp_all
  from full_build_without_handle_rebuild_with_handle
    [where st = ?S and h = ?H and cfg = exampleConfig and opts = exampleOptions
       and env = exampleRejectedWriteEnv and c = exampleCssResult] w
  have "appCompiler ?SW = appCompiler ?S" and "cssCompiler ?SW = cssCompiler ?S"
    by blast+
  with i have 8: "appCompiler ?SW = None" and 9: "cssCompiler ?SW = None"
    by simp_all
  from 1 2 3 4 5 6 7 8 9 show ?thesis by blast
qed

text \<open>
  The first call fails in the application build, so no handle is stored (the result of
  the stylesheet build, which succeeded, is dropped): the second call issues two full
  builds.
\<close>

theorem full_build_after_failed_compile_counterexample:
  "fst (compile (exampleHost [''react'']) exampleConfig exampleOptions exampleFailedAppEnv
          (createBrowserCompiler Map.empty)) = Inl (Error ''Build failed'')
   \<and> map isFullBuild (take 2 (issuedCalls
        (snd (compile (exampleHost [''react'']) exampleConfig exampleOptions exampleFailedAppEnv
           (createBrowserCompiler Map.empty)))
        (snd (compile (exampleHost [''react'']) exampleConfig exampleOptions exampleEnv
           (snd (compile (exampleHost [''react'']) exampleConfig exampleOptions
              exampleFailedAppEnv (createBrowserCompiler Map.empty))))))) = [True, True]"
proof -
  let ?H = "exampleHost [''react'']"
  let ?S = "createBrowserCompiler Map.empty"
  let ?SF = "snd (compile ?H exampleConfig exampleOptions exampleFailedAppEnv ?S)"
  let ?S2 = "snd (compile ?H exampleConfig exampleOptions exampleEnv ?SF)"
  from example_configs obtain ca cc where
    ca: "createEsbuildConfig ?H App exampleConfig exampleOptions = Inr ca"
    and cc: "createEsbuildConfig ?H Css exampleConfig exampleOptions = Inr cc"
    by blast
  have "\<not> (\<exists>a c. appBuildOutcome exampleFailedAppEnv = Inr a
      \<and> cssBuildOutcome exampleFailedAppEnv = Inr c)"
    by (simp add: exampleFailedAppEnv_def)
  from compile_build_failed [OF this, of ?H exampleConfig exampleOptions ?S]
  have "appCompiler ?SF = appCompiler ?S" and "cssCompiler ?SF = cssCompiler ?S"
    by blast+
  then have n: "appCompiler ?SF = None" "cssCompiler ?SF = None"
    by (simp_all add: createBrowserCompiler_def)
  from compile_first_calls [OF appBuildCall_full [OF n(1) ca] cssBuildCall_full [OF n(2) cc]]
  obtain rest where "issuedCalls ?SF ?S2 =
      [EsbuildBuild App (ca\<lparr>metafileOption := Some True, incrementalOption := Some True\<rparr>),
       EsbuildBuild Css (cc\<lparr>metafileOption := Some True, writeOption := Some False,
                              incrementalOption := Some True\<rparr>)] @ rest"
    by blast
  then have "map isFullBuild (take 2 (issuedCalls ?SF ?S2)) = [True, True]"
    by (rule first_two_full_builds)
  with example_failed_first_compile show ?thesis by blast
qed

section \<open>Disposal\<close>

lemma dispose_issued:
  "issuedCalls st (dispose st) =
     (case appCompiler st of None \<Rightarrow> [] | Some compiler \<Rightarrow> [RebuildDispose compiler])"
  by (simp add: dispose_def issuedCalls_def split: option.splits)

lemma dispose_handles:
  "appCompiler (dispose st) = appCompiler st" "cssCompiler (dispose st) = cssCompiler st"
  by (simp_all add: dispose_def split: option.splits)

lemma example_compile_log_no_dispose:
  "RebuildDispose b \<notin> set (log (snd (compile (exampleHost [''react'']) exampleConfig
      exampleOptions exampleEnv (createBrowserCompiler Map.empty))))"
proof -
  have "fst (fsWriteFiles exampleEnv ws d) = None" for ws d
    by (rule fsWriteFiles_all_ok) (simp add: exampleEnv_def)
  then show ?thesis
    by (simp add: compile_def appBuildCall_def cssBuildCall_def createEsbuildConfig_def
      example_getExternals settleBuilds_def appWritesBefore_def appWritesAfter_def
      cssBuildPromise_def cssBuildThen_eq emittedFiles_def
      processOutputFile_def startsWith_def endsWith_rev cssBundlePathPrefix_def
      promiseAll_def publishManifest_eq createBrowserCompiler_def exampleEnv_def
      exampleCssResult_def exampleAppResult_def Let_def)
qed


text \<open>
  Claim C8, on the code. After a \<open>compile\<close> that succeeded the compiler holds the
  handle of the application build and the handle of the stylesheet build; \<open>dispose\<close>
  issues the disposal of the application handle only, and the stylesheet handle is
  never disposed. On a compiler that has not built anything \<open>dispose\<close> does nothing.
\<close>

theorem dispose_leaves_stylesheet_handle:
  "appCompiler (snd (compile (exampleHost [''react'']) exampleConfig exampleOptions exampleEnv
      (createBrowserCompiler Map.empty))) = Some exampleAppResult
   \<and> cssCompiler (snd (compile (exampleHost [''react'']) exampleConfig exampleOptions exampleEnv
      (createBrowserCompiler Map.empty))) = Some exampleCssResult
   \<and> issuedCalls
        (snd (compile (exampleHost [''react'']) exampleConfig exampleOptions exampleEnv
           (createBrowserCompiler Map.empty)))
        (dispose (snd (compile (exampleHost [''react'']) exampleConfig exampleOptions exampleEnv
           (createBrowserCompiler Map.empty))))
       = [RebuildDispose exampleAppResult]
   \<and> RebuildDispose exampleCssResult
       \<notin> set (log (dispose (snd (compile (exampleHost [''react'']) exampleConfig exampleOptions
             exampleEnv (createBrowserCompiler Map.empty)))))
   \<and> dispose (createBrowserCompiler Map.empty) = createBrowserCompiler Map.empty"
proof -
  let ?H = "exampleHost [''react'']"
  let ?S = "createBrowserCompiler Map.empty"
  let ?S1 = "snd (compile ?H exampleConfig exampleOptions exampleEnv ?S)"
  have "\<exists>ac bc. appBuildCall ?H exampleConfig exampleOptions ?S = Inr ac
      \<and> cssBuildCall ?H exampleConfig exampleOptions ?S = Inr bc"
    using example_getExternals by (intro build_calls_issued) blast
  then obtain ac bc where "appBuildCall ?H exampleConfig exampleOptions ?S = Inr ac"
    "cssBuildCall ?H exampleConfig exampleOptions ?S = Inr bc"
    by blast
  then have h: "appCompiler ?S1 = Some exampleAppResult \<and> cssCompiler ?S1 = Some exampleCssResult"
    by (rule compile_handles_replaced) (simp_all add: exampleEnv_def)
  then have i: "issuedCalls ?S1 (dispose ?S1) = [RebuildDispose exampleAppResult]"
    by (simp add: dispose_issued)
  have ne: "exampleCssResult \<noteq> exampleAppResult"
    by (simp add: exampleCssResult_def exampleAppResult_def)
  have "log (dispose ?S1) = log ?S1 @ [RebuildDispose exampleAppResult]"
    using h by (simp add: dispose_def)
  with ne example_compile_log_no_dispose [of exampleCssResult]
  have n: "RebuildDispose exampleCssResult \<notin> set (log (dispose ?S1))"
    by simp
  have d: "dispose ?S = ?S"
    by (simp add: dispose_def createBrowserCompiler_def)
  from h i n d show ?thesis by blast
qed

section \<open>The scoped-style plugin: pass-through data\<close>

lemma onLoadCssModule_ok:
  assumes "onLoadCssModule h penv options args = Inr r"
  shows "\<exists>fileContents pr.
     readFile penv (argsPath args) = Inr fileContents
     \<and> postcssProcess penv (generateScopedName (mode options)) (mode options \<noteq> ''production'')
          fileContents (argsPath args) = Inr pr
     \<and> loadedPluginData r = Some
          \<lparr> resolveDir = path_dirname h (argsPath args),
            compiledCss = (case sourceMap pr of
                Some m \<Rightarrow> css pr @ [CHR 0x0A]
                  @ ''/*# sourceMappingURL=data:application/json;base64,'' @ base64 h m @ '' */''
              | None \<Rightarrow> css pr) \<rparr>
     \<and> loadedLoader r = LoaderJs
     \<and> loadedContents r =
          ''import '' @ [CHR 0x22] @ ''./'' @ path_basename h (argsPath args)
            @ compiledCssQueryString @ [CHR 0x22] @ '';'' @ [CHR 0x0A]
            @ ''export default '' @ JSON_stringify_exports h (json pr) @ '';''"
  using assms
  by (auto simp: onLoadCssModule_def Let_def split: sum.splits)

lemma example_onLoad:
  "onLoadCssModule (exampleHost [''react'']) examplePluginEnv exampleOptions exampleLoadArgs =
     Inr \<lparr> loadedContents =
             ''import '' @ [CHR 0x22] @ ''./styles.module.css?css-modules-plugin-compiled-css''
               @ [CHR 0x22] @ '';'' @ [CHR 0x0A] @ ''export default title:Xy12Z,;'',
           loadedLoader = LoaderJs, loadedResolveDir = None,
           loadedPluginData = Some \<lparr> resolveDir = ''/app/app'',
                                     compiledCss = ''.Xy12Z{color:red}'' \<rparr> \<rparr>"
  by (simp add: onLoadCssModule_def examplePluginEnv_def exampleOptions_def exampleLoadArgs_def
      exampleHost_def generateScopedName_def compiledCssQueryString_def
      Let_def)

text \<open>
  Claim C7. When the load hook of a scoped-style file succeeds, its result carries a
  pass-through record with the directory of the file and the compiled CSS text (the
  CSS of the style transform, followed by the source map comment when a map was
  produced). For arguments that carry this record the resolve hook of the compiled
  payload returns it unchanged, in the namespace of the plugin; and for arguments that
  carry what the resolve hook returned, the load hook of the compiled payload returns
  exactly the stored CSS text with the loader \<open>css\<close> and the stored directory as
  resolve directory.
\<close>

theorem pass_through_record_carried:
  "onLoadCssModule h penv options args = Inr r \<longrightarrow>
     (\<exists>fileContents pr pd.
        readFile penv (argsPath args) = Inr fileContents
        \<and> postcssProcess penv (generateScopedName (mode options))
             (mode options \<noteq> ''production'') fileContents (argsPath args) = Inr pr
        \<and> loadedPluginData r = Some pd
        \<and> resolveDir pd = path_dirname h (argsPath args)
        \<and> compiledCss pd =
             (case sourceMap pr of
                Some m \<Rightarrow> css pr @ [CHR 0x0A]
                  @ ''/*# sourceMappingURL=data:application/json;base64,'' @ base64 h m @ '' */''
              | None \<Rightarrow> css pr)
        \<and> (\<forall>rargs. argsPluginData rargs = loadedPluginData r \<longrightarrow>
              resolvedPluginData (onResolveCompiledCss h rargs) = Some pd
              \<and> resolvedNamespace (onResolveCompiledCss h rargs) = Some namespace
              \<and> (\<forall>largs. argsPluginData largs = resolvedPluginData (onResolveCompiledCss h rargs)
                    \<longrightarrow> onLoadCompiledCss largs =
                          Inr \<lparr> loadedContents = compiledCss pd, loadedLoader = LoaderCss,
                                loadedResolveDir = Some (resolveDir pd),
                                loadedPluginData = None \<rparr>)))"
proof
  assume "onLoadCssModule h penv options args = Inr r"
  from onLoadCssModule_ok [OF this] obtain fileContents pr where
    f: "readFile penv (argsPath args) = Inr fileContents"
    and q: "postcssProcess penv (generateScopedName (mode options))
             (mode options \<noteq> ''production'') fileContents (argsPath args) = Inr pr"
    and pd: "loadedPluginData r = Some
          \<lparr> resolveDir = path_dirname h (argsPath args),
            compiledCss = (case sourceMap pr of
                Some m \<Rightarrow> css pr @ [CHR 0x0A]
                  @ ''/*# sourceMappingURL=data:application/json;base64,'' @ base64 h m @ '' */''
              | None \<Rightarrow> css pr) \<rparr>"
    by blast
  let ?pd = "\<lparr> resolveDir = path_dirname h (argsPath args),
            compiledCss = (case sourceMap pr of
                Some m \<Rightarrow> css pr @ [CHR 0x0A]
                  @ ''/*# sourceMappingURL=data:application/json;base64,'' @ base64 h m @ '' */''
              | None \<Rightarrow> css pr) \<rparr>"
  have chain: "\<forall>rargs. argsPluginData rargs = loadedPluginData r \<longrightarrow>
              resolvedPluginData (onResolveCompiledCss h rargs) = Some ?pd
              \<and> resolvedNamespace (onResolveCompiledCss h rargs) = Some namespace
              \<and> (\<forall>largs. argsPluginData largs = resolvedPluginData (onResolveCompiledCss h rargs)
                    \<longrightarrow> onLoadCompiledCss largs =
                          Inr \<lparr> loadedContents = compiledCss ?pd, loadedLoader = LoaderCss,
                                loadedResolveDir = Some (resolveDir ?pd),
                                loadedPluginData = None \<rparr>)"
    by (simp add: pd onResolveCompiledCss_def onLoadCompiledCss_def Let_def)
  show "\<exists>fileContents pr pd.
        readFile penv (argsPath args) = Inr fileContents
        \<and> postcssProcess penv (generateScopedName (mode options))
             (mode options \<noteq> ''production'') fileContents (argsPath args) = Inr pr
        \<and> loadedPluginData r = Some pd
        \<and> resolveDir pd = path_dirname h (argsPath args)
        \<and> compiledCss pd =
             (case sourceMap pr of
                Some m \<Rightarrow> css pr @ [CHR 0x0A]
                  @ ''/*# sourceMappingURL=data:application/json;base64,'' @ base64 h m @ '' */''
              | None \<Rightarrow> css pr)
        \<and> (\<forall>rargs. argsPluginData rargs = loadedPluginData r \<longrightarrow>
              resolvedPluginData (onResolveCompiledCss h rargs) = Some pd
              \<and> resolvedNamespace (onResolveCompiledCss h rargs) = Some namespace
              \<and> (\<forall>largs. argsPluginData largs = resolvedPluginData (onResolveCompiledCss h rargs)
                    \<longrightarrow> onLoadCompiledCss largs =
                          Inr \<lparr> loadedContents = compiledCss pd, loadedLoader = LoaderCss,
                                loadedResolveDir = Some (resolveDir pd),
                                loadedPluginData = None \<rparr>))"
    by (intro exI [of _ fileContents] exI [of _ pr] exI [of _ ?pd] conjI f q pd chain) simp_all
qed

theorem pass_through_record_carried_witness:
  "loadedPluginData (projr (onLoadCssModule (exampleHost [''react'']) examplePluginEnv
        exampleOptions exampleLoadArgs))
     = Some \<lparr> resolveDir = ''/app/app'', compiledCss = ''.Xy12Z{color:red}'' \<rparr>
   \<and> resolvedPluginData (onResolveCompiledCss (exampleHost [''react'']) exampleResolveArgs)
     = Some \<lparr> resolveDir = ''/app/app'', compiledCss = ''.Xy12Z{color:red}'' \<rparr>
   \<and> resolvedNamespace (onResolveCompiledCss (exampleHost [''react'']) exampleResolveArgs)
     = Some ''css-modules-plugin-ns''
   \<and> onLoadCompiledCss exampleCompiledLoadArgs =
       Inr \<lparr> loadedContents = ''.Xy12Z{color:red}'', loadedLoader = LoaderCss,
             loadedResolveDir = Some ''/app/app'', loadedPluginData = None \<rparr>"
proof -
  let ?H = "exampleHost [''react'']"
  let ?R = "\<lparr> loadedContents =
             ''import '' @ [CHR 0x22] @ ''./styles.module.css?css-modules-plugin-compiled-css''
               @ [CHR 0x22] @ '';'' @ [CHR 0x0A] @ ''export default title:Xy12Z,;'',
           loadedLoader = LoaderJs, loadedResolveDir = None,
           loadedPluginData = Some \<lparr> resolveDir = ''/app/app'',
                                     compiledCss = ''.Xy12Z{color:red}'' \<rparr> \<rparr>"
  let ?pd = "\<lparr> resolveDir = ''/app/app'', compiledCss = ''.Xy12Z{color:red}'' \<rparr>"
  note ok = example_onLoad
  have 1: "loadedPluginData (projr (onLoadCssModule ?H examplePluginEnv exampleOptions
      exampleLoadArgs)) = Some ?pd"
    by (simp add: ok)
  have ra: "argsPluginData exampleResolveArgs = loadedPluginData ?R"
    by (simp add: exampleResolveArgs_def)
  from pass_through_record_carried
    [of ?H examplePluginEnv exampleOptions exampleLoadArgs ?R] ok
  obtain pd where pd: "loadedPluginData ?R = Some pd"
    and chain: "\<forall>rargs. argsPluginData rargs = loadedPluginData ?R \<longrightarrow>
              resolvedPluginData (onResolveCompiledCss ?H rargs) = Some pd
              \<and> resolvedNamespace (onResolveCompiledCss ?H rargs) = Some namespace
              \<and> (\<forall>largs. argsPluginData largs = resolvedPluginData (onResolveCompiledCss ?H rargs)
                    \<longrightarrow> onLoadCompiledCss largs =
                          Inr \<lparr> loadedContents = compiledCss pd, loadedLoader = LoaderCss,
                                loadedResolveDir = Some (resolveDir pd),
                                loadedPluginData = None \<rparr>)"
    by blast
  from pd have e: "pd = ?pd" by simp
  from chain ra have 2: "resolvedPluginData (onResolveCompiledCss ?H exampleResolveArgs) = Some pd"
    and n: "resolvedNamespace (onResolveCompiledCss ?H exampleResolveArgs) = Some namespace"
    and ld: "\<forall>largs. argsPluginData largs
          = resolvedPluginData (onResolveCompiledCss ?H exampleResolveArgs)
        \<longrightarrow> onLoadCompiledCss largs =
              Inr \<lparr> loadedContents = compiledCss pd, loadedLoader = LoaderCss,
                    loadedResolveDir = Some (resolveDir pd), loadedPluginData = None \<rparr>"
    by blast+
  have la: "argsPluginData exampleCompiledLoadArgs
      = resolvedPluginData (onResolveCompiledCss ?H exampleResolveArgs)"
    unfolding 2 e by (simp add: exampleCompiledLoadArgs_def)
  from ld la have "onLoadCompiledCss exampleCompiledLoadArgs =
              Inr \<lparr> loadedContents = compiledCss pd, loadedLoader = LoaderCss,
                    loadedResolveDir = Some (resolveDir pd), loadedPluginData = None \<rparr>"
    by blast
  then have 4: "onLoadCompiledCss exampleCompiledLoadArgs =
       Inr \<lparr> loadedContents = ''.Xy12Z{color:red}'', loadedLoader = LoaderCss,
             loadedResolveDir = Some ''/app/app'', loadedPluginData = None \<rparr>"
    unfolding e by simp
  from n have 3: "resolvedNamespace (onResolveCompiledCss ?H exampleResolveArgs)
      = Some ''css-modules-plugin-ns''"
    by (simp add: namespace_def pluginName_def)
  from 1 2 [unfolded e] 3 4 show ?thesis by blast
qed

end
